theory Spec2Isabelle
  imports Main "HOL-Library.Word"
begin

section \<open>Solidity values and checked arithmetic\<close>

text \<open>
  Addresses are 160-bit and every \<open>uint256\<close> is a 256-bit word. The contracts are compiled
  with Solidity 0.8, whose \<open>+\<close>, \<open>-\<close> and \<open>*\<close> revert with a panic on overflow; only code
  inside an \<open>unchecked\<close> block wraps around. A revert discards every write of the call, so
  a failing call is an error value that carries no state. Events are notifications for
  observers outside the chain; no contract reads them, and they are left out.
\<close>

type_synonym address = "160 word"
type_synonym uint256 = "256 word"

datatype role = DEFAULT_ADMIN_ROLE | MINTER_ROLE | VERIFIER_ROLE | ADMIN_ROLE

datatype error =
    Revert string
  | Panic
  | ReentrancyGuardReentrantCall
  | AccessControlUnauthorizedAccount address role
  | AccessControlBadConfirmation
  | OwnableUnauthorizedAccount address
  | OwnableInvalidOwner address
  | ERC20InsufficientBalance address
  | ERC20InsufficientAllowance address
  | ERC20InvalidSender address
  | ERC20InvalidReceiver address
  | ERC20InvalidApprover address
  | ERC20InvalidSpender address
  | InsufficientFunds

definition add256 :: "uint256 \<Rightarrow> uint256 \<Rightarrow> error + uint256" where
  "add256 a b = (if unat a + unat b < 2 ^ 256 then Inr (a + b) else Inl Panic)"

definition sub256 :: "uint256 \<Rightarrow> uint256 \<Rightarrow> error + uint256" where
  "sub256 a b = (if b \<le> a then Inr (a - b) else Inl Panic)"

definition mul256 :: "uint256 \<Rightarrow> uint256 \<Rightarrow> error + uint256" where
  "mul256 a b = (if unat a * unat b < 2 ^ 256 then Inr (a * b) else Inl Panic)"

definition bnd :: "error + 'a \<Rightarrow> ('a \<Rightarrow> error + 'b) \<Rightarrow> error + 'b" where
  "bnd m f = (case m of Inl e \<Rightarrow> Inl e | Inr x \<Rightarrow> f x)"

section \<open>The ledger: CarbonCreditToken\<close>

record CreditMetadata =
  cm_projectName :: string
  cm_projectType :: string
  cm_location :: string
  cm_vintage :: uint256
  cm_timestamp :: uint256
  cm_isRetired :: bool
  cm_retiredBy :: address
  cm_retiredAt :: uint256

text \<open>
  The storage of the token contract. \<open>balances\<close>, \<open>allowances\<close> and \<open>totalSupply\<close> are the
  storage of the inherited ERC20, \<open>roles\<close> that of AccessControl and \<open>t_entered\<close> the status
  word of ReentrancyGuard; the other fields are declared in CarbonCreditToken.sol. A
  Solidity mapping is a total function whose default is the zero value.
\<close>

record token =
  balances :: "address \<Rightarrow> uint256"
  allowances :: "address \<Rightarrow> address \<Rightarrow> uint256"
  totalSupply :: uint256
  roles :: "role \<Rightarrow> address \<Rightarrow> bool"
  t_entered :: bool
  creditMetadata :: "uint256 \<Rightarrow> CreditMetadata"
  userRetiredCredits :: "address \<Rightarrow> uint256 list"
  projectCredits :: "string \<Rightarrow> uint256"
  nextCreditId :: uint256
  totalRetired :: uint256

subsection \<open>The inherited base token\<close>

text \<open>
  Modelled from the spec: the base token standard that CarbonCreditToken inherits (the
  imports ERC20.sol and ERC20Burnable.sol of the OpenZeppelin package, release 5) is not
  among the sources of this repository. The spec's data model has "Balance: principal to amount, mutated by mint,
  transfer, retire, escrow" and leaves the generic transfer mechanics to that standard, so
  the functions below follow the standard's contract: \<open>erc20_update\<close> is its internal
  \<open>_update\<close>, which checks the sender's balance and the total supply and then adjusts the
  other side inside an \<open>unchecked\<close> block (word arithmetic that wraps).
\<close>

definition erc20_update :: "address \<Rightarrow> address \<Rightarrow> uint256 \<Rightarrow> token \<Rightarrow> error + token" where
  "erc20_update frm to val s =
     bnd (if frm = 0
          then bnd (add256 (totalSupply s) val) (\<lambda>ts. Inr (s\<lparr>totalSupply := ts\<rparr>))
          else if balances s frm < val then Inl (ERC20InsufficientBalance frm)
          else Inr (s\<lparr>balances := (balances s)(frm := balances s frm - val)\<rparr>))
       (\<lambda>s1. Inr (if to = 0
                   then s1\<lparr>totalSupply := totalSupply s1 - val\<rparr>
                   else s1\<lparr>balances := (balances s1)(to := balances s1 to + val)\<rparr>))"

definition erc20_transfer :: "address \<Rightarrow> address \<Rightarrow> uint256 \<Rightarrow> token \<Rightarrow> error + token" where
  "erc20_transfer frm to val s =
     (if frm = 0 then Inl (ERC20InvalidSender 0)
      else if to = 0 then Inl (ERC20InvalidReceiver 0)
      else erc20_update frm to val s)"

definition erc20_mint :: "address \<Rightarrow> uint256 \<Rightarrow> token \<Rightarrow> error + token" where
  "erc20_mint account val s =
     (if account = 0 then Inl (ERC20InvalidReceiver 0) else erc20_update 0 account val s)"

definition erc20_burn :: "address \<Rightarrow> uint256 \<Rightarrow> token \<Rightarrow> error + token" where
  "erc20_burn account val s =
     (if account = 0 then Inl (ERC20InvalidSender 0) else erc20_update account 0 val s)"

definition erc20_approve :: "address \<Rightarrow> address \<Rightarrow> uint256 \<Rightarrow> token \<Rightarrow> error + token" where
  "erc20_approve ownr spender val s =
     (if ownr = 0 then Inl (ERC20InvalidApprover 0)
      else if spender = 0 then Inl (ERC20InvalidSpender 0)
      else Inr (s\<lparr>allowances := (allowances s)(ownr := (allowances s ownr)(spender := val))\<rparr>))"

definition erc20_spendAllowance :: "address \<Rightarrow> address \<Rightarrow> uint256 \<Rightarrow> token \<Rightarrow> error + token" where
  "erc20_spendAllowance ownr spender val s =
     (let currentAllowance = allowances s ownr spender in
      if currentAllowance < - 1
      then (if currentAllowance < val then Inl (ERC20InsufficientAllowance spender)
            else erc20_approve ownr spender (currentAllowance - val) s)
      else Inr s)"

text \<open>The external entry points of the base token; \<open>sender\<close> is \<open>msg.sender\<close>.\<close>

definition transfer :: "address \<Rightarrow> address \<Rightarrow> uint256 \<Rightarrow> token \<Rightarrow> error + token" where
  "transfer sender to val s = erc20_transfer sender to val s"

definition transferFrom :: "address \<Rightarrow> address \<Rightarrow> address \<Rightarrow> uint256 \<Rightarrow> token \<Rightarrow> error + token" where
  "transferFrom sender frm to val s =
     bnd (erc20_spendAllowance frm sender val s) (erc20_transfer frm to val)"

definition approve :: "address \<Rightarrow> address \<Rightarrow> uint256 \<Rightarrow> token \<Rightarrow> error + token" where
  "approve sender spender val s = erc20_approve sender spender val s"

definition burn :: "address \<Rightarrow> uint256 \<Rightarrow> token \<Rightarrow> error + token" where
  "burn sender val s = erc20_burn sender val s"

definition burnFrom :: "address \<Rightarrow> address \<Rightarrow> uint256 \<Rightarrow> token \<Rightarrow> error + token" where
  "burnFrom sender account val s =
     bnd (erc20_spendAllowance account sender val s) (erc20_burn account val)"

subsection \<open>Role administration\<close>

text \<open>
  Modelled from the spec: AccessControl (an OpenZeppelin import, not among the sources) keeps, for
  every role, the set of principals that hold it; the spec's role model is "capability
  sets, independently grantable to multiple principals by a bootstrap owner". Every role
  is administered by \<open>DEFAULT_ADMIN_ROLE\<close>, since no contract here changes a role's admin.
\<close>

definition onlyRole :: "role \<Rightarrow> address \<Rightarrow> (role \<Rightarrow> address \<Rightarrow> bool) \<Rightarrow> error + unit" where
  "onlyRole r sender rs =
     (if rs r sender then Inr () else Inl (AccessControlUnauthorizedAccount sender r))"

definition grantRole ::
  "address \<Rightarrow> role \<Rightarrow> address \<Rightarrow> (role \<Rightarrow> address \<Rightarrow> bool) \<Rightarrow> error + (role \<Rightarrow> address \<Rightarrow> bool)" where
  "grantRole sender r account rs =
     bnd (onlyRole DEFAULT_ADMIN_ROLE sender rs) (\<lambda>_. Inr (rs(r := (rs r)(account := True))))"

definition revokeRole ::
  "address \<Rightarrow> role \<Rightarrow> address \<Rightarrow> (role \<Rightarrow> address \<Rightarrow> bool) \<Rightarrow> error + (role \<Rightarrow> address \<Rightarrow> bool)" where
  "revokeRole sender r account rs =
     bnd (onlyRole DEFAULT_ADMIN_ROLE sender rs) (\<lambda>_. Inr (rs(r := (rs r)(account := False))))"

definition renounceRole ::
  "address \<Rightarrow> role \<Rightarrow> address \<Rightarrow> (role \<Rightarrow> address \<Rightarrow> bool) \<Rightarrow> error + (role \<Rightarrow> address \<Rightarrow> bool)" where
  "renounceRole sender r callerConfirmation rs =
     (if callerConfirmation \<noteq> sender then Inl AccessControlBadConfirmation
      else Inr (rs(r := (rs r)(sender := False))))"

subsection \<open>CarbonCreditToken.sol\<close>

text \<open>The constructor: the deployer receives the three roles; all storage is zero.\<close>

definition token_init :: "address \<Rightarrow> token" where
  "token_init deployer =
     \<lparr> balances = (\<lambda>_. 0),
       allowances = (\<lambda>_ _. 0),
       totalSupply = 0,
       roles = (\<lambda>r a. (r = DEFAULT_ADMIN_ROLE \<or> r = MINTER_ROLE \<or> r = VERIFIER_ROLE) \<and> a = deployer),
       t_entered = False,
       creditMetadata = (\<lambda>_. \<lparr> cm_projectName = [], cm_projectType = [], cm_location = [],
                                cm_vintage = 0, cm_timestamp = 0, cm_isRetired = False,
                                cm_retiredBy = 0, cm_retiredAt = 0 \<rparr>),
       userRetiredCredits = (\<lambda>_. []),
       projectCredits = (\<lambda>_. 0),
       nextCreditId = 0,
       totalRetired = 0 \<rparr>"

text \<open>
  \<open>mintCredits\<close>: the modifiers \<open>onlyRole(MINTER_ROLE)\<close> and \<open>nonReentrant\<close> run first, in
  that order; the lock is taken for the body and released at the end. \<open>now\<close> is
  \<open>block.timestamp\<close>. The result is the new state and the returned credit id.
\<close>

definition mintCredits ::
  "address \<Rightarrow> address \<Rightarrow> uint256 \<Rightarrow> string \<Rightarrow> string \<Rightarrow> string \<Rightarrow> uint256 \<Rightarrow> uint256 \<Rightarrow> token
     \<Rightarrow> error + (token \<times> uint256)" where
  "mintCredits sender to amount projectName projectType location vintage now s =
     (if \<not> roles s MINTER_ROLE sender then Inl (AccessControlUnauthorizedAccount sender MINTER_ROLE)
      else if t_entered s then Inl ReentrancyGuardReentrantCall
      else if \<not> 0 < amount then Inl (Revert ''Amount must be greater than 0'')
      else if \<not> 0 < length projectName then Inl (Revert ''Project name required'')
      else if \<not> vintage \<le> now then Inl (Revert ''Invalid vintage year'')
      else
        let creditId = nextCreditId s in
        bnd (add256 (nextCreditId s) 1) (\<lambda>nid.
        bnd (add256 (projectCredits s projectName) amount) (\<lambda>pc.
        bnd (erc20_mint to amount
              (s\<lparr> t_entered := True,
                  nextCreditId := nid,
                  creditMetadata := (creditMetadata s)(creditId :=
                    \<lparr> cm_projectName = projectName, cm_projectType = projectType,
                      cm_location = location, cm_vintage = vintage, cm_timestamp = now,
                      cm_isRetired = False, cm_retiredBy = 0, cm_retiredAt = 0 \<rparr>),
                  projectCredits := (projectCredits s)(projectName := pc) \<rparr>)) (\<lambda>s'.
        Inr (s'\<lparr>t_entered := False\<rparr>, creditId)))))"

text \<open>\<open>retireCredits\<close>: the three requirements in the order of the source, then the writes.\<close>

definition retireCredits :: "address \<Rightarrow> uint256 \<Rightarrow> uint256 \<Rightarrow> uint256 \<Rightarrow> token \<Rightarrow> error + token" where
  "retireCredits sender amount creditId now s =
     (if t_entered s then Inl ReentrancyGuardReentrantCall
      else if \<not> amount \<le> balances s sender then Inl (Revert ''Insufficient balance'')
      else if \<not> creditId < nextCreditId s then Inl (Revert ''Invalid credit ID'')
      else if cm_isRetired (creditMetadata s creditId) then Inl (Revert ''Credits already retired'')
      else
        bnd (add256 (totalRetired s) amount) (\<lambda>tr.
        bnd (erc20_burn sender amount
              (s\<lparr> t_entered := True,
                  creditMetadata := (creditMetadata s)(creditId :=
                    (creditMetadata s creditId)\<lparr> cm_isRetired := True, cm_retiredBy := sender,
                                                 cm_retiredAt := now \<rparr>),
                  userRetiredCredits :=
                    (userRetiredCredits s)(sender := userRetiredCredits s sender @ [creditId]),
                  totalRetired := tr \<rparr>)) (\<lambda>s'.
        Inr (s'\<lparr>t_entered := False\<rparr>))))"

text \<open>The views \<open>getCreditMetadata\<close> and \<open>isRetired\<close>.\<close>

definition getCreditMetadata :: "uint256 \<Rightarrow> token \<Rightarrow> error + CreditMetadata" where
  "getCreditMetadata creditId s =
     (if \<not> creditId < nextCreditId s then Inl (Revert ''Invalid credit ID'')
      else Inr (creditMetadata s creditId))"

definition isRetired :: "uint256 \<Rightarrow> token \<Rightarrow> error + bool" where
  "isRetired creditId s =
     (if \<not> creditId < nextCreditId s then Inl (Revert ''Invalid credit ID'')
      else Inr (cm_isRetired (creditMetadata s creditId)))"

subsection \<open>Transactions on the ledger\<close>

text \<open>
  One constructor for each external state-changing entry point of the token contract,
  with \<open>msg.sender\<close> first and \<open>block.timestamp\<close> last where the function reads it.
\<close>

datatype token_op =
    MintCredits address address uint256 string string string uint256 uint256
  | RetireCredits address uint256 uint256 uint256
  | Transfer address address uint256
  | TransferFrom address address address uint256
  | Approve address address uint256
  | Burn address uint256
  | BurnFrom address address uint256
  | GrantRole address role address
  | RevokeRole address role address
  | RenounceRole address role address

fun token_exec :: "token_op \<Rightarrow> token \<Rightarrow> error + token" where
  "token_exec (MintCredits sender to amount pn pt loc vintage now) s =
     bnd (mintCredits sender to amount pn pt loc vintage now s) (\<lambda>(s', _). Inr s')"
| "token_exec (RetireCredits sender amount creditId now) s = retireCredits sender amount creditId now s"
| "token_exec (Transfer sender to val) s = transfer sender to val s"
| "token_exec (TransferFrom sender frm to val) s = transferFrom sender frm to val s"
| "token_exec (Approve sender spender val) s = approve sender spender val s"
| "token_exec (Burn sender val) s = burn sender val s"
| "token_exec (BurnFrom sender account val) s = burnFrom sender account val s"
| "token_exec (GrantRole sender r account) s =
     bnd (grantRole sender r account (roles s)) (\<lambda>rs. Inr (s\<lparr>roles := rs\<rparr>))"
| "token_exec (RevokeRole sender r account) s =
     bnd (revokeRole sender r account (roles s)) (\<lambda>rs. Inr (s\<lparr>roles := rs\<rparr>))"
| "token_exec (RenounceRole sender r account) s =
     bnd (renounceRole sender r account (roles s)) (\<lambda>rs. Inr (s\<lparr>roles := rs\<rparr>))"

text \<open>A transaction that reverts leaves the state as it was.\<close>

definition token_step :: "token \<Rightarrow> token_op \<Rightarrow> token" where
  "token_step s opn = (case token_exec opn s of Inl _ \<Rightarrow> s | Inr s' \<Rightarrow> s')"

fun token_run :: "token \<Rightarrow> token_op list \<Rightarrow> token" where
  "token_run s [] = s"
| "token_run s (opn # ops) = token_run (token_step s opn) ops"

text \<open>The amount a transaction mints: that of a \<open>mintCredits\<close> call that succeeds.\<close>

fun minted_by :: "token \<Rightarrow> token_op \<Rightarrow> nat" where
  "minted_by s (MintCredits sender to amount pn pt loc vintage now) =
     (case mintCredits sender to amount pn pt loc vintage now s of Inl _ \<Rightarrow> 0 | Inr _ \<Rightarrow> unat amount)"
| "minted_by s _ = 0"

fun total_minted :: "token \<Rightarrow> token_op list \<Rightarrow> nat" where
  "total_minted s [] = 0"
| "total_minted s (opn # ops) = minted_by s opn + total_minted (token_step s opn) ops"

fun is_burn :: "token_op \<Rightarrow> bool" where
  "is_burn (Burn _ _) = True"
| "is_burn (BurnFrom _ _ _) = True"
| "is_burn _ = False"

definition sum_balances :: "token \<Rightarrow> nat" where
  "sum_balances s = (\<Sum>a\<in>UNIV. unat (balances s a))"

subsection \<open>Invariants of the ledger\<close>

text \<open>
  \<open>supply_ok\<close>: the balances add up to the total supply. \<open>tinv\<close> adds that the lock is
  free between transactions and that no credit id at or beyond \<open>nextCreditId\<close> is marked
  retired. \<open>conserved\<close> is the quantity of the conservation law.
\<close>

definition supply_ok :: "token \<Rightarrow> bool" where
  "supply_ok s = (sum_balances s = unat (totalSupply s))"

definition tinv :: "token \<Rightarrow> bool" where
  "tinv s = (supply_ok s \<and> \<not> t_entered s \<and>
             (\<forall>i. nextCreditId s \<le> i \<longrightarrow> \<not> cm_isRetired (creditMetadata s i)))"

definition conserved :: "token \<Rightarrow> nat" where
  "conserved s = sum_balances s + unat (totalRetired s)"


section \<open>The registry: CarbonCreditRegistry\<close>

record Project =
  p_name :: string
  p_projectType :: string
  p_location :: string
  p_owner :: address
  p_registeredAt :: uint256
  p_isVerified :: bool
  p_isActive :: bool
  p_totalCreditsIssued :: uint256
  p_metadataURI :: string

record Issuer =
  i_name :: string
  i_issuerAddress :: address
  i_isVerified :: bool
  i_isActive :: bool
  i_registeredAt :: uint256
  i_projectsRegistered :: uint256

record registry =
  projects :: "uint256 \<Rightarrow> Project"
  issuers :: "address \<Rightarrow> Issuer"
  issuerProjects :: "address \<Rightarrow> uint256 list"
  isRegisteredIssuer :: "address \<Rightarrow> bool"
  nextProjectId :: uint256
  totalProjects :: uint256
  totalVerifiedProjects :: uint256
  r_roles :: "role \<Rightarrow> address \<Rightarrow> bool"

text \<open>The constructor grants the deployer the default admin, admin and verifier roles.\<close>

definition registry_init :: "address \<Rightarrow> registry" where
  "registry_init deployer =
     \<lparr> projects = (\<lambda>_. \<lparr> p_name = [], p_projectType = [], p_location = [], p_owner = 0,
                          p_registeredAt = 0, p_isVerified = False, p_isActive = False,
                          p_totalCreditsIssued = 0, p_metadataURI = [] \<rparr>),
       issuers = (\<lambda>_. \<lparr> i_name = [], i_issuerAddress = 0, i_isVerified = False,
                         i_isActive = False, i_registeredAt = 0, i_projectsRegistered = 0 \<rparr>),
       issuerProjects = (\<lambda>_. []),
       isRegisteredIssuer = (\<lambda>_. False),
       nextProjectId = 0,
       totalProjects = 0,
       totalVerifiedProjects = 0,
       r_roles = (\<lambda>r a. (r = DEFAULT_ADMIN_ROLE \<or> r = ADMIN_ROLE \<or> r = VERIFIER_ROLE) \<and> a = deployer) \<rparr>"

definition registerIssuer :: "address \<Rightarrow> string \<Rightarrow> uint256 \<Rightarrow> registry \<Rightarrow> error + registry" where
  "registerIssuer sender name now s =
     (if isRegisteredIssuer s sender then Inl (Revert ''Already registered'')
      else if \<not> 0 < length name then Inl (Revert ''Name required'')
      else Inr (s\<lparr> issuers := (issuers s)(sender :=
                      \<lparr> i_name = name, i_issuerAddress = sender, i_isVerified = False,
                        i_isActive = True, i_registeredAt = now, i_projectsRegistered = 0 \<rparr>),
                    isRegisteredIssuer := (isRegisteredIssuer s)(sender := True) \<rparr>))"

definition verifyIssuer :: "address \<Rightarrow> address \<Rightarrow> registry \<Rightarrow> error + registry" where
  "verifyIssuer sender issuerAddress s =
     (if \<not> r_roles s VERIFIER_ROLE sender
      then Inl (AccessControlUnauthorizedAccount sender VERIFIER_ROLE)
      else if \<not> isRegisteredIssuer s issuerAddress then Inl (Revert ''Issuer not registered'')
      else Inr (s\<lparr> issuers := (issuers s)(issuerAddress :=
                      (issuers s issuerAddress)\<lparr> i_isVerified := True \<rparr>) \<rparr>))"

definition registerProject ::
  "address \<Rightarrow> string \<Rightarrow> string \<Rightarrow> string \<Rightarrow> string \<Rightarrow> uint256 \<Rightarrow> registry
     \<Rightarrow> error + (registry \<times> uint256)" where
  "registerProject sender name projectType location metadataURI now s =
     (if \<not> isRegisteredIssuer s sender then Inl (Revert ''Not a registered issuer'')
      else if \<not> i_isActive (issuers s sender) then Inl (Revert ''Issuer not active'')
      else if \<not> 0 < length name then Inl (Revert ''Name required'')
      else
        let projectId = nextProjectId s in
        bnd (add256 (nextProjectId s) 1) (\<lambda>nid.
        bnd (add256 (i_projectsRegistered (issuers s sender)) 1) (\<lambda>pr.
        bnd (add256 (totalProjects s) 1) (\<lambda>tp.
        Inr (s\<lparr> nextProjectId := nid,
                 projects := (projects s)(projectId :=
                   \<lparr> p_name = name, p_projectType = projectType, p_location = location,
                     p_owner = sender, p_registeredAt = now, p_isVerified = False,
                     p_isActive = True, p_totalCreditsIssued = 0, p_metadataURI = metadataURI \<rparr>),
                 issuerProjects := (issuerProjects s)(sender := issuerProjects s sender @ [projectId]),
                 issuers := (issuers s)(sender :=
                   (issuers s sender)\<lparr> i_projectsRegistered := pr \<rparr>),
                 totalProjects := tp \<rparr>, projectId)))))"

definition verifyProject :: "address \<Rightarrow> uint256 \<Rightarrow> registry \<Rightarrow> error + registry" where
  "verifyProject sender projectId s =
     (if \<not> r_roles s VERIFIER_ROLE sender
      then Inl (AccessControlUnauthorizedAccount sender VERIFIER_ROLE)
      else if \<not> projectId < nextProjectId s then Inl (Revert ''Invalid project ID'')
      else if p_isVerified (projects s projectId) then Inl (Revert ''Already verified'')
      else
        bnd (add256 (totalVerifiedProjects s) 1) (\<lambda>tv.
        Inr (s\<lparr> projects := (projects s)(projectId :=
                   (projects s projectId)\<lparr> p_isVerified := True \<rparr>),
                 totalVerifiedProjects := tv \<rparr>)))"

definition recordCreditsIssued :: "address \<Rightarrow> uint256 \<Rightarrow> uint256 \<Rightarrow> registry \<Rightarrow> error + registry" where
  "recordCreditsIssued sender projectId amount s =
     (if \<not> r_roles s ADMIN_ROLE sender
      then Inl (AccessControlUnauthorizedAccount sender ADMIN_ROLE)
      else if \<not> projectId < nextProjectId s then Inl (Revert ''Invalid project ID'')
      else if \<not> p_isActive (projects s projectId) then Inl (Revert ''Project not active'')
      else
        bnd (add256 (p_totalCreditsIssued (projects s projectId)) amount) (\<lambda>tc.
        Inr (s\<lparr> projects := (projects s)(projectId :=
                   (projects s projectId)\<lparr> p_totalCreditsIssued := tc \<rparr>) \<rparr>)))"

definition deactivateProject :: "address \<Rightarrow> uint256 \<Rightarrow> registry \<Rightarrow> error + registry" where
  "deactivateProject sender projectId s =
     (if \<not> r_roles s ADMIN_ROLE sender
      then Inl (AccessControlUnauthorizedAccount sender ADMIN_ROLE)
      else if \<not> projectId < nextProjectId s then Inl (Revert ''Invalid project ID'')
      else Inr (s\<lparr> projects := (projects s)(projectId :=
                      (projects s projectId)\<lparr> p_isActive := False \<rparr>) \<rparr>))"

definition isProjectVerified :: "uint256 \<Rightarrow> registry \<Rightarrow> error + bool" where
  "isProjectVerified projectId s =
     (if \<not> projectId < nextProjectId s then Inl (Revert ''Invalid project ID'')
      else Inr (p_isVerified (projects s projectId)))"

datatype registry_op =
    RegisterIssuer address string uint256
  | VerifyIssuer address address
  | RegisterProject address string string string string uint256
  | VerifyProject address uint256
  | RecordCreditsIssued address uint256 uint256
  | DeactivateProject address uint256
  | RegistryGrantRole address role address
  | RegistryRevokeRole address role address
  | RegistryRenounceRole address role address

fun registry_exec :: "registry_op \<Rightarrow> registry \<Rightarrow> error + registry" where
  "registry_exec (RegisterIssuer sender name now) s = registerIssuer sender name now s"
| "registry_exec (VerifyIssuer sender issuerAddress) s = verifyIssuer sender issuerAddress s"
| "registry_exec (RegisterProject sender name pt loc uri now) s =
     bnd (registerProject sender name pt loc uri now s) (\<lambda>(s', _). Inr s')"
| "registry_exec (VerifyProject sender projectId) s = verifyProject sender projectId s"
| "registry_exec (RecordCreditsIssued sender projectId amount) s =
     recordCreditsIssued sender projectId amount s"
| "registry_exec (DeactivateProject sender projectId) s = deactivateProject sender projectId s"
| "registry_exec (RegistryGrantRole sender r account) s =
     bnd (grantRole sender r account (r_roles s)) (\<lambda>rs. Inr (s\<lparr>r_roles := rs\<rparr>))"
| "registry_exec (RegistryRevokeRole sender r account) s =
     bnd (revokeRole sender r account (r_roles s)) (\<lambda>rs. Inr (s\<lparr>r_roles := rs\<rparr>))"
| "registry_exec (RegistryRenounceRole sender r account) s =
     bnd (renounceRole sender r account (r_roles s)) (\<lambda>rs. Inr (s\<lparr>r_roles := rs\<rparr>))"

definition registry_step :: "registry \<Rightarrow> registry_op \<Rightarrow> registry" where
  "registry_step s opn = (case registry_exec opn s of Inl _ \<Rightarrow> s | Inr s' \<Rightarrow> s')"

fun registry_run :: "registry \<Rightarrow> registry_op list \<Rightarrow> registry" where
  "registry_run s [] = s"
| "registry_run s (opn # ops) = registry_run (registry_step s opn) ops"

text \<open>No project id at or beyond \<open>nextProjectId\<close> is marked verified.\<close>

definition rinv :: "registry \<Rightarrow> bool" where
  "rinv s = (\<forall>i. nextProjectId s \<le> i \<longrightarrow> \<not> p_isVerified (projects s i))"

section \<open>The marketplace: CarbonMarketplace\<close>

record Listing =
  l_seller :: address
  l_amount :: uint256
  l_pricePerCredit :: uint256
  l_isActive :: bool
  l_createdAt :: uint256
  l_creditId :: uint256
  l_projectName :: string

record Trade =
  tr_listingId :: uint256
  tr_buyer :: address
  tr_seller :: address
  tr_amount :: uint256
  tr_totalPrice :: uint256
  tr_timestamp :: uint256

text \<open>
  The storage of the marketplace contract: its own fields, \<open>owner\<close> from Ownable and
  \<open>m_entered\<close>, the status word of ReentrancyGuard.
\<close>

record market =
  listings :: "uint256 \<Rightarrow> Listing"
  userListings :: "address \<Rightarrow> uint256 list"
  userTrades :: "address \<Rightarrow> Trade list"
  nextListingId :: uint256
  platformFee :: uint256
  totalVolume :: uint256
  totalTrades :: uint256
  owner :: address
  m_entered :: bool

text \<open>
  The marketplace sends external value with the low-level \<open>call{value: v}("")\<close>. Each such
  call is logged with the storage of both contracts as the recipient finds it at that
  moment: this is what a recipient that is a contract can observe, and act on, before the
  calling function continues.
\<close>

record ext_call =
  ec_to :: address
  ec_value :: nat
  ec_market :: market
  ec_token :: token

text \<open>
  The world: the two contracts, the external-value balance of every account, the address
  of the marketplace (\<open>address(this)\<close> in its code), the accounts that accept a plain
  value transfer (an account without code always does; a contract only if it has a payable
  receive function that does not revert), and the log of external calls. Value balances
  are natural numbers: the whole supply of the currency is far below \<open>2 ^ 256\<close>, so no
  balance overflows. Recipients are taken not to call back into the contracts.
\<close>

record world =
  tok :: token
  mkt :: market
  eth :: "address \<Rightarrow> nat"
  self :: address
  acceptsValue :: "address \<Rightarrow> bool"
  calls :: "ext_call list"

definition eth_move :: "address \<Rightarrow> address \<Rightarrow> nat \<Rightarrow> (address \<Rightarrow> nat) \<Rightarrow> (address \<Rightarrow> nat)" where
  "eth_move frm to n e = (let e1 = e(frm := e frm - n) in e1(to := e1 to + n))"

text \<open>A payable entry point receives \<open>msg.value\<close> from the caller before its code runs.\<close>

definition receive_value :: "address \<Rightarrow> uint256 \<Rightarrow> world \<Rightarrow> error + world" where
  "receive_value sender val w =
     (if eth w sender < unat val then Inl InsufficientFunds
      else Inr (w\<lparr>eth := eth_move sender (self w) (unat val) (eth w)\<rparr>))"

text \<open>
  \<open>call{value: n}("")\<close> from the marketplace: the success flag and the world after it. The
  recipient is one that returns at once, with or without accepting the value: its code, if
  it has any, makes no call into the two contracts while it holds control. Every statement
  below about \<open>buyCredits\<close> and \<open>withdrawFees\<close> is about such recipients.
\<close>

definition call_value :: "address \<Rightarrow> nat \<Rightarrow> world \<Rightarrow> bool \<times> world" where
  "call_value to n w =
     (if acceptsValue w to \<and> n \<le> eth w (self w)
      then (True, w\<lparr> eth := eth_move (self w) to n (eth w),
                      calls := calls w @ [\<lparr> ec_to = to, ec_value = n,
                                             ec_market = mkt w, ec_token = tok w \<rparr>] \<rparr>)
      else (False, w))"

text \<open>The modifier \<open>nonReentrant\<close>: take the lock before the body, release it after.\<close>

definition nonReentrantBefore :: "world \<Rightarrow> error + world" where
  "nonReentrantBefore w =
     (if m_entered (mkt w) then Inl ReentrancyGuardReentrantCall
      else Inr (w\<lparr>mkt := (mkt w)\<lparr>m_entered := True\<rparr>\<rparr>))"

definition nonReentrantAfter :: "world \<Rightarrow> world" where
  "nonReentrantAfter w = w\<lparr>mkt := (mkt w)\<lparr>m_entered := False\<rparr>\<rparr>"

text \<open>The modifier \<open>onlyOwner\<close> of Ownable.\<close>

definition onlyOwner :: "address \<Rightarrow> world \<Rightarrow> error + unit" where
  "onlyOwner sender w =
     (if owner (mkt w) \<noteq> sender then Inl (OwnableUnauthorizedAccount sender) else Inr ())"

text \<open>
  The constructor: the deployer owns the marketplace, the fee is 25 basis points, all
  other storage is zero. The token contract is the one deployed by \<open>tokenDeployer\<close>.
\<close>

definition world_init ::
  "address \<Rightarrow> address \<Rightarrow> address \<Rightarrow> (address \<Rightarrow> bool) \<Rightarrow> (address \<Rightarrow> nat) \<Rightarrow> world" where
  "world_init tokenDeployer marketDeployer marketAddress accepts funds =
     \<lparr> tok = token_init tokenDeployer,
       mkt = \<lparr> listings = (\<lambda>_. \<lparr> l_seller = 0, l_amount = 0, l_pricePerCredit = 0,
                                  l_isActive = False, l_createdAt = 0, l_creditId = 0,
                                  l_projectName = [] \<rparr>),
               userListings = (\<lambda>_. []),
               userTrades = (\<lambda>_. []),
               nextListingId = 0,
               platformFee = 25,
               totalVolume = 0,
               totalTrades = 0,
               owner = marketDeployer,
               m_entered = False \<rparr>,
       eth = funds,
       self = marketAddress,
       acceptsValue = accepts,
       calls = [] \<rparr>"

subsection \<open>createListing\<close>

text \<open>
  The marketplace is the \<open>msg.sender\<close> of the token's \<open>transferFrom\<close>, which moves the
  credits from the seller into its own balance. The token's functions return true or
  revert, so the requirement on their result never fails by itself.
\<close>

definition createListing ::
  "address \<Rightarrow> uint256 \<Rightarrow> uint256 \<Rightarrow> uint256 \<Rightarrow> string \<Rightarrow> uint256 \<Rightarrow> world \<Rightarrow> error + (world \<times> uint256)" where
  "createListing sender amount pricePerCredit creditId projectName now w =
     bnd (nonReentrantBefore w) (\<lambda>w1.
     if \<not> 0 < amount then Inl (Revert ''Amount must be greater than 0'')
     else if \<not> 0 < pricePerCredit then Inl (Revert ''Price must be greater than 0'')
     else if \<not> amount \<le> balances (tok w1) sender then Inl (Revert ''Insufficient token balance'')
     else
       bnd (transferFrom (self w1) sender (self w1) amount (tok w1)) (\<lambda>t'.
       let listingId = nextListingId (mkt w1) in
       bnd (add256 (nextListingId (mkt w1)) 1) (\<lambda>nid.
       Inr (nonReentrantAfter
              (w1\<lparr> tok := t',
                   mkt := (mkt w1)
                     \<lparr> nextListingId := nid,
                       listings := (listings (mkt w1))(listingId :=
                         \<lparr> l_seller = sender, l_amount = amount, l_pricePerCredit = pricePerCredit,
                           l_isActive = True, l_createdAt = now, l_creditId = creditId,
                           l_projectName = projectName \<rparr>),
                       userListings := (userListings (mkt w1))(sender :=
                         userListings (mkt w1) sender @ [listingId]) \<rparr> \<rparr>),
            listingId))))"

subsection \<open>buyCredits\<close>

text \<open>
  The price computation of lines 138 to 140: the total price, the fee and the seller's
  amount, each with Solidity's checked arithmetic and truncating division.
\<close>

definition buy_price :: "uint256 \<Rightarrow> uint256 \<Rightarrow> uint256 \<Rightarrow> error + (uint256 \<times> uint256 \<times> uint256)" where
  "buy_price amount pricePerCredit feeRate =
     bnd (mul256 amount pricePerCredit) (\<lambda>p.
     let totalPrice = p div 10 ^ 18 in
     bnd (mul256 totalPrice feeRate) (\<lambda>q.
     let fee = q div 10000 in
     bnd (sub256 totalPrice fee) (\<lambda>sellerAmount.
     Inr (totalPrice, fee, sellerAmount))))"

text \<open>"Update listing": the remaining amount goes down; at zero the listing is closed.\<close>

definition buy_updateListing :: "uint256 \<Rightarrow> uint256 \<Rightarrow> world \<Rightarrow> error + world" where
  "buy_updateListing listingId amount w =
     bnd (sub256 (l_amount (listings (mkt w) listingId)) amount) (\<lambda>newAmount.
     let listing = (listings (mkt w) listingId)\<lparr>l_amount := newAmount\<rparr>;
         listing' = (if l_amount listing = 0 then listing\<lparr>l_isActive := False\<rparr> else listing)
     in Inr (w\<lparr>mkt := (mkt w)\<lparr>listings := (listings (mkt w))(listingId := listing')\<rparr>\<rparr>))"

text \<open>"Transfer tokens to buyer": the token's \<open>transfer\<close>, called by the marketplace.\<close>

definition buy_transferTokens :: "address \<Rightarrow> uint256 \<Rightarrow> world \<Rightarrow> error + world" where
  "buy_transferTokens sender amount w =
     bnd (transfer (self w) sender amount (tok w)) (\<lambda>t'. Inr (w\<lparr>tok := t'\<rparr>))"

text \<open>"Transfer payment to seller".\<close>

definition buy_paySeller :: "uint256 \<Rightarrow> uint256 \<Rightarrow> world \<Rightarrow> error + world" where
  "buy_paySeller listingId sellerAmount w =
     (case call_value (l_seller (listings (mkt w) listingId)) (unat sellerAmount) w of
        (successSeller, w') \<Rightarrow>
          if \<not> successSeller then Inl (Revert ''Seller payment failed'') else Inr w')"

text \<open>"Refund excess payment".\<close>

definition buy_refund :: "address \<Rightarrow> uint256 \<Rightarrow> uint256 \<Rightarrow> world \<Rightarrow> error + world" where
  "buy_refund sender val totalPrice w =
     (if totalPrice < val
      then (case call_value sender (unat (val - totalPrice)) w of
              (successRefund, w') \<Rightarrow>
                if \<not> successRefund then Inl (Revert ''Refund failed'') else Inr w')
      else Inr w)"

text \<open>"Record trade" and the two counters.\<close>

definition buy_recordTrade :: "address \<Rightarrow> uint256 \<Rightarrow> uint256 \<Rightarrow> uint256 \<Rightarrow> uint256 \<Rightarrow> world \<Rightarrow> error + world" where
  "buy_recordTrade sender listingId amount totalPrice now w =
     (let m = mkt w;
          seller = l_seller (listings m listingId);
          trade = \<lparr> tr_listingId = listingId, tr_buyer = sender, tr_seller = seller,
                    tr_amount = amount, tr_totalPrice = totalPrice, tr_timestamp = now \<rparr>;
          ut1 = (userTrades m)(sender := userTrades m sender @ [trade]);
          ut2 = ut1(seller := ut1 seller @ [trade])
      in
      bnd (add256 (totalVolume m) totalPrice) (\<lambda>tv.
      bnd (add256 (totalTrades m) 1) (\<lambda>tt.
      Inr (w\<lparr>mkt := m\<lparr>userTrades := ut2, totalVolume := tv, totalTrades := tt\<rparr>\<rparr>))))"

text \<open>
  \<open>buyCredits\<close>, with \<open>val\<close> for \<open>msg.value\<close>: the value arrives, the lock is taken, the four
  requirements and the price computation run, the payment is checked, and the effects
  follow in the order of the source.
\<close>

definition buyCredits :: "address \<Rightarrow> uint256 \<Rightarrow> uint256 \<Rightarrow> uint256 \<Rightarrow> uint256 \<Rightarrow> world \<Rightarrow> error + world" where
  "buyCredits sender val listingId amount now w =
     bnd (receive_value sender val w) (\<lambda>w0.
     bnd (nonReentrantBefore w0) (\<lambda>w1.
     let listing = listings (mkt w1) listingId in
     if \<not> l_isActive listing then Inl (Revert ''Listing not active'')
     else if \<not> 0 < amount then Inl (Revert ''Amount must be greater than 0'')
     else if \<not> amount \<le> l_amount listing then Inl (Revert ''Insufficient credits available'')
     else if \<not> sender \<noteq> l_seller listing then Inl (Revert ''Cannot buy own listing'')
     else
       bnd (buy_price amount (l_pricePerCredit listing) (platformFee (mkt w1)))
         (\<lambda>(totalPrice, fee, sellerAmount).
       if \<not> totalPrice \<le> val then Inl (Revert ''Insufficient payment'')
       else
         bnd (buy_updateListing listingId amount w1) (\<lambda>w2.
         bnd (buy_transferTokens sender amount w2) (\<lambda>w3.
         bnd (buy_paySeller listingId sellerAmount w3) (\<lambda>w4.
         bnd (buy_refund sender val totalPrice w4) (\<lambda>w5.
         bnd (buy_recordTrade sender listingId amount totalPrice now w5) (\<lambda>w6.
         Inr (nonReentrantAfter w6)))))))))"

subsection \<open>cancelListing, updateListingPrice, updatePlatformFee, withdrawFees\<close>

definition cancelListing :: "address \<Rightarrow> uint256 \<Rightarrow> world \<Rightarrow> error + world" where
  "cancelListing sender listingId w =
     bnd (nonReentrantBefore w) (\<lambda>w1.
     let listing = listings (mkt w1) listingId in
     if \<not> l_seller listing = sender then Inl (Revert ''Not listing owner'')
     else if \<not> l_isActive listing then Inl (Revert ''Listing not active'')
     else
       let remainingAmount = l_amount listing;
           w2 = w1\<lparr>mkt := (mkt w1)\<lparr>listings := (listings (mkt w1))(listingId :=
                  listing\<lparr>l_isActive := False, l_amount := 0\<rparr>)\<rparr>\<rparr>
       in
       bnd (transfer (self w2) sender remainingAmount (tok w2)) (\<lambda>t'.
       Inr (nonReentrantAfter (w2\<lparr>tok := t'\<rparr>))))"

definition updateListingPrice :: "address \<Rightarrow> uint256 \<Rightarrow> uint256 \<Rightarrow> world \<Rightarrow> error + world" where
  "updateListingPrice sender listingId newPrice w =
     (let listing = listings (mkt w) listingId in
      if \<not> l_seller listing = sender then Inl (Revert ''Not listing owner'')
      else if \<not> l_isActive listing then Inl (Revert ''Listing not active'')
      else if \<not> 0 < newPrice then Inl (Revert ''Price must be greater than 0'')
      else Inr (w\<lparr>mkt := (mkt w)\<lparr>listings := (listings (mkt w))(listingId :=
                    listing\<lparr>l_pricePerCredit := newPrice\<rparr>)\<rparr>\<rparr>))"

definition updatePlatformFee :: "address \<Rightarrow> uint256 \<Rightarrow> world \<Rightarrow> error + world" where
  "updatePlatformFee sender newFee w =
     bnd (onlyOwner sender w) (\<lambda>_.
     if \<not> newFee \<le> 500 then Inl (Revert ''Fee too high (max 5%)'')
     else Inr (w\<lparr>mkt := (mkt w)\<lparr>platformFee := newFee\<rparr>\<rparr>))"

definition withdrawFees :: "address \<Rightarrow> world \<Rightarrow> error + world" where
  "withdrawFees sender w =
     bnd (onlyOwner sender w) (\<lambda>_.
     let balance = eth w (self w) in
     if \<not> 0 < balance then Inl (Revert ''No fees to withdraw'')
     else
       (case call_value (owner (mkt w)) balance w of
          (success, w') \<Rightarrow> if \<not> success then Inl (Revert ''Withdrawal failed'') else Inr w'))"

text \<open>
  Modelled from the spec: Ownable (an OpenZeppelin import, not among the sources) lets the
  owner hand the contract over or give it up; the spec's \<open>withdrawFees\<close> and
  \<open>updatePlatformFee\<close> are restricted to that one principal.
\<close>

definition transferOwnership :: "address \<Rightarrow> address \<Rightarrow> world \<Rightarrow> error + world" where
  "transferOwnership sender newOwner w =
     bnd (onlyOwner sender w) (\<lambda>_.
     if newOwner = 0 then Inl (OwnableInvalidOwner 0)
     else Inr (w\<lparr>mkt := (mkt w)\<lparr>owner := newOwner\<rparr>\<rparr>))"

definition renounceOwnership :: "address \<Rightarrow> world \<Rightarrow> error + world" where
  "renounceOwnership sender w =
     bnd (onlyOwner sender w) (\<lambda>_. Inr (w\<lparr>mkt := (mkt w)\<lparr>owner := 0\<rparr>\<rparr>))"

subsection \<open>Transactions on the world\<close>

datatype world_op =
    Token token_op
  | CreateListing address uint256 uint256 uint256 string uint256
  | BuyCredits address uint256 uint256 uint256 uint256
  | CancelListing address uint256
  | UpdateListingPrice address uint256 uint256
  | UpdatePlatformFee address uint256
  | WithdrawFees address
  | TransferOwnership address address
  | RenounceOwnership address

fun token_sender :: "token_op \<Rightarrow> address" where
  "token_sender (MintCredits sender _ _ _ _ _ _ _) = sender"
| "token_sender (RetireCredits sender _ _ _) = sender"
| "token_sender (Transfer sender _ _) = sender"
| "token_sender (TransferFrom sender _ _ _) = sender"
| "token_sender (Approve sender _ _) = sender"
| "token_sender (Burn sender _) = sender"
| "token_sender (BurnFrom sender _ _) = sender"
| "token_sender (GrantRole sender _ _) = sender"
| "token_sender (RevokeRole sender _ _) = sender"
| "token_sender (RenounceRole sender _ _) = sender"

fun op_sender :: "world_op \<Rightarrow> address" where
  "op_sender (Token opn) = token_sender opn"
| "op_sender (CreateListing sender _ _ _ _ _) = sender"
| "op_sender (BuyCredits sender _ _ _ _) = sender"
| "op_sender (CancelListing sender _) = sender"
| "op_sender (UpdateListingPrice sender _ _) = sender"
| "op_sender (UpdatePlatformFee sender _) = sender"
| "op_sender (WithdrawFees sender) = sender"
| "op_sender (TransferOwnership sender _) = sender"
| "op_sender (RenounceOwnership sender) = sender"

fun world_exec :: "world_op \<Rightarrow> world \<Rightarrow> error + world" where
  "world_exec (Token opn) w = bnd (token_exec opn (tok w)) (\<lambda>t'. Inr (w\<lparr>tok := t'\<rparr>))"
| "world_exec (CreateListing sender amount price creditId pn now) w =
     bnd (createListing sender amount price creditId pn now w) (\<lambda>(w', _). Inr w')"
| "world_exec (BuyCredits sender val listingId amount now) w = buyCredits sender val listingId amount now w"
| "world_exec (CancelListing sender listingId) w = cancelListing sender listingId w"
| "world_exec (UpdateListingPrice sender listingId newPrice) w = updateListingPrice sender listingId newPrice w"
| "world_exec (UpdatePlatformFee sender newFee) w = updatePlatformFee sender newFee w"
| "world_exec (WithdrawFees sender) w = withdrawFees sender w"
| "world_exec (TransferOwnership sender newOwner) w = transferOwnership sender newOwner w"
| "world_exec (RenounceOwnership sender) w = renounceOwnership sender w"

definition world_step :: "world \<Rightarrow> world_op \<Rightarrow> world" where
  "world_step w opn = (case world_exec opn w of Inl _ \<Rightarrow> w | Inr w' \<Rightarrow> w')"

fun world_run :: "world \<Rightarrow> world_op list \<Rightarrow> world" where
  "world_run w [] = w"
| "world_run w (opn # ops) = world_run (world_step w opn) ops"

text \<open>
  A transaction is signed by an account: never by the null address, and never by the
  marketplace, whose code makes no call to itself or to the token other than those above.
\<close>

definition is_account :: "address \<Rightarrow> address \<Rightarrow> bool" where
  "is_account marketAddress a = (a \<noteq> 0 \<and> a \<noteq> marketAddress)"

definition signed_ops :: "address \<Rightarrow> world_op list \<Rightarrow> bool" where
  "signed_ops marketAddress ops = list_all (\<lambda>opn. is_account marketAddress (op_sender opn)) ops"

subsection \<open>Invariants of the world\<close>

text \<open>
  The credits a listing holds in escrow, and the escrow of all listings. \<open>winv\<close> is the
  invariant of the reachable worlds: the ledger's invariant; the lock is free between
  transactions; the fee is at most 500 basis points; the marketplace has approved no
  spender; its token balance covers the escrow; no listing at or beyond \<open>nextListingId\<close> is
  active; the seller of an active listing is an account; the null address holds no credits.
\<close>

definition held :: "Listing \<Rightarrow> nat" where
  "held l = (if l_isActive l then unat (l_amount l) else 0)"

definition escrow :: "market \<Rightarrow> nat" where
  "escrow m = (\<Sum>i\<in>UNIV. held (listings m i))"

definition winv :: "world \<Rightarrow> bool" where
  "winv w =
     (tinv (tok w) \<and> \<not> m_entered (mkt w) \<and> platformFee (mkt w) \<le> 500 \<and>
      (\<forall>x. allowances (tok w) (self w) x = 0) \<and>
      escrow (mkt w) \<le> unat (balances (tok w) (self w)) \<and>
      (\<forall>i. nextListingId (mkt w) \<le> i \<longrightarrow> \<not> l_isActive (listings (mkt w) i)) \<and>
      (\<forall>i. l_isActive (listings (mkt w) i) \<longrightarrow> is_account (self w) (l_seller (listings (mkt w) i))) \<and>
      balances (tok w) 0 = 0)"

section \<open>Concrete scenarios\<close>

text \<open>
  Account 1 deploys the token, account 2 receives credits. In \<open>ledger_ops\<close> it passes 30 on
  to account 3 and retires 50 against credit 0.
\<close>

definition ledger_ops :: "token_op list" where
  "ledger_ops =
     [MintCredits 1 2 100 ''Wind Farm'' ''Renewable Energy'' ''Texas'' 0 5,
      Transfer 2 3 30,
      RetireCredits 2 50 0 6]"

text \<open>In \<open>retired_ops\<close> account 2 retires its whole balance against credit 0.\<close>

definition retired_ops :: "token_op list" where
  "retired_ops =
     [MintCredits 1 2 10 ''Wind Farm'' ''Renewable Energy'' ''Texas'' 0 5,
      RetireCredits 2 10 0 6]"

text \<open>
  Account 1 deploys the registry and is its verifier; account 2 registers as an issuer,
  registers project 0, and both are verified.
\<close>

definition registry_ops :: "registry_op list" where
  "registry_ops =
     [RegisterIssuer 2 ''Green Co'' 5,
      RegisterProject 2 ''Wind Farm'' ''Renewable Energy'' ''Texas'' ''ipfs://m'' 6,
      VerifyIssuer 1 2,
      VerifyProject 1 0]"

text \<open>
  A sale. Account 1 deploys both contracts and owns the marketplace, whose address is 9;
  account 1 is a contract that accepts no plain value transfer. Account 2 is minted two
  credits (of \<open>10 ^ 18\<close> units each), approves the marketplace and lists both at 10000 per
  credit. Account 3, which holds 50000 in value, then buys one credit and pays 10000.
\<close>

definition market_world :: world where
  "market_world = world_init 1 1 9 (\<lambda>a. a \<noteq> 1) (\<lambda>a. if a = 3 then 50000 else 0)"

definition listing_ops :: "world_op list" where
  "listing_ops =
     [Token (MintCredits 1 2 (2 * 10 ^ 18) ''Wind Farm'' ''Renewable Energy'' ''Texas'' 0 5),
      Token (Approve 2 9 (2 * 10 ^ 18)),
      CreateListing 2 (2 * 10 ^ 18) 10000 0 ''Wind Farm'' 7]"

definition market_listed :: world where
  "market_listed = world_run market_world listing_ops"

definition market_sold :: world where
  "market_sold = world_step market_listed (BuyCredits 3 10000 0 (10 ^ 18) 8)"

text \<open>The same sale on a marketplace that account 4, an ordinary account, deploys.\<close>

definition market_sold_4 :: world where
  "market_sold_4 =
     world_step (world_run (world_init 1 4 9 (\<lambda>a. True) (\<lambda>a. if a = 3 then 50000 else 0)) listing_ops)
       (BuyCredits 3 10000 0 (10 ^ 18) 8)"

text \<open>Account 3 buys one and a half credits instead and sends 20000.\<close>

definition market_sold_partial :: world where
  "market_sold_partial = world_step market_listed (BuyCredits 3 20000 0 (15 * 10 ^ 17) 8)"

text \<open>Account 3 buys both credits, which closes the listing.\<close>

definition market_sold_out :: world where
  "market_sold_out = world_step market_listed (BuyCredits 3 20000 0 (2 * 10 ^ 18) 8)"

text \<open>The transactions that lead to the sale of one credit, as one sequence.\<close>

definition sale_ops :: "world_op list" where
  "sale_ops = listing_ops @ [BuyCredits 3 10000 0 (10 ^ 18) 8]"

text \<open>
  A listing whose amount times its price does not fit in 256 bits: account 2 is minted
  \<open>2 ^ 200\<close> units and lists them all at \<open>2 ^ 100\<close> per credit.
\<close>

definition overflow_ops :: "world_op list" where
  "overflow_ops =
     [Token (MintCredits 1 2 (2 ^ 200) ''Wind Farm'' ''Renewable Energy'' ''Texas'' 0 5),
      Token (Approve 2 9 (2 ^ 200)),
      CreateListing 2 (2 ^ 200) (2 ^ 100) 0 ''Wind Farm'' 7]"

text \<open>A listing of dust: 1000 units at 10000 per credit, so that the price of all is 0.\<close>

definition dust_ops :: "world_op list" where
  "dust_ops =
     [Token (MintCredits 1 2 1000 ''Wind Farm'' ''Renewable Energy'' ''Texas'' 0 5),
      Token (Approve 2 9 1000),
      CreateListing 2 1000 10000 0 ''Wind Farm'' 7]"

section \<open>Proofs: arithmetic and sums\<close>

lemma bnd_Inl [simp]: "bnd (Inl e) f = Inl e"
  by (simp add: bnd_def)

lemma bnd_Inr [simp]: "bnd (Inr x) f = f x"
  by (simp add: bnd_def)

lemma bnd_eq_Inr: "bnd m f = Inr y \<longleftrightarrow> (\<exists>x. m = Inr x \<and> f x = Inr y)"
  by (cases m) simp_all

lemma add256_Inr: "add256 a b = Inr c \<longleftrightarrow> unat a + unat b < 2 ^ 256 \<and> c = a + b"
  by (auto simp: add256_def)

lemma add256_unat: "add256 a b = Inr c \<Longrightarrow> unat c = unat a + unat b"
  by (auto simp: add256_def unat_add_lem [THEN iffD1] split: if_splits)

lemma sub256_unat: "sub256 a b = Inr c \<Longrightarrow> unat c + unat b = unat a"
  by (auto simp: sub256_def unat_sub word_le_nat_alt split: if_splits)

lemma mul256_unat: "mul256 a b = Inr c \<Longrightarrow> unat c = unat a * unat b"
  by (auto simp: mul256_def unat_mult_lem [THEN iffD1] split: if_splits)

lemma sum_unat_upd:
  fixes b :: "'a::finite \<Rightarrow> 'b::len word"
  shows "(\<Sum>a\<in>UNIV. unat ((b(x := v)) a)) + unat (b x) = (\<Sum>a\<in>UNIV. unat (b a)) + unat v"
proof -
  have "(\<Sum>a\<in>UNIV. unat ((b(x := v)) a)) = unat v + (\<Sum>a\<in>UNIV - {x}. unat ((b(x := v)) a))"
    by (simp add: sum.remove [of UNIV x])
  moreover have "(\<Sum>a\<in>UNIV - {x}. unat ((b(x := v)) a)) = (\<Sum>a\<in>UNIV - {x}. unat (b a))"
    by (rule sum.cong) auto
  moreover have "(\<Sum>a\<in>UNIV. unat (b a)) = unat (b x) + (\<Sum>a\<in>UNIV - {x}. unat (b a))"
    by (simp add: sum.remove [of UNIV x])
  ultimately show ?thesis by simp
qed

lemma unat_le_sum:
  fixes b :: "'a::finite \<Rightarrow> 'b::len word"
  shows "unat (b x) \<le> (\<Sum>a\<in>UNIV. unat (b a))"
  by (rule member_le_sum) simp_all

lemma unat_le_sum2:
  fixes b :: "'a::finite \<Rightarrow> 'b::len word"
  assumes "x \<noteq> y"
  shows "unat (b x) + unat (b y) \<le> (\<Sum>a\<in>UNIV. unat (b a))"
proof -
  have "(\<Sum>a\<in>UNIV. unat (b a)) = unat (b x) + (\<Sum>a\<in>UNIV - {x}. unat (b a))"
    by (simp add: sum.remove [of UNIV x])
  moreover have "unat (b y) \<le> (\<Sum>a\<in>UNIV - {x}. unat (b a))"
    using assms by (intro member_le_sum) simp_all
  ultimately show ?thesis by simp
qed

text \<open>
  What the base token's \<open>_update\<close> does to balances and supply when the balances add up
  to the supply: the unchecked additions and subtractions do not wrap.
\<close>

lemma erc20_update_other:
  "erc20_update frm to val s = Inr s' \<Longrightarrow> a \<noteq> frm \<Longrightarrow> a \<noteq> to \<Longrightarrow> balances s' a = balances s a"
  by (auto simp: erc20_update_def bnd_eq_Inr split: if_splits)

lemma erc20_update_mint:
  assumes "erc20_update 0 to val s = Inr s'" "to \<noteq> 0" "supply_ok s"
  shows "unat (totalSupply s') = unat (totalSupply s) + unat val"
    and "unat (balances s' to) = unat (balances s to) + unat val"
    and "sum_balances s' = sum_balances s + unat val"
proof -
  from assms(1,2) obtain ts where ts: "add256 (totalSupply s) val = Inr ts"
    and s': "s' = s\<lparr>totalSupply := ts, balances := (balances s)(to := balances s to + val)\<rparr>"
    by (auto simp: erc20_update_def bnd_eq_Inr)
  from ts have u: "unat ts = unat (totalSupply s) + unat val" by (rule add256_unat)
  from ts have lt: "unat (totalSupply s) + unat val < 2 ^ 256" by (simp add: add256_Inr)
  have "unat (balances s to) \<le> unat (totalSupply s)"
    using assms(3) unat_le_sum [of "balances s" to] by (simp add: supply_ok_def sum_balances_def)
  with lt have "unat (balances s to) + unat val < 2 ^ LENGTH(256)" by simp
  then have b: "unat (balances s to + val) = unat (balances s to) + unat val"
    by (simp only: unat_add_lem)
  show "unat (totalSupply s') = unat (totalSupply s) + unat val" using u s' by simp
  show "unat (balances s' to) = unat (balances s to) + unat val" using b s' by simp
  show "sum_balances s' = sum_balances s + unat val"
    using sum_unat_upd [of "balances s" to "balances s to + val"] b s'
    by (simp add: sum_balances_def)
qed

lemma erc20_update_burn:
  assumes "erc20_update frm 0 val s = Inr s'" "frm \<noteq> 0" "supply_ok s"
  shows "unat (totalSupply s') + unat val = unat (totalSupply s)"
    and "unat (balances s' frm) + unat val = unat (balances s frm)"
    and "sum_balances s' + unat val = sum_balances s"
proof -
  from assms(1,2) have le: "val \<le> balances s frm"
    and s': "s' = s\<lparr>balances := (balances s)(frm := balances s frm - val),
                      totalSupply := totalSupply s - val\<rparr>"
    by (auto simp: erc20_update_def bnd_eq_Inr split: if_splits)
  from le have b: "unat (balances s frm - val) + unat val = unat (balances s frm)"
    by (simp add: unat_sub word_le_nat_alt)
  have "unat (balances s frm) \<le> unat (totalSupply s)"
    using assms(3) unat_le_sum [of "balances s" frm] by (simp add: supply_ok_def sum_balances_def)
  with le have "val \<le> totalSupply s" by (simp add: word_le_nat_alt)
  then have t: "unat (totalSupply s - val) + unat val = unat (totalSupply s)"
    by (simp add: unat_sub word_le_nat_alt)
  show "unat (totalSupply s') + unat val = unat (totalSupply s)" using t s' by simp
  show "unat (balances s' frm) + unat val = unat (balances s frm)" using b s' by simp
  show "sum_balances s' + unat val = sum_balances s"
    using sum_unat_upd [of "balances s" frm "balances s frm - val"] b s'
    by (simp add: sum_balances_def)
qed

lemma erc20_update_self:
  assumes "erc20_update a a val s = Inr s'" "a \<noteq> 0"
  shows "s' = s"
  using assms by (auto simp: erc20_update_def bnd_eq_Inr split: if_splits)

lemma erc20_update_move:
  assumes "erc20_update frm to val s = Inr s'" "frm \<noteq> 0" "to \<noteq> 0" "frm \<noteq> to" "supply_ok s"
  shows "totalSupply s' = totalSupply s"
    and "unat (balances s' frm) + unat val = unat (balances s frm)"
    and "unat (balances s' to) = unat (balances s to) + unat val"
    and "sum_balances s' = sum_balances s"
proof -
  from assms(1-4) have le: "val \<le> balances s frm"
    and s': "s' = s\<lparr>balances := (balances s)(frm := balances s frm - val, to := balances s to + val)\<rparr>"
    by (auto simp: erc20_update_def bnd_eq_Inr split: if_splits)
  from le have b: "unat (balances s frm - val) + unat val = unat (balances s frm)"
    by (simp add: unat_sub word_le_nat_alt)
  have "unat (balances s frm) + unat (balances s to) \<le> unat (totalSupply s)"
    using assms(4,5) unat_le_sum2 [of frm to "balances s"] by (simp add: supply_ok_def sum_balances_def)
  moreover have "unat (totalSupply s) < 2 ^ LENGTH(256)" by (rule unsigned_less)
  ultimately have "unat (balances s to) + unat val < 2 ^ LENGTH(256)" using b by linarith
  then have c: "unat (balances s to + val) = unat (balances s to) + unat val"
    by (simp only: unat_add_lem)
  show "totalSupply s' = totalSupply s" using s' by simp
  show "unat (balances s' frm) + unat val = unat (balances s frm)" using b s' assms(4) by simp
  show "unat (balances s' to) = unat (balances s to) + unat val" using c s' by simp
  have "(\<Sum>a\<in>UNIV. unat (((balances s)(frm := balances s frm - val)) a)) + unat val
          = (\<Sum>a\<in>UNIV. unat (balances s a))"
    using sum_unat_upd [of "balances s" frm "balances s frm - val"] b by simp
  moreover have "(\<Sum>a\<in>UNIV. unat (((balances s)(frm := balances s frm - val, to := balances s to + val)) a))
           + unat (balances s to)
          = (\<Sum>a\<in>UNIV. unat (((balances s)(frm := balances s frm - val)) a)) + unat (balances s to + val)"
    using sum_unat_upd [of "(balances s)(frm := balances s frm - val)" to "balances s to + val"] assms(4)
    by simp
  ultimately show "sum_balances s' = sum_balances s"
    using c s' by (simp add: sum_balances_def)
qed

lemma erc20_update_null:
  assumes "erc20_update 0 0 val s = Inr s'"
  shows "s' = s"
  using assms by (auto simp: erc20_update_def bnd_eq_Inr add256_Inr split: if_splits)

lemma erc20_update_fields:
  assumes "erc20_update frm to val s = Inr s'"
  shows "allowances s' = allowances s" "roles s' = roles s" "t_entered s' = t_entered s"
    "creditMetadata s' = creditMetadata s" "userRetiredCredits s' = userRetiredCredits s"
    "projectCredits s' = projectCredits s" "nextCreditId s' = nextCreditId s"
    "totalRetired s' = totalRetired s"
proof -
  define r where "r = (if frm = 0
          then bnd (add256 (totalSupply s) val) (\<lambda>ts. Inr (s\<lparr>totalSupply := ts\<rparr>))
          else if balances s frm < val then Inl (ERC20InsufficientBalance frm)
          else Inr (s\<lparr>balances := (balances s)(frm := balances s frm - val)\<rparr>))"
  from assms obtain s1 where a: "r = Inr s1"
    and s': "s' = (if to = 0 then s1\<lparr>totalSupply := totalSupply s1 - val\<rparr>
                  else s1\<lparr>balances := (balances s1)(to := balances s1 to + val)\<rparr>)"
    unfolding erc20_update_def r_def [symmetric] by (auto simp: bnd_eq_Inr)
  from a have "(\<exists>ts. s1 = s\<lparr>totalSupply := ts\<rparr>) \<or>
               s1 = s\<lparr>balances := (balances s)(frm := balances s frm - val)\<rparr>"
    unfolding r_def by (auto simp: bnd_eq_Inr split: if_splits)
  then have "allowances s1 = allowances s" "roles s1 = roles s" "t_entered s1 = t_entered s"
    "creditMetadata s1 = creditMetadata s" "userRetiredCredits s1 = userRetiredCredits s"
    "projectCredits s1 = projectCredits s" "nextCreditId s1 = nextCreditId s"
    "totalRetired s1 = totalRetired s"
    by auto
  with s' show "allowances s' = allowances s" "roles s' = roles s" "t_entered s' = t_entered s"
    "creditMetadata s' = creditMetadata s" "userRetiredCredits s' = userRetiredCredits s"
    "projectCredits s' = projectCredits s" "nextCreditId s' = nextCreditId s"
    "totalRetired s' = totalRetired s"
    by (simp_all split: if_splits)
qed

lemma sum_balances_cong: "balances s' = balances s \<Longrightarrow> sum_balances s' = sum_balances s"
  by (simp add: sum_balances_def)

lemma supply_ok_cong:
  "balances s' = balances s \<Longrightarrow> totalSupply s' = totalSupply s \<Longrightarrow> supply_ok s' = supply_ok s"
  by (simp add: supply_ok_def sum_balances_def)

lemma erc20_update_supply_ok:
  assumes "erc20_update frm to val s = Inr s'" "supply_ok s"
  shows "supply_ok s'"
proof (cases "frm = 0")
  case True
  show ?thesis
  proof (cases "to = 0")
    case True
    with \<open>frm = 0\<close> assms show ?thesis using erc20_update_null by auto
  next
    case False
    with \<open>frm = 0\<close> assms erc20_update_mint [of to val s s'] show ?thesis
      by (simp add: supply_ok_def)
  qed
next
  case False
  show ?thesis
  proof (cases "to = 0")
    case True
    with \<open>frm \<noteq> 0\<close> assms erc20_update_burn [of frm val s s'] show ?thesis
      by (simp add: supply_ok_def)
  next
    case False
    show ?thesis
    proof (cases "frm = to")
      case True
      with \<open>frm \<noteq> 0\<close> assms erc20_update_self [of frm val s s'] show ?thesis by simp
    next
      case False
      with \<open>frm \<noteq> 0\<close> \<open>to \<noteq> 0\<close> assms erc20_update_move [of frm to val s s'] show ?thesis
        by (simp add: supply_ok_def)
    qed
  qed
qed

lemma erc20_transfer_sum:
  assumes "erc20_transfer frm to val s = Inr s'" "supply_ok s"
  shows "sum_balances s' = sum_balances s"
proof -
  from assms(1) have nz: "frm \<noteq> 0" "to \<noteq> 0" and u: "erc20_update frm to val s = Inr s'"
    by (auto simp: erc20_transfer_def split: if_splits)
  show ?thesis
  proof (cases "frm = to")
    case True
    with nz u erc20_update_self [of frm val s s'] show ?thesis by simp
  next
    case False
    from erc20_update_move(4) [OF u nz False assms(2)] show ?thesis .
  qed
qed

lemma erc20_approve_fields:
  assumes "erc20_approve ownr spender val s = Inr s'"
  shows "balances s' = balances s" "totalSupply s' = totalSupply s"
    "roles s' = roles s" "t_entered s' = t_entered s"
    "creditMetadata s' = creditMetadata s" "userRetiredCredits s' = userRetiredCredits s"
    "projectCredits s' = projectCredits s" "nextCreditId s' = nextCreditId s"
    "totalRetired s' = totalRetired s"
proof -
  from assms have "s' = s\<lparr>allowances := (allowances s)(ownr := (allowances s ownr)(spender := val))\<rparr>"
    by (simp add: erc20_approve_def split: if_splits)
  then show "balances s' = balances s" "totalSupply s' = totalSupply s"
    "roles s' = roles s" "t_entered s' = t_entered s"
    "creditMetadata s' = creditMetadata s" "userRetiredCredits s' = userRetiredCredits s"
    "projectCredits s' = projectCredits s" "nextCreditId s' = nextCreditId s"
    "totalRetired s' = totalRetired s"
    by simp_all
qed

lemma erc20_spendAllowance_fields:
  assumes "erc20_spendAllowance ownr spender val s = Inr s'"
  shows "balances s' = balances s" "totalSupply s' = totalSupply s"
    "roles s' = roles s" "t_entered s' = t_entered s"
    "creditMetadata s' = creditMetadata s" "userRetiredCredits s' = userRetiredCredits s"
    "projectCredits s' = projectCredits s" "nextCreditId s' = nextCreditId s"
    "totalRetired s' = totalRetired s"
proof -
  from assms have "s' = s \<or> erc20_approve ownr spender (allowances s ownr spender - val) s = Inr s'"
    by (simp add: erc20_spendAllowance_def Let_def split: if_splits)
  then show "balances s' = balances s" "totalSupply s' = totalSupply s"
    "roles s' = roles s" "t_entered s' = t_entered s"
    "creditMetadata s' = creditMetadata s" "userRetiredCredits s' = userRetiredCredits s"
    "projectCredits s' = projectCredits s" "nextCreditId s' = nextCreditId s"
    "totalRetired s' = totalRetired s"
    using erc20_approve_fields [of ownr spender "allowances s ownr spender - val" s s'] by blast+
qed

lemma tinv_cong:
  "balances s' = balances s \<Longrightarrow> totalSupply s' = totalSupply s \<Longrightarrow> t_entered s' = t_entered s \<Longrightarrow>
   nextCreditId s' = nextCreditId s \<Longrightarrow> creditMetadata s' = creditMetadata s \<Longrightarrow> tinv s' = tinv s"
  by (simp add: tinv_def supply_ok_def sum_balances_def)

lemma conserved_cong:
  "balances s' = balances s \<Longrightarrow> totalRetired s' = totalRetired s \<Longrightarrow> conserved s' = conserved s"
  by (simp add: conserved_def sum_balances_def)

lemma erc20_transfer_tinv:
  assumes "erc20_transfer frm to val s = Inr s'" "tinv s"
  shows "tinv s'" and "conserved s' = conserved s"
proof -
  from assms(1) have u: "erc20_update frm to val s = Inr s'"
    by (auto simp: erc20_transfer_def split: if_splits)
  from assms(2) have ok: "supply_ok s" by (simp add: tinv_def)
  show "tinv s'"
    using assms(2) erc20_update_supply_ok [OF u ok] erc20_update_fields [OF u]
    by (simp add: tinv_def)
  show "conserved s' = conserved s"
    using erc20_transfer_sum [OF assms(1) ok] erc20_update_fields [OF u]
    by (simp add: conserved_def)
qed

lemma erc20_spendAllowance_tinv:
  assumes "erc20_spendAllowance ownr spender val s = Inr s'"
  shows "tinv s' = tinv s" and "conserved s' = conserved s"
proof -
  show "tinv s' = tinv s"
    using erc20_spendAllowance_fields [OF assms] by (intro tinv_cong)
  show "conserved s' = conserved s"
    using erc20_spendAllowance_fields [OF assms] by (intro conserved_cong)
qed

lemma erc20_burn_tinv:
  assumes "erc20_burn account val s = Inr s'" "tinv s"
  shows "tinv s'" and "conserved s' + unat val = conserved s"
proof -
  from assms(1) have nz: "account \<noteq> 0" and u: "erc20_update account 0 val s = Inr s'"
    by (auto simp: erc20_burn_def split: if_splits)
  from assms(2) have ok: "supply_ok s" by (simp add: tinv_def)
  show "tinv s'"
    using assms(2) erc20_update_supply_ok [OF u ok] erc20_update_fields [OF u]
    by (simp add: tinv_def)
  show "conserved s' + unat val = conserved s"
    using erc20_update_burn(3) [OF u nz ok] erc20_update_fields [OF u]
    by (simp add: conserved_def)
qed

text \<open>The ledger's invariant and the conservation law, transaction by transaction.\<close>

lemma mintCredits_Inr:
  assumes "mintCredits sender to amount pn pt loc vintage now s = Inr (s', cid)"
  obtains nid pc s1 where
    "roles s MINTER_ROLE sender" "\<not> t_entered s" "0 < amount" "pn \<noteq> []" "vintage \<le> now"
    "cid = nextCreditId s"
    "add256 (nextCreditId s) 1 = Inr nid"
    "add256 (projectCredits s pn) amount = Inr pc"
    "to \<noteq> 0"
    "erc20_update 0 to amount
        (s\<lparr> t_entered := True,
            nextCreditId := nid,
            creditMetadata := (creditMetadata s)(nextCreditId s :=
              \<lparr> cm_projectName = pn, cm_projectType = pt,
                cm_location = loc, cm_vintage = vintage, cm_timestamp = now,
                cm_isRetired = False, cm_retiredBy = 0, cm_retiredAt = 0 \<rparr>),
            projectCredits := (projectCredits s)(pn := pc) \<rparr>) = Inr s1"
    "s' = s1\<lparr>t_entered := False\<rparr>"
proof -
  from assms have g: "roles s MINTER_ROLE sender" "\<not> t_entered s" "0 < amount" "pn \<noteq> []" "vintage \<le> now"
    by (auto simp: mintCredits_def split: if_splits)
  with assms show thesis
    by (auto simp: mintCredits_def Let_def bnd_eq_Inr erc20_mint_def split: if_splits intro: that)
qed

lemma mintCredits_tinv:
  assumes "mintCredits sender to amount pn pt loc vintage now s = Inr (s', cid)" "tinv s"
  shows "tinv s'" and "conserved s' = conserved s + unat amount"
    and "cm_isRetired (creditMetadata s i) \<Longrightarrow> cm_isRetired (creditMetadata s' i)"
proof -
  from assms(1) obtain nid pc s1 where
    nid: "add256 (nextCreditId s) 1 = Inr nid" and to: "to \<noteq> 0"
    and u: "erc20_update 0 to amount
        (s\<lparr> t_entered := True,
            nextCreditId := nid,
            creditMetadata := (creditMetadata s)(nextCreditId s :=
              \<lparr> cm_projectName = pn, cm_projectType = pt,
                cm_location = loc, cm_vintage = vintage, cm_timestamp = now,
                cm_isRetired = False, cm_retiredBy = 0, cm_retiredAt = 0 \<rparr>),
            projectCredits := (projectCredits s)(pn := pc) \<rparr>) = Inr s1"
    and s': "s' = s1\<lparr>t_entered := False\<rparr>"
    by (rule mintCredits_Inr)
  let ?sx = "s\<lparr> t_entered := True,
            nextCreditId := nid,
            creditMetadata := (creditMetadata s)(nextCreditId s :=
              \<lparr> cm_projectName = pn, cm_projectType = pt,
                cm_location = loc, cm_vintage = vintage, cm_timestamp = now,
                cm_isRetired = False, cm_retiredBy = 0, cm_retiredAt = 0 \<rparr>),
            projectCredits := (projectCredits s)(pn := pc) \<rparr>"
  from assms(2) have ok: "supply_ok ?sx" by (simp add: tinv_def supply_ok_def sum_balances_def)
  note f = erc20_update_fields [OF u]
  have sum: "sum_balances s1 = sum_balances s + unat amount"
    using erc20_update_mint(3) [OF u to ok] by (simp add: sum_balances_def)
  have ok1: "supply_ok s1" by (rule erc20_update_supply_ok [OF u ok])
  from nid have "unat nid = unat (nextCreditId s) + unat (1::uint256)" by (rule add256_unat)
  then have lt: "nextCreditId s < nid" by (simp add: word_less_nat_alt)
  have fresh: "\<not> cm_isRetired (creditMetadata s' j)" if "nid \<le> j" for j
  proof -
    from that lt have "nextCreditId s < j" by simp
    then have "j \<noteq> nextCreditId s" "nextCreditId s \<le> j" by simp_all
    with assms(2) show ?thesis using f s' by (simp add: tinv_def)
  qed
  show "tinv s'"
    using ok1 fresh f s' by (simp add: tinv_def supply_ok_def sum_balances_def)
  show "conserved s' = conserved s + unat amount"
    using sum f s' by (simp add: conserved_def sum_balances_def)
  show "cm_isRetired (creditMetadata s' i)" if "cm_isRetired (creditMetadata s i)"
  proof -
    from that assms(2) have "\<not> nextCreditId s \<le> i" by (auto simp: tinv_def)
    then have "i \<noteq> nextCreditId s" by auto
    with that show ?thesis using f s' by simp
  qed
qed

lemma retireCredits_Inr:
  assumes "retireCredits sender amount creditId now s = Inr s'"
  obtains tr s1 where
    "\<not> t_entered s" "amount \<le> balances s sender" "creditId < nextCreditId s"
    "\<not> cm_isRetired (creditMetadata s creditId)"
    "add256 (totalRetired s) amount = Inr tr"
    "sender \<noteq> 0"
    "erc20_update sender 0 amount
        (s\<lparr> t_entered := True,
            creditMetadata := (creditMetadata s)(creditId :=
              (creditMetadata s creditId)\<lparr> cm_isRetired := True, cm_retiredBy := sender,
                                           cm_retiredAt := now \<rparr>),
            userRetiredCredits :=
              (userRetiredCredits s)(sender := userRetiredCredits s sender @ [creditId]),
            totalRetired := tr \<rparr>) = Inr s1"
    "s' = s1\<lparr>t_entered := False\<rparr>"
proof -
  from assms have g: "\<not> t_entered s" "amount \<le> balances s sender" "creditId < nextCreditId s"
    "\<not> cm_isRetired (creditMetadata s creditId)"
    by (auto simp: retireCredits_def split: if_splits)
  with assms show thesis
    by (auto simp: retireCredits_def bnd_eq_Inr erc20_burn_def split: if_splits intro: that)
qed

lemma retireCredits_tinv:
  assumes "retireCredits sender amount creditId now s = Inr s'" "tinv s"
  shows "tinv s'" and "conserved s' = conserved s"
    and "cm_isRetired (creditMetadata s i) \<Longrightarrow> cm_isRetired (creditMetadata s' i)"
proof -
  from assms(1) obtain tr s1 where
    cid: "creditId < nextCreditId s" and tr: "add256 (totalRetired s) amount = Inr tr"
    and nz: "sender \<noteq> 0"
    and u: "erc20_update sender 0 amount
        (s\<lparr> t_entered := True,
            creditMetadata := (creditMetadata s)(creditId :=
              (creditMetadata s creditId)\<lparr> cm_isRetired := True, cm_retiredBy := sender,
                                           cm_retiredAt := now \<rparr>),
            userRetiredCredits :=
              (userRetiredCredits s)(sender := userRetiredCredits s sender @ [creditId]),
            totalRetired := tr \<rparr>) = Inr s1"
    and s': "s' = s1\<lparr>t_entered := False\<rparr>"
    by (rule retireCredits_Inr)
  let ?sx = "s\<lparr> t_entered := True,
            creditMetadata := (creditMetadata s)(creditId :=
              (creditMetadata s creditId)\<lparr> cm_isRetired := True, cm_retiredBy := sender,
                                           cm_retiredAt := now \<rparr>),
            userRetiredCredits :=
              (userRetiredCredits s)(sender := userRetiredCredits s sender @ [creditId]),
            totalRetired := tr \<rparr>"
  from assms(2) have ok: "supply_ok ?sx" by (simp add: tinv_def supply_ok_def sum_balances_def)
  note f = erc20_update_fields [OF u]
  have sum: "sum_balances s1 + unat amount = sum_balances s"
    using erc20_update_burn(3) [OF u nz ok] by (simp add: sum_balances_def)
  have ok1: "supply_ok s1" by (rule erc20_update_supply_ok [OF u ok])
  have fresh: "\<not> cm_isRetired (creditMetadata s' j)" if "nextCreditId s \<le> j" for j
  proof -
    from that cid have "j \<noteq> creditId" by auto
    with assms(2) that show ?thesis using f s' by (simp add: tinv_def)
  qed
  show "tinv s'"
    using ok1 fresh f s' by (simp add: tinv_def supply_ok_def sum_balances_def)
  show "conserved s' = conserved s"
    using sum add256_unat [OF tr] f s' by (simp add: conserved_def sum_balances_def)
  show "cm_isRetired (creditMetadata s' i)" if "cm_isRetired (creditMetadata s i)"
    using that f s' by simp
qed

lemma tinv_roles [simp]: "tinv (s\<lparr>roles := rs\<rparr>) = tinv s"
  by (simp add: tinv_def supply_ok_def sum_balances_def)

lemma conserved_roles [simp]: "conserved (s\<lparr>roles := rs\<rparr>) = conserved s"
  by (simp add: conserved_def sum_balances_def)

lemma token_exec_tinv:
  assumes "token_exec opn s = Inr s'" "tinv s"
  shows "tinv s'"
proof (cases opn)
  case (MintCredits sender to amount pn pt loc vintage now)
  with assms(1) obtain cid where "mintCredits sender to amount pn pt loc vintage now s = Inr (s', cid)"
    by (auto simp: bnd_eq_Inr)
  then show ?thesis using assms(2) by (rule mintCredits_tinv(1))
next
  case (RetireCredits sender amount creditId now)
  with assms show ?thesis by (auto intro: retireCredits_tinv(1))
next
  case (Transfer sender to val)
  with assms show ?thesis by (auto simp: transfer_def intro: erc20_transfer_tinv(1))
next
  case (TransferFrom sender frm to val)
  with assms(1) obtain s1 where a: "erc20_spendAllowance frm sender val s = Inr s1"
    and b: "erc20_transfer frm to val s1 = Inr s'"
    by (auto simp: transferFrom_def bnd_eq_Inr)
  from a assms(2) have "tinv s1" by (simp add: erc20_spendAllowance_tinv(1))
  with b show ?thesis by (rule erc20_transfer_tinv(1))
next
  case (Approve sender spender val)
  with assms(1) have a: "erc20_approve sender spender val s = Inr s'" by (simp add: approve_def)
  have "tinv s' = tinv s" using erc20_approve_fields [OF a] by (intro tinv_cong)
  with assms(2) show ?thesis by simp
next
  case (Burn sender val)
  with assms show ?thesis by (auto simp: burn_def intro: erc20_burn_tinv(1))
next
  case (BurnFrom sender account val)
  with assms(1) obtain s1 where a: "erc20_spendAllowance account sender val s = Inr s1"
    and b: "erc20_burn account val s1 = Inr s'"
    by (auto simp: burnFrom_def bnd_eq_Inr)
  from a assms(2) have "tinv s1" by (simp add: erc20_spendAllowance_tinv(1))
  with b show ?thesis by (rule erc20_burn_tinv(1))
next
  case (GrantRole sender r account)
  with assms show ?thesis by (auto simp: bnd_eq_Inr)
next
  case (RevokeRole sender r account)
  with assms show ?thesis by (auto simp: bnd_eq_Inr)
next
  case (RenounceRole sender r account)
  with assms show ?thesis by (auto simp: bnd_eq_Inr)
qed

lemma token_exec_conserved:
  assumes "token_exec opn s = Inr s'" "tinv s" "\<not> is_burn opn"
  shows "conserved s' = conserved s + minted_by s opn"
proof (cases opn)
  case (MintCredits sender to amount pn pt loc vintage now)
  with assms(1) obtain cid where m: "mintCredits sender to amount pn pt loc vintage now s = Inr (s', cid)"
    by (auto simp: bnd_eq_Inr)
  from mintCredits_tinv(2) [OF m assms(2)] m MintCredits show ?thesis by simp
next
  case (RetireCredits sender amount creditId now)
  with assms show ?thesis by (auto dest: retireCredits_tinv(2))
next
  case (Transfer sender to val)
  with assms show ?thesis by (auto simp: transfer_def dest: erc20_transfer_tinv(2))
next
  case (TransferFrom sender frm to val)
  with assms(1) obtain s1 where a: "erc20_spendAllowance frm sender val s = Inr s1"
    and b: "erc20_transfer frm to val s1 = Inr s'"
    by (auto simp: transferFrom_def bnd_eq_Inr)
  from a assms(2) have "tinv s1" "conserved s1 = conserved s"
    by (simp_all add: erc20_spendAllowance_tinv)
  with erc20_transfer_tinv(2) [OF b] TransferFrom show ?thesis by simp
next
  case (Approve sender spender val)
  with assms(1) have a: "erc20_approve sender spender val s = Inr s'" by (simp add: approve_def)
  have "conserved s' = conserved s" using erc20_approve_fields [OF a] by (intro conserved_cong)
  with Approve show ?thesis by simp
next
  case (Burn sender val)
  with assms(3) show ?thesis by simp
next
  case (BurnFrom sender account val)
  with assms(3) show ?thesis by simp
next
  case (GrantRole sender r account)
  with assms show ?thesis by (auto simp: bnd_eq_Inr)
next
  case (RevokeRole sender r account)
  with assms show ?thesis by (auto simp: bnd_eq_Inr)
next
  case (RenounceRole sender r account)
  with assms show ?thesis by (auto simp: bnd_eq_Inr)
qed

lemma token_exec_retired:
  assumes "token_exec opn s = Inr s'" "tinv s" "cm_isRetired (creditMetadata s i)"
  shows "cm_isRetired (creditMetadata s' i)"
proof (cases opn)
  case (MintCredits sender to amount pn pt loc vintage now)
  with assms(1) obtain cid where m: "mintCredits sender to amount pn pt loc vintage now s = Inr (s', cid)"
    by (auto simp: bnd_eq_Inr)
  from mintCredits_tinv(3) [OF m assms(2,3)] show ?thesis .
next
  case (RetireCredits sender amount creditId now)
  with assms(1) have r: "retireCredits sender amount creditId now s = Inr s'" by simp
  from retireCredits_tinv(3) [OF r assms(2,3)] show ?thesis .
next
  case (Transfer sender to val)
  with assms(1) have "erc20_update sender to val s = Inr s'"
    by (simp add: transfer_def erc20_transfer_def split: if_splits)
  from erc20_update_fields(4) [OF this] assms(3) show ?thesis by simp
next
  case (TransferFrom sender frm to val)
  with assms(1) obtain s1 where a: "erc20_spendAllowance frm sender val s = Inr s1"
    and b: "erc20_update frm to val s1 = Inr s'"
    by (auto simp: transferFrom_def erc20_transfer_def bnd_eq_Inr split: if_splits)
  from erc20_update_fields(4) [OF b] erc20_spendAllowance_fields(5) [OF a] assms(3)
  show ?thesis by simp
next
  case (Approve sender spender val)
  with assms(1) have a: "erc20_approve sender spender val s = Inr s'" by (simp add: approve_def)
  from erc20_approve_fields(5) [OF a] assms(3) show ?thesis by simp
next
  case (Burn sender val)
  with assms(1) have "erc20_update sender 0 val s = Inr s'"
    by (simp add: burn_def erc20_burn_def split: if_splits)
  from erc20_update_fields(4) [OF this] assms(3) show ?thesis by simp
next
  case (BurnFrom sender account val)
  with assms(1) obtain s1 where a: "erc20_spendAllowance account sender val s = Inr s1"
    and b: "erc20_update account 0 val s1 = Inr s'"
    by (auto simp: burnFrom_def erc20_burn_def bnd_eq_Inr split: if_splits)
  from erc20_update_fields(4) [OF b] erc20_spendAllowance_fields(5) [OF a] assms(3)
  show ?thesis by simp
next
  case (GrantRole sender r account)
  with assms show ?thesis by (auto simp: bnd_eq_Inr)
next
  case (RevokeRole sender r account)
  with assms show ?thesis by (auto simp: bnd_eq_Inr)
next
  case (RenounceRole sender r account)
  with assms show ?thesis by (auto simp: bnd_eq_Inr)
qed

lemma token_step_tinv: "tinv s \<Longrightarrow> tinv (token_step s opn)"
  by (auto simp: token_step_def split: sum.splits intro: token_exec_tinv)

lemma token_step_retired:
  "tinv s \<Longrightarrow> cm_isRetired (creditMetadata s i) \<Longrightarrow> cm_isRetired (creditMetadata (token_step s opn) i)"
  by (auto simp: token_step_def split: sum.splits intro: token_exec_retired)

lemma minted_by_failed: "token_exec opn s = Inl e \<Longrightarrow> minted_by s opn = 0"
  by (cases opn) (auto simp: bnd_def split: sum.splits)

lemma token_step_conserved:
  assumes "tinv s" "\<not> is_burn opn"
  shows "conserved (token_step s opn) = conserved s + minted_by s opn"
proof (cases "token_exec opn s")
  case (Inl e)
  then show ?thesis by (simp add: token_step_def minted_by_failed)
next
  case (Inr s')
  with token_exec_conserved [OF Inr assms] show ?thesis by (simp add: token_step_def)
qed

lemma token_run_tinv: "tinv s \<Longrightarrow> tinv (token_run s ops)"
  by (induction ops arbitrary: s) (simp_all add: token_step_tinv)

lemma token_run_retired:
  "tinv s \<Longrightarrow> cm_isRetired (creditMetadata s i) \<Longrightarrow> cm_isRetired (creditMetadata (token_run s ops) i)"
  by (induction ops arbitrary: s) (simp_all add: token_step_tinv token_step_retired)

lemma token_run_conserved:
  "tinv s \<Longrightarrow> list_all (\<lambda>opn. \<not> is_burn opn) ops \<Longrightarrow>
     conserved (token_run s ops) = conserved s + total_minted s ops"
  by (induction ops arbitrary: s) (simp_all add: token_step_tinv token_step_conserved)

lemma tinv_init: "tinv (token_init deployer)"
  by (simp add: tinv_def supply_ok_def sum_balances_def token_init_def)

lemma conserved_init: "conserved (token_init deployer) = 0"
  by (simp add: conserved_def sum_balances_def token_init_def)

lemmas token_eval = token_step_def token_init_def mintCredits_def retireCredits_def
  transfer_def transferFrom_def approve_def burn_def burnFrom_def
  erc20_update_def erc20_transfer_def erc20_mint_def erc20_burn_def erc20_approve_def
  erc20_spendAllowance_def add256_def sub256_def mul256_def Let_def

section \<open>The ledger's conservation law and retirement\<close>

text \<open>
  C1. In every state reached from the constructor's state by any sequence of
  \<open>mintCredits\<close>, \<open>retireCredits\<close>, \<open>transfer\<close>, \<open>transferFrom\<close>, \<open>approve\<close> and role
  transactions, by any senders, the balances of all principals plus \<open>totalRetired\<close> equal
  the sum of the amounts of the \<open>mintCredits\<close> calls that succeeded. Failed transactions
  leave the state as it was. The senders are arbitrary, so the transfers that the
  marketplace requests for escrow are covered.
\<close>

theorem ledger_conservation:
  "list_all (\<lambda>opn. \<not> is_burn opn) ops \<Longrightarrow>
     sum_balances (token_run (token_init deployer) ops)
       + unat (totalRetired (token_run (token_init deployer) ops))
     = total_minted (token_init deployer) ops"
  using token_run_conserved [OF tinv_init, of ops deployer]
  by (simp add: conserved_def conserved_init [unfolded conserved_def])

theorem ledger_conservation_witness:
  "list_all (\<lambda>opn. \<not> is_burn opn) ledger_ops \<and>
   total_minted (token_init 1) ledger_ops = 100 \<and>
   unat (totalRetired (token_run (token_init 1) ledger_ops)) = 50 \<and>
   sum_balances (token_run (token_init 1) ledger_ops) = 50"
proof -
  have a: "list_all (\<lambda>opn. \<not> is_burn opn) ledger_ops"
    by (simp add: ledger_ops_def)
  have b: "total_minted (token_init 1) ledger_ops = 100"
    by (simp add: ledger_ops_def token_eval)
  have c: "unat (totalRetired (token_run (token_init 1) ledger_ops)) = 50"
    by (simp add: ledger_ops_def token_eval)
  from ledger_conservation [OF a, of 1] a b c show ?thesis by simp
qed

text \<open>
  The inherited \<open>burn\<close> is outside that law: it lowers the balances and leaves
  \<open>totalRetired\<close> alone, so the sum drops by the amount burned.
\<close>

lemma burn_lowers_conserved:
  assumes "tinv s" "burn sender val s = Inr s'"
  shows "sum_balances s' + unat (totalRetired s') + unat val = sum_balances s + unat (totalRetired s)"
  using erc20_burn_tinv(2) [OF assms(2) [unfolded burn_def] assms(1)]
  by (simp add: conserved_def)

text \<open>
  C2, as the code has it. Once a credit id is retired in a reachable state, every
  \<open>retireCredits\<close> call on it fails and the state stays as it was: the failure is
  "Credits already retired" when the caller's balance covers the amount, and
  "Insufficient balance" otherwise, since that requirement is checked first. No sequence
  of transactions resets the flag, so an id goes from unretired to retired at most once.
\<close>

theorem retire_at_most_once:
  assumes "cm_isRetired (creditMetadata (token_run (token_init deployer) ops) creditId)"
  shows "retireCredits sender amount creditId now (token_run (token_init deployer) ops)
           = Inl (Revert (if amount \<le> balances (token_run (token_init deployer) ops) sender
                          then ''Credits already retired'' else ''Insufficient balance''))
         \<and> token_step (token_run (token_init deployer) ops) (RetireCredits sender amount creditId now)
           = token_run (token_init deployer) ops
         \<and> cm_isRetired (creditMetadata (token_run (token_run (token_init deployer) ops) ops') creditId)"
proof -
  let ?s = "token_run (token_init deployer) ops"
  have inv: "tinv ?s" by (rule token_run_tinv [OF tinv_init])
  from inv have free: "\<not> t_entered ?s" by (simp add: tinv_def)
  from inv assms have "\<not> nextCreditId ?s \<le> creditId" by (auto simp: tinv_def)
  then have valid: "creditId < nextCreditId ?s" by simp
  have r: "retireCredits sender amount creditId now ?s
           = Inl (Revert (if amount \<le> balances ?s sender
                          then ''Credits already retired'' else ''Insufficient balance''))"
    using free valid assms by (simp add: retireCredits_def)
  then have "token_step ?s (RetireCredits sender amount creditId now) = ?s"
    by (simp add: token_step_def)
  moreover have "cm_isRetired (creditMetadata (token_run ?s ops') creditId)"
    using inv assms by (rule token_run_retired)
  ultimately show ?thesis using r by simp
qed

theorem retire_at_most_once_witness:
  "cm_isRetired (creditMetadata (token_run (token_init 1) retired_ops) 0) \<and>
   retireCredits 2 0 0 7 (token_run (token_init 1) retired_ops)
     = Inl (Revert ''Credits already retired'') \<and>
   cm_isRetired (creditMetadata
     (token_run (token_run (token_init 1) retired_ops)
        [MintCredits 1 2 5 ''Solar'' ''Renewable Energy'' ''Spain'' 0 8]) 0)"
proof -
  have a: "cm_isRetired (creditMetadata (token_run (token_init 1) retired_ops) 0)"
    by (simp add: retired_ops_def token_eval)
  have b: "(0::uint256) \<le> balances (token_run (token_init 1) retired_ops) 2"
    by simp
  from retire_at_most_once [OF a, of 2 0 7 "[MintCredits 1 2 5 ''Solar'' ''Renewable Energy'' ''Spain'' 0 8]"]
    a b show ?thesis by simp
qed

text \<open>
  C2 as the spec words it fails where the caller's balance is below the amount: credit 0
  is retired, account 2 holds nothing, and its call to retire 1 against credit 0 fails
  with "Insufficient balance".
\<close>

theorem retire_retired_counterexample:
  "cm_isRetired (creditMetadata (token_run (token_init 1) retired_ops) 0) \<and>
   retireCredits 2 1 0 7 (token_run (token_init 1) retired_ops)
     = Inl (Revert ''Insufficient balance'') \<and>
   retireCredits 2 1 0 7 (token_run (token_init 1) retired_ops)
     \<noteq> Inl (Revert ''Credits already retired'')"
  by (simp add: retired_ops_def token_eval)

section \<open>The registry: verification is idempotent or rejected\<close>

lemma registerProject_Inr:
  assumes "registerProject sender name pt loc uri now s = Inr (s', pid)"
  obtains nid where "add256 (nextProjectId s) 1 = Inr nid" "nextProjectId s' = nid"
    "\<forall>i. i \<noteq> nextProjectId s \<longrightarrow> projects s' i = projects s i"
    "\<not> p_isVerified (projects s' (nextProjectId s))"
  using assms
  by (auto simp: registerProject_def Let_def bnd_eq_Inr split: if_splits)

lemma registry_exec_rinv:
  assumes "registry_exec opn s = Inr s'" "rinv s"
  shows "rinv s' \<and> (p_isVerified (projects s i) \<longrightarrow> p_isVerified (projects s' i))"
proof (cases opn)
  case (RegisterIssuer sender name now)
  with assms show ?thesis
    by (auto simp: registerIssuer_def rinv_def split: if_splits)
next
  case (VerifyIssuer sender issuerAddress)
  with assms show ?thesis
    by (auto simp: verifyIssuer_def rinv_def split: if_splits)
next
  case (RegisterProject sender name pt loc uri now)
  with assms(1) obtain pid where "registerProject sender name pt loc uri now s = Inr (s', pid)"
    by (auto simp: bnd_eq_Inr)
  then obtain nid where nid: "add256 (nextProjectId s) 1 = Inr nid" "nextProjectId s' = nid"
    and other: "\<forall>i. i \<noteq> nextProjectId s \<longrightarrow> projects s' i = projects s i"
    and "\<not> p_isVerified (projects s' (nextProjectId s))"
    by (rule registerProject_Inr)
  from nid(1) have "unat nid = unat (nextProjectId s) + unat (1::uint256)" by (rule add256_unat)
  then have lt: "nextProjectId s < nid" by (simp add: word_less_nat_alt)
  have "\<not> p_isVerified (projects s' j)" if "nid \<le> j" for j
  proof -
    from that lt have "nextProjectId s < j" by simp
    then have "j \<noteq> nextProjectId s" "nextProjectId s \<le> j" by simp_all
    with assms(2) other show ?thesis by (simp add: rinv_def)
  qed
  moreover have "p_isVerified (projects s' i)" if "p_isVerified (projects s i)"
  proof -
    from that assms(2) have "\<not> nextProjectId s \<le> i" by (auto simp: rinv_def)
    then have "i \<noteq> nextProjectId s" by auto
    with that other show ?thesis by simp
  qed
  ultimately show ?thesis using nid(2) by (simp add: rinv_def)
next
  case (VerifyProject sender projectId)
  with assms show ?thesis
    by (auto simp: verifyProject_def rinv_def bnd_eq_Inr split: if_splits)
next
  case (RecordCreditsIssued sender projectId amount)
  with assms show ?thesis
    by (auto simp: recordCreditsIssued_def rinv_def bnd_eq_Inr split: if_splits)
next
  case (DeactivateProject sender projectId)
  with assms show ?thesis
    by (auto simp: deactivateProject_def rinv_def split: if_splits)
next
  case (RegistryGrantRole sender r account)
  with assms show ?thesis by (auto simp: bnd_eq_Inr rinv_def)
next
  case (RegistryRevokeRole sender r account)
  with assms show ?thesis by (auto simp: bnd_eq_Inr rinv_def)
next
  case (RegistryRenounceRole sender r account)
  with assms show ?thesis by (auto simp: bnd_eq_Inr rinv_def)
qed

lemma registry_step_rinv:
  assumes "rinv s"
  shows "rinv (registry_step s opn)"
    and "p_isVerified (projects s i) \<Longrightarrow> p_isVerified (projects (registry_step s opn) i)"
  using registry_exec_rinv [OF _ assms, of opn _ i]
  by (auto simp: registry_step_def assms split: sum.splits)

lemma registry_run_rinv:
  "rinv s \<Longrightarrow> rinv (registry_run s ops)"
  by (induction ops arbitrary: s) (simp_all add: registry_step_rinv)

lemma registry_run_verified:
  "rinv s \<Longrightarrow> p_isVerified (projects s i) \<Longrightarrow> p_isVerified (projects (registry_run s ops) i)"
  by (induction ops arbitrary: s) (simp_all add: registry_step_rinv)

lemma rinv_init: "rinv (registry_init deployer)"
  by (simp add: rinv_def registry_init_def)

lemmas registry_eval = registry_step_def registry_init_def registerIssuer_def verifyIssuer_def
  registerProject_def verifyProject_def recordCreditsIssued_def deactivateProject_def
  grantRole_def revokeRole_def renounceRole_def onlyRole_def add256_def Let_def

text \<open>
  C7. In every state reached from the constructor's state, for a caller that holds the
  verifier role: \<open>verifyProject\<close> on a project that is already verified fails with "Already
  verified", the transaction leaves the state, and so \<open>totalVerifiedProjects\<close>, as it was,
  and the project stays verified under every later sequence of transactions, so that no
  project is counted twice; \<open>verifyIssuer\<close> on a registered issuer that is already
  verified succeeds and returns the state it was given.
\<close>

theorem verify_project_rejected_verify_issuer_idempotent:
  assumes "r_roles (registry_run (registry_init deployer) ops) VERIFIER_ROLE sender"
  shows "(p_isVerified (projects (registry_run (registry_init deployer) ops) projectId) \<longrightarrow>
            verifyProject sender projectId (registry_run (registry_init deployer) ops)
              = Inl (Revert ''Already verified'')
          \<and> registry_step (registry_run (registry_init deployer) ops) (VerifyProject sender projectId)
              = registry_run (registry_init deployer) ops
          \<and> totalVerifiedProjects
               (registry_step (registry_run (registry_init deployer) ops) (VerifyProject sender projectId))
              = totalVerifiedProjects (registry_run (registry_init deployer) ops)
          \<and> p_isVerified (projects (registry_run (registry_run (registry_init deployer) ops) ops') projectId))
       \<and> (isRegisteredIssuer (registry_run (registry_init deployer) ops) issuerAddress
            \<and> i_isVerified (issuers (registry_run (registry_init deployer) ops) issuerAddress) \<longrightarrow>
            verifyIssuer sender issuerAddress (registry_run (registry_init deployer) ops)
              = Inr (registry_run (registry_init deployer) ops))"
proof -
  let ?s = "registry_run (registry_init deployer) ops"
  have inv: "rinv ?s" by (rule registry_run_rinv [OF rinv_init])
  have p: "verifyProject sender projectId ?s = Inl (Revert ''Already verified'')
           \<and> registry_step ?s (VerifyProject sender projectId) = ?s
           \<and> totalVerifiedProjects (registry_step ?s (VerifyProject sender projectId))
               = totalVerifiedProjects ?s
           \<and> p_isVerified (projects (registry_run ?s ops') projectId)"
    if v: "p_isVerified (projects ?s projectId)"
  proof -
    from inv v have "\<not> nextProjectId ?s \<le> projectId" by (auto simp: rinv_def)
    then have "projectId < nextProjectId ?s" by simp
    with assms v have r: "verifyProject sender projectId ?s = Inl (Revert ''Already verified'')"
      by (simp add: verifyProject_def)
    then have "registry_step ?s (VerifyProject sender projectId) = ?s"
      by (simp add: registry_step_def)
    moreover have "p_isVerified (projects (registry_run ?s ops') projectId)"
      using inv v by (rule registry_run_verified)
    ultimately show ?thesis using r by simp
  qed
  have i: "verifyIssuer sender issuerAddress ?s = Inr ?s"
    if "isRegisteredIssuer ?s issuerAddress" "i_isVerified (issuers ?s issuerAddress)"
  proof -
    from that(2) have "(issuers ?s issuerAddress)\<lparr>i_isVerified := True\<rparr> = issuers ?s issuerAddress"
      by simp
    then have "?s\<lparr>issuers := (issuers ?s)(issuerAddress :=
                 (issuers ?s issuerAddress)\<lparr>i_isVerified := True\<rparr>)\<rparr> = ?s"
      by simp
    with assms that(1) show ?thesis by (simp add: verifyIssuer_def)
  qed
  from p i show ?thesis by blast
qed

theorem verify_project_rejected_verify_issuer_idempotent_witness:
  "r_roles (registry_run (registry_init 1) registry_ops) VERIFIER_ROLE 1 \<and>
   p_isVerified (projects (registry_run (registry_init 1) registry_ops) 0) \<and>
   isRegisteredIssuer (registry_run (registry_init 1) registry_ops) 2 \<and>
   i_isVerified (issuers (registry_run (registry_init 1) registry_ops) 2) \<and>
   unat (totalVerifiedProjects (registry_run (registry_init 1) registry_ops)) = 1 \<and>
   verifyProject 1 0 (registry_run (registry_init 1) registry_ops) = Inl (Revert ''Already verified'') \<and>
   totalVerifiedProjects (registry_step (registry_run (registry_init 1) registry_ops) (VerifyProject 1 0))
     = totalVerifiedProjects (registry_run (registry_init 1) registry_ops) \<and>
   verifyIssuer 1 2 (registry_run (registry_init 1) registry_ops)
     = Inr (registry_run (registry_init 1) registry_ops)"
proof -
  have a: "r_roles (registry_run (registry_init 1) registry_ops) VERIFIER_ROLE 1"
    by (simp add: registry_ops_def registry_eval)
  have b: "p_isVerified (projects (registry_run (registry_init 1) registry_ops) 0)"
    by (simp add: registry_ops_def registry_eval)
  have c: "isRegisteredIssuer (registry_run (registry_init 1) registry_ops) 2"
    by (simp add: registry_ops_def registry_eval)
  have d: "i_isVerified (issuers (registry_run (registry_init 1) registry_ops) 2)"
    by (simp add: registry_ops_def registry_eval)
  have e: "unat (totalVerifiedProjects (registry_run (registry_init 1) registry_ops)) = 1"
    by (simp add: registry_ops_def registry_eval)
  from verify_project_rejected_verify_issuer_idempotent [OF a, of 0 "[]" 2] a b c d e
  show ?thesis by simp
qed

section \<open>Proofs: the phases of a purchase\<close>

text \<open>What each phase of a successful \<open>buyCredits\<close> reads and writes.\<close>

lemma receive_value_Inr:
  assumes "receive_value sender val w = Inr w0"
  shows "unat val \<le> eth w sender" "eth w0 = eth_move sender (self w) (unat val) (eth w)"
    "tok w0 = tok w" "mkt w0 = mkt w" "self w0 = self w" "acceptsValue w0 = acceptsValue w"
    "calls w0 = calls w"
  using assms by (auto simp: receive_value_def split: if_splits)

lemma nonReentrantBefore_Inr:
  assumes "nonReentrantBefore w = Inr w1"
  shows "\<not> m_entered (mkt w)" "mkt w1 = (mkt w)\<lparr>m_entered := True\<rparr>"
    "tok w1 = tok w" "eth w1 = eth w" "self w1 = self w" "acceptsValue w1 = acceptsValue w"
    "calls w1 = calls w"
  using assms by (auto simp: nonReentrantBefore_def split: if_splits)

lemma nonReentrantAfter_fields:
  "mkt (nonReentrantAfter w) = (mkt w)\<lparr>m_entered := False\<rparr>"
  "tok (nonReentrantAfter w) = tok w" "eth (nonReentrantAfter w) = eth w"
  "self (nonReentrantAfter w) = self w" "acceptsValue (nonReentrantAfter w) = acceptsValue w"
  "calls (nonReentrantAfter w) = calls w"
  by (simp_all add: nonReentrantAfter_def)

lemma buy_updateListing_Inr:
  assumes "buy_updateListing listingId amount w = Inr w2"
  shows "amount \<le> l_amount (listings (mkt w) listingId)"
    "mkt w2 = (mkt w)\<lparr>listings := (listings (mkt w))(listingId :=
        (listings (mkt w) listingId)
          \<lparr> l_amount := l_amount (listings (mkt w) listingId) - amount,
            l_isActive := (if l_amount (listings (mkt w) listingId) - amount = 0 then False
                           else l_isActive (listings (mkt w) listingId)) \<rparr>)\<rparr>"
    "tok w2 = tok w" "eth w2 = eth w" "self w2 = self w" "acceptsValue w2 = acceptsValue w"
    "calls w2 = calls w"
  using assms
  by (auto simp: buy_updateListing_def bnd_eq_Inr sub256_def Let_def split: if_splits)

lemma buy_transferTokens_Inr:
  assumes "buy_transferTokens sender amount w = Inr w3"
  shows "erc20_transfer (self w) sender amount (tok w) = Inr (tok w3)"
    "mkt w3 = mkt w" "eth w3 = eth w" "self w3 = self w" "acceptsValue w3 = acceptsValue w"
    "calls w3 = calls w"
  using assms by (auto simp: buy_transferTokens_def bnd_eq_Inr transfer_def)

lemma call_value_True:
  assumes "call_value to n w = (True, w')"
  shows "acceptsValue w to" "n \<le> eth w (self w)"
    "eth w' = eth_move (self w) to n (eth w)"
    "calls w' = calls w @ [\<lparr> ec_to = to, ec_value = n, ec_market = mkt w, ec_token = tok w \<rparr>]"
    "tok w' = tok w" "mkt w' = mkt w" "self w' = self w" "acceptsValue w' = acceptsValue w"
  using assms by (auto simp: call_value_def split: if_splits)

lemma buy_paySeller_Inr:
  assumes "buy_paySeller listingId sellerAmount w = Inr w4"
  shows "call_value (l_seller (listings (mkt w) listingId)) (unat sellerAmount) w = (True, w4)"
  using assms by (auto simp: buy_paySeller_def split: prod.splits if_splits)

lemma buy_refund_Inr:
  assumes "buy_refund sender val totalPrice w = Inr w5"
  shows "(totalPrice < val \<and> call_value sender (unat (val - totalPrice)) w = (True, w5))
         \<or> (\<not> totalPrice < val \<and> w5 = w)"
  using assms by (auto simp: buy_refund_def split: prod.splits if_splits)

lemma buy_recordTrade_Inr:
  assumes "buy_recordTrade sender listingId amount totalPrice now w = Inr w6"
  shows "unat (totalVolume (mkt w6)) = unat (totalVolume (mkt w)) + unat totalPrice"
    "unat (totalTrades (mkt w6)) = unat (totalTrades (mkt w)) + 1"
    "userTrades (mkt w6) =
       (let trade = \<lparr> tr_listingId = listingId, tr_buyer = sender,
                      tr_seller = l_seller (listings (mkt w) listingId),
                      tr_amount = amount, tr_totalPrice = totalPrice, tr_timestamp = now \<rparr>;
            ut1 = (userTrades (mkt w))(sender := userTrades (mkt w) sender @ [trade])
        in ut1(l_seller (listings (mkt w) listingId) :=
                 ut1 (l_seller (listings (mkt w) listingId)) @ [trade]))"
    "listings (mkt w6) = listings (mkt w)" "userListings (mkt w6) = userListings (mkt w)"
    "nextListingId (mkt w6) = nextListingId (mkt w)" "platformFee (mkt w6) = platformFee (mkt w)"
    "owner (mkt w6) = owner (mkt w)" "m_entered (mkt w6) = m_entered (mkt w)"
    "tok w6 = tok w" "eth w6 = eth w" "self w6 = self w" "acceptsValue w6 = acceptsValue w"
    "calls w6 = calls w"
proof -
  from assms obtain tv tt where tv: "add256 (totalVolume (mkt w)) totalPrice = Inr tv"
    and tt: "add256 (totalTrades (mkt w)) 1 = Inr tt"
    and w6: "w6 = w\<lparr>mkt := (mkt w)\<lparr>userTrades :=
       (let trade = \<lparr> tr_listingId = listingId, tr_buyer = sender,
                      tr_seller = l_seller (listings (mkt w) listingId),
                      tr_amount = amount, tr_totalPrice = totalPrice, tr_timestamp = now \<rparr>;
            ut1 = (userTrades (mkt w))(sender := userTrades (mkt w) sender @ [trade])
        in ut1(l_seller (listings (mkt w) listingId) :=
                 ut1 (l_seller (listings (mkt w) listingId)) @ [trade])),
       totalVolume := tv, totalTrades := tt\<rparr>\<rparr>"
    by (auto simp: buy_recordTrade_def bnd_eq_Inr Let_def)
  from add256_unat [OF tv] w6 show "unat (totalVolume (mkt w6)) = unat (totalVolume (mkt w)) + unat totalPrice"
    by simp
  from add256_unat [OF tt] w6 show "unat (totalTrades (mkt w6)) = unat (totalTrades (mkt w)) + 1"
    by simp
  from w6 show "userTrades (mkt w6) =
       (let trade = \<lparr> tr_listingId = listingId, tr_buyer = sender,
                      tr_seller = l_seller (listings (mkt w) listingId),
                      tr_amount = amount, tr_totalPrice = totalPrice, tr_timestamp = now \<rparr>;
            ut1 = (userTrades (mkt w))(sender := userTrades (mkt w) sender @ [trade])
        in ut1(l_seller (listings (mkt w) listingId) :=
                 ut1 (l_seller (listings (mkt w) listingId)) @ [trade]))"
    by simp
  from w6 show "listings (mkt w6) = listings (mkt w)" "userListings (mkt w6) = userListings (mkt w)"
    "nextListingId (mkt w6) = nextListingId (mkt w)" "platformFee (mkt w6) = platformFee (mkt w)"
    "owner (mkt w6) = owner (mkt w)" "m_entered (mkt w6) = m_entered (mkt w)"
    "tok w6 = tok w" "eth w6 = eth w" "self w6 = self w" "acceptsValue w6 = acceptsValue w"
    "calls w6 = calls w"
    by simp_all
qed

lemma buyCredits_Inr:
  assumes "buyCredits sender val listingId amount now w = Inr w'"
  obtains w0 w1 w2 w3 w4 w5 w6 totalPrice fee sellerAmount where
    "receive_value sender val w = Inr w0"
    "nonReentrantBefore w0 = Inr w1"
    "l_isActive (listings (mkt w) listingId)" "0 < amount"
    "amount \<le> l_amount (listings (mkt w) listingId)"
    "sender \<noteq> l_seller (listings (mkt w) listingId)"
    "buy_price amount (l_pricePerCredit (listings (mkt w) listingId)) (platformFee (mkt w))
       = Inr (totalPrice, fee, sellerAmount)"
    "totalPrice \<le> val"
    "buy_updateListing listingId amount w1 = Inr w2"
    "buy_transferTokens sender amount w2 = Inr w3"
    "buy_paySeller listingId sellerAmount w3 = Inr w4"
    "buy_refund sender val totalPrice w4 = Inr w5"
    "buy_recordTrade sender listingId amount totalPrice now w5 = Inr w6"
    "w' = nonReentrantAfter w6"
proof -
  from assms obtain w0 w1 where a: "receive_value sender val w = Inr w0"
    and b: "nonReentrantBefore w0 = Inr w1"
    and c: "(let listing = listings (mkt w1) listingId in
     if \<not> l_isActive listing then Inl (Revert ''Listing not active'')
     else if \<not> 0 < amount then Inl (Revert ''Amount must be greater than 0'')
     else if \<not> amount \<le> l_amount listing then Inl (Revert ''Insufficient credits available'')
     else if \<not> sender \<noteq> l_seller listing then Inl (Revert ''Cannot buy own listing'')
     else
       bnd (buy_price amount (l_pricePerCredit listing) (platformFee (mkt w1)))
         (\<lambda>(totalPrice, fee, sellerAmount).
       if \<not> totalPrice \<le> val then Inl (Revert ''Insufficient payment'')
       else
         bnd (buy_updateListing listingId amount w1) (\<lambda>w2.
         bnd (buy_transferTokens sender amount w2) (\<lambda>w3.
         bnd (buy_paySeller listingId sellerAmount w3) (\<lambda>w4.
         bnd (buy_refund sender val totalPrice w4) (\<lambda>w5.
         bnd (buy_recordTrade sender listingId amount totalPrice now w5) (\<lambda>w6.
         Inr (nonReentrantAfter w6)))))))) = Inr w'"
    unfolding buyCredits_def bnd_eq_Inr by blast
  have m: "listings (mkt w1) = listings (mkt w)" "platformFee (mkt w1) = platformFee (mkt w)"
    using receive_value_Inr(4) [OF a] nonReentrantBefore_Inr(2) [OF b] by simp_all
  from c have g: "l_isActive (listings (mkt w) listingId)" "0 < amount"
    "amount \<le> l_amount (listings (mkt w) listingId)"
    "sender \<noteq> l_seller (listings (mkt w) listingId)"
    unfolding Let_def m by (auto split: if_splits)
  with c obtain totalPrice fee sellerAmount where
    p: "buy_price amount (l_pricePerCredit (listings (mkt w) listingId)) (platformFee (mkt w))
       = Inr (totalPrice, fee, sellerAmount)"
    and d: "(if \<not> totalPrice \<le> val then Inl (Revert ''Insufficient payment'')
       else
         bnd (buy_updateListing listingId amount w1) (\<lambda>w2.
         bnd (buy_transferTokens sender amount w2) (\<lambda>w3.
         bnd (buy_paySeller listingId sellerAmount w3) (\<lambda>w4.
         bnd (buy_refund sender val totalPrice w4) (\<lambda>w5.
         bnd (buy_recordTrade sender listingId amount totalPrice now w5) (\<lambda>w6.
         Inr (nonReentrantAfter w6))))))) = Inr w'"
    unfolding Let_def m by (auto simp: bnd_eq_Inr)
  from d have le: "totalPrice \<le> val" by (auto split: if_splits)
  with d obtain w2 w3 w4 w5 w6 where
    "buy_updateListing listingId amount w1 = Inr w2"
    "buy_transferTokens sender amount w2 = Inr w3"
    "buy_paySeller listingId sellerAmount w3 = Inr w4"
    "buy_refund sender val totalPrice w4 = Inr w5"
    "buy_recordTrade sender listingId amount totalPrice now w5 = Inr w6"
    "w' = nonReentrantAfter w6"
    by (auto simp: bnd_eq_Inr)
  with a b g p le show thesis by (rule that)
qed

lemma buy_price_Inr:
  assumes "buy_price amount price feeRate = Inr (totalPrice, fee, sellerAmount)"
  shows "unat amount * unat price < 2 ^ 256"
    "unat totalPrice = unat amount * unat price div 10 ^ 18"
    "unat totalPrice * unat feeRate < 2 ^ 256"
    "unat fee = unat totalPrice * unat feeRate div 10000"
    "unat sellerAmount + unat fee = unat totalPrice"
proof -
  from assms obtain p q where p: "mul256 amount price = Inr p"
    and tp: "totalPrice = p div 10 ^ 18"
    and q: "mul256 totalPrice feeRate = Inr q"
    and fee: "fee = q div 10000"
    and sa: "sub256 totalPrice fee = Inr sellerAmount"
    by (auto simp: buy_price_def Let_def bnd_eq_Inr)
  from p show "unat amount * unat price < 2 ^ 256" by (simp add: mul256_def split: if_splits)
  from q show "unat totalPrice * unat feeRate < 2 ^ 256" by (simp add: mul256_def split: if_splits)
  have "unat (10 ^ 18 :: uint256) = 10 ^ 18" by simp
  with mul256_unat [OF p] tp show "unat totalPrice = unat amount * unat price div 10 ^ 18"
    by (simp only: unat_div)
  have "unat (10000 :: uint256) = 10000" by simp
  with mul256_unat [OF q] fee show "unat fee = unat totalPrice * unat feeRate div 10000"
    by (simp only: unat_div)
  from sub256_unat [OF sa] show "unat sellerAmount + unat fee = unat totalPrice" .
qed

lemma eth_move_apply:
  "eth_move frm to n e a =
     (if a = to then (if to = frm then e frm - n + n else e to + n)
      else if a = frm then e frm - n else e a)"
  by (simp add: eth_move_def Let_def)

lemma buyCredits_value_flow:
  assumes "buyCredits sender val listingId amount now w = Inr w'"
    and "sender \<noteq> self w"
    and "l_seller (listings (mkt w) listingId) \<noteq> self w"
  shows "\<exists>totalPrice fee sellerAmount.
           buy_price amount (l_pricePerCredit (listings (mkt w) listingId)) (platformFee (mkt w))
             = Inr (totalPrice, fee, sellerAmount) \<and>
           unat totalPrice = unat amount * unat (l_pricePerCredit (listings (mkt w) listingId)) div 10 ^ 18 \<and>
           unat fee = unat totalPrice * unat (platformFee (mkt w)) div 10000 \<and>
           unat fee + unat sellerAmount = unat totalPrice \<and>
           10000 * unat sellerAmount + unat totalPrice * unat (platformFee (mkt w))
             = 10000 * unat totalPrice + unat totalPrice * unat (platformFee (mkt w)) mod 10000 \<and>
           eth w' (l_seller (listings (mkt w) listingId))
             = eth w (l_seller (listings (mkt w) listingId)) + unat sellerAmount \<and>
           eth w' (self w) = eth w (self w) + unat fee \<and>
           eth w' sender + unat totalPrice = eth w sender"
proof -
  let ?seller = "l_seller (listings (mkt w) listingId)"
  from assms(1) obtain w0 w1 w2 w3 w4 w5 w6 totalPrice fee sellerAmount where
    r: "receive_value sender val w = Inr w0"
    and l: "nonReentrantBefore w0 = Inr w1"
    and ne: "sender \<noteq> ?seller"
    and bp: "buy_price amount (l_pricePerCredit (listings (mkt w) listingId)) (platformFee (mkt w))
       = Inr (totalPrice, fee, sellerAmount)"
    and le: "totalPrice \<le> val"
    and u: "buy_updateListing listingId amount w1 = Inr w2"
    and t: "buy_transferTokens sender amount w2 = Inr w3"
    and p: "buy_paySeller listingId sellerAmount w3 = Inr w4"
    and f: "buy_refund sender val totalPrice w4 = Inr w5"
    and rt: "buy_recordTrade sender listingId amount totalPrice now w5 = Inr w6"
    and w': "w' = nonReentrantAfter w6"
    by (rule buyCredits_Inr)
  note R = receive_value_Inr [OF r] and L = nonReentrantBefore_Inr [OF l]
    and U = buy_updateListing_Inr [OF u] and T = buy_transferTokens_Inr [OF t]
    and P = call_value_True [OF buy_paySeller_Inr [OF p]]
    and RT = buy_recordTrade_Inr [OF rt]
    and B = buy_price_Inr [OF bp]
  have s3: "l_seller (listings (mkt w3) listingId) = ?seller"
    using T(2) U(2) L(2) R(4) by simp
  have self3: "self w3 = self w" using T(4) U(5) L(5) R(5) by simp
  have e3: "eth w3 = eth_move sender (self w) (unat val) (eth w)"
    using T(3) U(4) L(4) R(2) by simp
  have e4: "eth w4 = eth_move (self w) ?seller (unat sellerAmount) (eth w3)"
    using P(3) s3 self3 by simp
  have self4: "self w4 = self w" using P(7) self3 by simp
  from le have d: "unat (val - totalPrice) = unat val - unat totalPrice" "unat totalPrice \<le> unat val"
    by (simp_all add: unat_sub word_le_nat_alt)
  from buy_refund_Inr [OF f]
  have e5: "eth w5 = eth_move (self w) sender (unat val - unat totalPrice) (eth w4)"
  proof
    assume "totalPrice < val \<and> call_value sender (unat (val - totalPrice)) w4 = (True, w5)"
    then show ?thesis using call_value_True(3) [of sender "unat (val - totalPrice)" w4 w5] d self4
      by simp
  next
    assume "\<not> totalPrice < val \<and> w5 = w4"
    with le have "unat val - unat totalPrice = 0" "w5 = w4" by (simp_all add: word_le_nat_alt word_less_nat_alt)
    then show ?thesis by (simp add: eth_move_def fun_eq_iff)
  qed
  have e': "eth w' = eth w5" using w' RT(11) by (simp add: nonReentrantAfter_fields)
  have paid: "unat val \<le> eth w sender" by (rule R(1))
  have sa: "unat sellerAmount \<le> unat val" using B(5) d(2) by linarith
  have rem: "10000 * unat sellerAmount + unat totalPrice * unat (platformFee (mkt w))
             = 10000 * unat totalPrice + unat totalPrice * unat (platformFee (mkt w)) mod 10000"
  proof -
    have "unat totalPrice * unat (platformFee (mkt w))
            = 10000 * unat fee + unat totalPrice * unat (platformFee (mkt w)) mod 10000"
      using B(4) by simp
    with B(5) show ?thesis by linarith
  qed
  have 1: "eth w' ?seller = eth w ?seller + unat sellerAmount"
    using e' e5 e4 e3 ne assms(2,3) by (simp add: eth_move_apply)
  have 2: "eth w' (self w) = eth w (self w) + unat fee"
    using e' e5 e4 e3 ne assms(2,3) B(5) d(2) sa by (simp add: eth_move_apply)
  have 3: "eth w' sender + unat totalPrice = eth w sender"
    using e' e5 e4 e3 ne assms(2,3) d(2) paid by (simp add: eth_move_apply)
  from bp B(2,4,5) rem 1 2 3 show ?thesis by (intro exI [of _ totalPrice] exI [of _ fee] exI [of _ sellerAmount]) simp
qed

lemmas world_eval = world_step_def world_init_def createListing_def buyCredits_def
  cancelListing_def updateListingPrice_def updatePlatformFee_def withdrawFees_def
  transferOwnership_def renounceOwnership_def buy_price_def buy_updateListing_def
  buy_transferTokens_def buy_paySeller_def buy_refund_def buy_recordTrade_def
  receive_value_def call_value_def nonReentrantBefore_def nonReentrantAfter_def
  onlyOwner_def eth_move_def

lemmas scenario_eval = market_world_def listing_ops_def market_listed_def market_sold_def
  market_sold_4_def

text \<open>
  While the lock is held, the three guarded entry points reject every call.
  \<open>updateListingPrice\<close>, \<open>updatePlatformFee\<close> and \<open>withdrawFees\<close> carry no such guard.
\<close>

lemma locked_entry_points:
  assumes "m_entered (mkt w)"
  shows "createListing sender amount price creditId pn now w = Inl ReentrancyGuardReentrantCall"
    and "cancelListing sender listingId w = Inl ReentrancyGuardReentrantCall"
    and "unat val \<le> eth w sender \<Longrightarrow>
           buyCredits sender val listingId amount now w = Inl ReentrancyGuardReentrantCall"
  using assms
  by (simp_all add: createListing_def cancelListing_def buyCredits_def nonReentrantBefore_def
      receive_value_def)


section \<open>The marketplace: settlement\<close>




text \<open>
  C4. In every successful \<open>buyCredits\<close> (the marketplace being neither buyer nor seller),
  the total price, the fee and the seller's amount are those of the price computation,
  fee plus seller's amount is exactly the total price, the seller's amount is its exact
  share plus the remainder of the fee's division, and the value moves accordingly: the
  buyer ends up paying the total price, the seller receives the seller's amount and the
  marketplace keeps the fee.
\<close>

theorem buyCredits_fee_exact:
  assumes "buyCredits sender val listingId amount now w = Inr w'"
    and "sender \<noteq> self w"
    and "l_seller (listings (mkt w) listingId) \<noteq> self w"
  shows "\<exists>totalPrice fee sellerAmount.
           buy_price amount (l_pricePerCredit (listings (mkt w) listingId)) (platformFee (mkt w))
             = Inr (totalPrice, fee, sellerAmount) \<and>
           unat totalPrice = unat amount * unat (l_pricePerCredit (listings (mkt w) listingId)) div 10 ^ 18 \<and>
           unat fee = unat totalPrice * unat (platformFee (mkt w)) div 10000 \<and>
           unat fee + unat sellerAmount = unat totalPrice \<and>
           10000 * unat sellerAmount + unat totalPrice * unat (platformFee (mkt w))
             = 10000 * unat totalPrice + unat totalPrice * unat (platformFee (mkt w)) mod 10000 \<and>
           eth w' (l_seller (listings (mkt w) listingId))
             = eth w (l_seller (listings (mkt w) listingId)) + unat sellerAmount \<and>
           eth w' (self w) = eth w (self w) + unat fee \<and>
           eth w' sender + unat totalPrice = eth w sender"
  using assms by (rule buyCredits_value_flow)

theorem buyCredits_fee_exact_witness:
  "\<not> isl (buyCredits 3 20000 0 (15 * 10 ^ 17) 8 market_listed) \<and>
   buy_price (15 * 10 ^ 17) 10000 25 = Inr (15000, 37, 14963) \<and>
   eth market_sold_partial 2 = eth market_listed 2 + 14963 \<and>
   eth market_sold_partial 9 = eth market_listed 9 + 37 \<and>
   eth market_sold_partial 3 + 15000 = eth market_listed 3"
proof -
  have a: "buyCredits 3 20000 0 (15 * 10 ^ 17) 8 market_listed = Inr market_sold_partial"
    by (simp add: scenario_eval market_sold_partial_def world_eval token_eval)
  have b: "(3::address) \<noteq> self market_listed" "l_seller (listings (mkt market_listed) 0) \<noteq> self market_listed"
    by (simp_all add: scenario_eval world_eval token_eval)
  have c: "l_pricePerCredit (listings (mkt market_listed) 0) = 10000" "platformFee (mkt market_listed) = 25"
    "l_seller (listings (mkt market_listed) 0) = 2" "self market_listed = 9"
    by (simp_all add: scenario_eval world_eval token_eval)
  have d: "buy_price (15 * 10 ^ 17) 10000 25 = Inr (15000, 37, 14963)"
    by (simp add: buy_price_def mul256_def sub256_def Let_def)
  from buyCredits_fee_exact [OF a b] a c d show ?thesis by auto
qed

text \<open>
  C8. Called by the listing's seller on an active listing with a price above zero,
  \<open>updateListingPrice\<close> returns the world with that listing's price replaced and nothing
  else changed: the remaining amount, the active flag, the seller, every other listing,
  the token contract (so the marketplace's escrowed balance), the escrow total, value
  balances and counters are as before. For any other caller it fails with "Not listing
  owner", for the seller on an inactive listing with "Listing not active", and for the
  seller on an active listing with price zero with "Price must be greater than 0"; a
  failed transaction leaves the world as it was.
\<close>

theorem updateListingPrice_frame:
  "(l_seller (listings (mkt w) listingId) = sender \<and> l_isActive (listings (mkt w) listingId) \<and> 0 < newPrice \<longrightarrow>
      (\<exists>w'. updateListingPrice sender listingId newPrice w = Inr w' \<and>
            w' = w\<lparr>mkt := (mkt w)\<lparr>listings := (listings (mkt w))(listingId :=
                   (listings (mkt w) listingId)\<lparr>l_pricePerCredit := newPrice\<rparr>)\<rparr>\<rparr> \<and>
            l_pricePerCredit (listings (mkt w') listingId) = newPrice \<and>
            l_amount (listings (mkt w') listingId) = l_amount (listings (mkt w) listingId) \<and>
            l_isActive (listings (mkt w') listingId) = l_isActive (listings (mkt w) listingId) \<and>
            l_seller (listings (mkt w') listingId) = l_seller (listings (mkt w) listingId) \<and>
            (\<forall>j. j \<noteq> listingId \<longrightarrow> listings (mkt w') j = listings (mkt w) j) \<and>
            tok w' = tok w \<and>
            balances (tok w') (self w') = balances (tok w) (self w) \<and>
            escrow (mkt w') = escrow (mkt w) \<and>
            eth w' = eth w \<and> calls w' = calls w \<and>
            nextListingId (mkt w') = nextListingId (mkt w) \<and>
            platformFee (mkt w') = platformFee (mkt w) \<and>
            userTrades (mkt w') = userTrades (mkt w) \<and>
            totalVolume (mkt w') = totalVolume (mkt w) \<and>
            totalTrades (mkt w') = totalTrades (mkt w)))
   \<and> (l_seller (listings (mkt w) listingId) \<noteq> sender \<longrightarrow>
        updateListingPrice sender listingId newPrice w = Inl (Revert ''Not listing owner''))
   \<and> (l_seller (listings (mkt w) listingId) = sender \<and> \<not> l_isActive (listings (mkt w) listingId) \<longrightarrow>
        updateListingPrice sender listingId newPrice w = Inl (Revert ''Listing not active''))
   \<and> (l_seller (listings (mkt w) listingId) = sender \<and> l_isActive (listings (mkt w) listingId) \<and> newPrice = 0 \<longrightarrow>
        updateListingPrice sender listingId newPrice w = Inl (Revert ''Price must be greater than 0''))
   \<and> (\<not> (l_seller (listings (mkt w) listingId) = sender \<and> l_isActive (listings (mkt w) listingId) \<and> 0 < newPrice) \<longrightarrow>
        world_step w (UpdateListingPrice sender listingId newPrice) = w)"
proof -
  let ?l = "listings (mkt w) listingId"
  let ?w' = "w\<lparr>mkt := (mkt w)\<lparr>listings := (listings (mkt w))(listingId := ?l\<lparr>l_pricePerCredit := newPrice\<rparr>)\<rparr>\<rparr>"
  have held: "held (?l\<lparr>l_pricePerCredit := newPrice\<rparr>) = held ?l" by (simp add: held_def)
  have esc: "escrow ((mkt w)\<lparr>listings := (listings (mkt w))(listingId :=
                     ?l\<lparr>l_pricePerCredit := newPrice\<rparr>)\<rparr>) = escrow (mkt w)"
  proof -
    have "held (((listings (mkt w))(listingId := ?l\<lparr>l_pricePerCredit := newPrice\<rparr>)) i)
            = held (listings (mkt w) i)" for i
      using held by simp
    then show ?thesis by (simp add: escrow_def)
  qed
  have ok: "updateListingPrice sender listingId newPrice w = Inr ?w'"
    if "l_seller ?l = sender" "l_isActive ?l" "0 < newPrice"
    using that by (simp add: updateListingPrice_def Let_def)
  have A: "l_seller ?l = sender \<and> l_isActive ?l \<and> 0 < newPrice \<longrightarrow>
      (\<exists>w'. updateListingPrice sender listingId newPrice w = Inr w' \<and>
            w' = ?w' \<and>
            l_pricePerCredit (listings (mkt w') listingId) = newPrice \<and>
            l_amount (listings (mkt w') listingId) = l_amount ?l \<and>
            l_isActive (listings (mkt w') listingId) = l_isActive ?l \<and>
            l_seller (listings (mkt w') listingId) = l_seller ?l \<and>
            (\<forall>j. j \<noteq> listingId \<longrightarrow> listings (mkt w') j = listings (mkt w) j) \<and>
            tok w' = tok w \<and>
            balances (tok w') (self w') = balances (tok w) (self w) \<and>
            escrow (mkt w') = escrow (mkt w) \<and>
            eth w' = eth w \<and> calls w' = calls w \<and>
            nextListingId (mkt w') = nextListingId (mkt w) \<and>
            platformFee (mkt w') = platformFee (mkt w) \<and>
            userTrades (mkt w') = userTrades (mkt w) \<and>
            totalVolume (mkt w') = totalVolume (mkt w) \<and>
            totalTrades (mkt w') = totalTrades (mkt w))"
  proof (intro impI, elim conjE)
    assume h: "l_seller ?l = sender" "l_isActive ?l" "0 < newPrice"
    show "\<exists>w'. updateListingPrice sender listingId newPrice w = Inr w' \<and>
            w' = ?w' \<and>
            l_pricePerCredit (listings (mkt w') listingId) = newPrice \<and>
            l_amount (listings (mkt w') listingId) = l_amount ?l \<and>
            l_isActive (listings (mkt w') listingId) = l_isActive ?l \<and>
            l_seller (listings (mkt w') listingId) = l_seller ?l \<and>
            (\<forall>j. j \<noteq> listingId \<longrightarrow> listings (mkt w') j = listings (mkt w) j) \<and>
            tok w' = tok w \<and>
            balances (tok w') (self w') = balances (tok w) (self w) \<and>
            escrow (mkt w') = escrow (mkt w) \<and>
            eth w' = eth w \<and> calls w' = calls w \<and>
            nextListingId (mkt w') = nextListingId (mkt w) \<and>
            platformFee (mkt w') = platformFee (mkt w) \<and>
            userTrades (mkt w') = userTrades (mkt w) \<and>
            totalVolume (mkt w') = totalVolume (mkt w) \<and>
            totalTrades (mkt w') = totalTrades (mkt w)"
      by (rule exI [of _ ?w']) (simp add: ok [OF h] esc)
  qed
  have B: "l_seller ?l \<noteq> sender \<longrightarrow>
        updateListingPrice sender listingId newPrice w = Inl (Revert ''Not listing owner'')"
    by (simp add: updateListingPrice_def Let_def)
  have C: "l_seller ?l = sender \<and> \<not> l_isActive ?l \<longrightarrow>
        updateListingPrice sender listingId newPrice w = Inl (Revert ''Listing not active'')"
    by (simp add: updateListingPrice_def Let_def)
  have D: "l_seller ?l = sender \<and> l_isActive ?l \<and> newPrice = 0 \<longrightarrow>
        updateListingPrice sender listingId newPrice w = Inl (Revert ''Price must be greater than 0'')"
    by (simp add: updateListingPrice_def Let_def)
  have E: "\<not> (l_seller ?l = sender \<and> l_isActive ?l \<and> 0 < newPrice) \<longrightarrow>
        world_step w (UpdateListingPrice sender listingId newPrice) = w"
    by (simp add: world_step_def updateListingPrice_def Let_def)
  from A B C D E show ?thesis by (intro conjI)
qed

text \<open>
  C10, as the code has it. \<open>withdrawFees\<close> fails for everyone but the owner. Called by the
  owner, it fails with "No fees to withdraw" if the marketplace holds no value, and with
  "Withdrawal failed" if it holds value that the owner's account does not accept;
  otherwise it sends the whole value balance of the marketplace to the owner in one
  external call, leaving the marketplace with none. There is no counter of accrued fees
  in the storage: the amount is the held balance. A failed transaction changes nothing.
\<close>

theorem withdrawFees_sweeps_balance:
  "(sender \<noteq> owner (mkt w) \<longrightarrow> withdrawFees sender w = Inl (OwnableUnauthorizedAccount sender))
   \<and> (sender = owner (mkt w) \<and> eth w (self w) = 0 \<longrightarrow>
        withdrawFees sender w = Inl (Revert ''No fees to withdraw''))
   \<and> (sender = owner (mkt w) \<and> 0 < eth w (self w) \<and> \<not> acceptsValue w sender \<longrightarrow>
        withdrawFees sender w = Inl (Revert ''Withdrawal failed''))
   \<and> (sender = owner (mkt w) \<and> 0 < eth w (self w) \<and> acceptsValue w sender \<longrightarrow>
        (\<exists>w'. withdrawFees sender w = Inr w' \<and>
              eth w' = eth_move (self w) sender (eth w (self w)) (eth w) \<and>
              (sender \<noteq> self w \<longrightarrow>
                 eth w' (self w) = 0 \<and> eth w' sender = eth w sender + eth w (self w)) \<and>
              mkt w' = mkt w \<and> tok w' = tok w \<and>
              calls w' = calls w @ [\<lparr> ec_to = sender, ec_value = eth w (self w),
                                       ec_market = mkt w, ec_token = tok w \<rparr>]))
   \<and> ((\<exists>e. withdrawFees sender w = Inl e) \<longrightarrow> world_step w (WithdrawFees sender) = w)"
  by (auto simp: withdrawFees_def onlyOwner_def call_value_def Let_def eth_move_apply world_step_def)

theorem updateListingPrice_frame_witness:
  "l_seller (listings (mkt market_listed) 0) = 2 \<and>
   l_isActive (listings (mkt market_listed) 0) \<and>
   \<not> isl (updateListingPrice 2 0 12000 market_listed) \<and>
   l_pricePerCredit (listings (mkt (world_step market_listed (UpdateListingPrice 2 0 12000))) 0) = 12000 \<and>
   l_amount (listings (mkt (world_step market_listed (UpdateListingPrice 2 0 12000))) 0) = 2 * 10 ^ 18 \<and>
   l_isActive (listings (mkt (world_step market_listed (UpdateListingPrice 2 0 12000))) 0) \<and>
   updateListingPrice 3 0 12000 market_listed = Inl (Revert ''Not listing owner'') \<and>
   updateListingPrice 2 0 0 market_listed = Inl (Revert ''Price must be greater than 0'') \<and>
   updateListingPrice 2 0 12000 market_sold_out = Inl (Revert ''Listing not active'')"
proof -
  have a: "l_seller (listings (mkt market_listed) 0) = 2" "l_isActive (listings (mkt market_listed) 0)"
    "l_amount (listings (mkt market_listed) 0) = 2 * 10 ^ 18"
    by (simp_all add: scenario_eval world_eval token_eval)
  have b: "l_seller (listings (mkt market_sold_out) 0) = 2" "\<not> l_isActive (listings (mkt market_sold_out) 0)"
    by (simp_all add: scenario_eval market_sold_out_def world_eval token_eval)
  from updateListingPrice_frame [of market_listed 0 2 12000]
    updateListingPrice_frame [of market_listed 0 3 12000]
    updateListingPrice_frame [of market_listed 0 2 0]
    updateListingPrice_frame [of market_sold_out 0 2 12000] a b
  show ?thesis by (auto simp: world_step_def)
qed

theorem withdrawFees_sweeps_balance_witness:
  "owner (mkt market_sold_4) = 4 \<and> acceptsValue market_sold_4 4 \<and>
   eth market_sold_4 (self market_sold_4) = 25 \<and>
   \<not> isl (withdrawFees 4 market_sold_4) \<and>
   eth (world_step market_sold_4 (WithdrawFees 4)) (self market_sold_4) = 0 \<and>
   eth (world_step market_sold_4 (WithdrawFees 4)) 4 = 25 \<and>
   withdrawFees 3 market_sold_4 = Inl (OwnableUnauthorizedAccount 3) \<and>
   withdrawFees 4 (world_step market_sold_4 (WithdrawFees 4)) = Inl (Revert ''No fees to withdraw'')"
proof -
  have a: "owner (mkt market_sold_4) = 4" "acceptsValue market_sold_4 4"
    "eth market_sold_4 (self market_sold_4) = 25" "self market_sold_4 = 9" "eth market_sold_4 4 = 0"
    by (simp_all add: scenario_eval world_eval token_eval)
  from withdrawFees_sweeps_balance [of 4 market_sold_4] a
  obtain w' where w': "withdrawFees 4 market_sold_4 = Inr w'"
    "eth w' 9 = 0" "eth w' 4 = 25" "mkt w' = mkt market_sold_4" by auto
  then have s: "world_step market_sold_4 (WithdrawFees 4) = w'" by (simp add: world_step_def)
  have "self w' = 9" using w'(1) a(4)
    by (auto simp: withdrawFees_def onlyOwner_def call_value_def Let_def split: if_splits)
  with withdrawFees_sweeps_balance [of 4 w'] w'(2,4) a(1)
  have "withdrawFees 4 w' = Inl (Revert ''No fees to withdraw'')" by simp
  moreover from withdrawFees_sweeps_balance [of 3 market_sold_4] a(1)
  have "withdrawFees 3 market_sold_4 = Inl (OwnableUnauthorizedAccount 3)" by simp
  ultimately show ?thesis using a w' s by simp
qed

text \<open>
  C10 as stated fails: after the sale the marketplace holds the fee of 25, its owner is
  account 1, a contract that accepts no value, and the owner's \<open>withdrawFees\<close> fails.
\<close>

theorem withdrawFees_counterexample:
  "owner (mkt market_sold) = 1 \<and>
   eth market_sold (self market_sold) = 25 \<and>
   withdrawFees 1 market_sold = Inl (Revert ''Withdrawal failed'')"
  by (simp add: scenario_eval world_eval token_eval)

section \<open>Proofs: the escrow invariant\<close>

lemma sum_fun_upd:
  fixes f :: "'a::finite \<Rightarrow> 'b" and g :: "'b \<Rightarrow> nat"
  shows "(\<Sum>a\<in>UNIV. g ((f(x := v)) a)) + g (f x) = (\<Sum>a\<in>UNIV. g (f a)) + g v"
proof -
  have "(\<Sum>a\<in>UNIV. g ((f(x := v)) a)) = g v + (\<Sum>a\<in>UNIV - {x}. g ((f(x := v)) a))"
    by (simp add: sum.remove [of UNIV x])
  moreover have "(\<Sum>a\<in>UNIV - {x}. g ((f(x := v)) a)) = (\<Sum>a\<in>UNIV - {x}. g (f a))"
    by (rule sum.cong) auto
  moreover have "(\<Sum>a\<in>UNIV. g (f a)) = g (f x) + (\<Sum>a\<in>UNIV - {x}. g (f a))"
    by (simp add: sum.remove [of UNIV x])
  ultimately show ?thesis by simp
qed

lemma escrow_upd:
  "escrow (m\<lparr>listings := (listings m)(i := l)\<rparr>) + held (listings m i) = escrow m + held l"
  using sum_fun_upd [of held "listings m" i l] by (simp add: escrow_def)

lemma held_le_escrow: "held (listings m i) \<le> escrow m"
  unfolding escrow_def by (rule member_le_sum) simp_all

lemma escrow_cong: "listings m' = listings m \<Longrightarrow> escrow m' = escrow m"
  by (simp add: escrow_def)

text \<open>
  An address that signs no transaction and has approved no spender keeps what it holds:
  no transaction on the ledger lowers its balance.
\<close>

lemma erc20_update_balance_eq:
  assumes "erc20_update frm to val s = Inr s'" "c \<noteq> frm \<or> frm = 0" "c \<noteq> to \<or> to = 0"
  shows "balances s' c = balances s c"
  using assms by (cases "frm = 0"; cases "to = 0") (auto simp: erc20_update_def bnd_eq_Inr split: if_splits)

lemma erc20_update_zero:
  assumes "erc20_update frm to 0 s = Inr s'"
  shows "balances s' = balances s"
  using assms by (cases "frm = 0"; cases "to = 0") (auto simp: erc20_update_def bnd_eq_Inr split: if_splits)

lemma erc20_update_bal_ge:
  assumes "erc20_update frm to val s = Inr s'" "supply_ok s" "c \<noteq> frm \<or> frm = 0 \<or> val = 0"
  shows "unat (balances s c) \<le> unat (balances s' c)"
proof (cases "val = 0")
  case True
  with assms(1) erc20_update_zero [of frm to s s'] show ?thesis by simp
next
  case False
  with assms(3) have c: "c \<noteq> frm \<or> frm = 0" by simp
  show ?thesis
  proof (cases "c \<noteq> to \<or> to = 0")
    case True
    with erc20_update_balance_eq [OF assms(1) c] show ?thesis by simp
  next
    case False
    then have ct: "c = to" "to \<noteq> 0" by simp_all
    show ?thesis
    proof (cases "frm = 0")
      case True
      with assms(1) have "erc20_update 0 to val s = Inr s'" by simp
      from erc20_update_mint(2) [OF this ct(2) assms(2)] ct show ?thesis by simp
    next
      case False
      with c ct have "frm \<noteq> to" by simp
      from erc20_update_move(3) [OF assms(1) False ct(2) this assms(2)] ct show ?thesis by simp
    qed
  qed
qed

lemma erc20_transfer_Inr:
  assumes "erc20_transfer frm to val s = Inr s'"
  shows "frm \<noteq> 0" "to \<noteq> 0" "erc20_update frm to val s = Inr s'"
  using assms by (auto simp: erc20_transfer_def split: if_splits)

lemma erc20_approve_allowances:
  assumes "erc20_approve ownr spender val s = Inr s'"
  shows "allowances s' = (allowances s)(ownr := (allowances s ownr)(spender := val))"
  using assms by (auto simp: erc20_approve_def split: if_splits)

lemma erc20_spendAllowance_custody:
  assumes "erc20_spendAllowance ownr spender val s = Inr s'" "\<forall>x. allowances s c x = 0"
  shows "\<forall>x. allowances s' c x = 0" and "ownr = c \<Longrightarrow> val = 0"
proof -
  have max: "(0::uint256) < - 1" by (simp add: word_gt_0)
  show v: "val = 0" if "ownr = c"
  proof -
    from that assms(2) have "allowances s ownr spender = 0" by simp
    with assms(1) max have "\<not> (0::uint256) < val"
      by (auto simp: erc20_spendAllowance_def Let_def split: if_splits)
    then show ?thesis by (simp add: word_gt_0)
  qed
  show "\<forall>x. allowances s' c x = 0"
  proof (cases "allowances s ownr spender < - 1")
    case False
    with assms show ?thesis by (simp add: erc20_spendAllowance_def Let_def)
  next
    case True
    with assms(1) have a: "erc20_approve ownr spender (allowances s ownr spender - val) s = Inr s'"
      by (simp add: erc20_spendAllowance_def Let_def split: if_splits)
    show ?thesis
    proof (cases "ownr = c")
      case False
      with erc20_approve_allowances [OF a] assms(2) show ?thesis by simp
    next
      case True
      with v assms(2) have "allowances s ownr spender - val = 0" by simp
      with erc20_approve_allowances [OF a] assms(2) True show ?thesis by simp
    qed
  qed
qed

lemma token_exec_custody:
  assumes "token_exec opn s = Inr s'" "tinv s" "token_sender opn \<noteq> c" "\<forall>x. allowances s c x = 0"
  shows "(\<forall>x. allowances s' c x = 0) \<and> unat (balances s c) \<le> unat (balances s' c)
         \<and> balances s' 0 = balances s 0"
proof -
  from assms(2) have ok: "supply_ok s" by (simp add: tinv_def)
  have zero: "(0::address) \<noteq> frm \<or> frm = 0" for frm by auto
  show ?thesis
  proof (cases opn)
    case (MintCredits sender to amount pn pt loc vintage now)
    with assms(1) obtain cid where "mintCredits sender to amount pn pt loc vintage now s = Inr (s', cid)"
      by (auto simp: bnd_eq_Inr)
    then obtain nid pc s1 where
      u: "erc20_update 0 to amount
        (s\<lparr> t_entered := True,
            nextCreditId := nid,
            creditMetadata := (creditMetadata s)(nextCreditId s :=
              \<lparr> cm_projectName = pn, cm_projectType = pt,
                cm_location = loc, cm_vintage = vintage, cm_timestamp = now,
                cm_isRetired = False, cm_retiredBy = 0, cm_retiredAt = 0 \<rparr>),
            projectCredits := (projectCredits s)(pn := pc) \<rparr>) = Inr s1"
      and s': "s' = s1\<lparr>t_entered := False\<rparr>"
      by (rule mintCredits_Inr)
    let ?sx = "s\<lparr> t_entered := True,
            nextCreditId := nid,
            creditMetadata := (creditMetadata s)(nextCreditId s :=
              \<lparr> cm_projectName = pn, cm_projectType = pt,
                cm_location = loc, cm_vintage = vintage, cm_timestamp = now,
                cm_isRetired = False, cm_retiredBy = 0, cm_retiredAt = 0 \<rparr>),
            projectCredits := (projectCredits s)(pn := pc) \<rparr>"
    from ok have okx: "supply_ok ?sx" by (simp add: supply_ok_def sum_balances_def)
    from erc20_update_bal_ge [OF u okx, of c] erc20_update_fields(1) [OF u]
      erc20_update_balance_eq [OF u zero zero] assms(4) s'
    show ?thesis by simp
  next
    case (RetireCredits sender amount creditId now)
    with assms(1) have "retireCredits sender amount creditId now s = Inr s'" by simp
    then obtain tr s1 where
      u: "erc20_update sender 0 amount
        (s\<lparr> t_entered := True,
            creditMetadata := (creditMetadata s)(creditId :=
              (creditMetadata s creditId)\<lparr> cm_isRetired := True, cm_retiredBy := sender,
                                           cm_retiredAt := now \<rparr>),
            userRetiredCredits :=
              (userRetiredCredits s)(sender := userRetiredCredits s sender @ [creditId]),
            totalRetired := tr \<rparr>) = Inr s1"
      and s': "s' = s1\<lparr>t_entered := False\<rparr>"
      by (rule retireCredits_Inr)
    let ?sx = "s\<lparr> t_entered := True,
            creditMetadata := (creditMetadata s)(creditId :=
              (creditMetadata s creditId)\<lparr> cm_isRetired := True, cm_retiredBy := sender,
                                           cm_retiredAt := now \<rparr>),
            userRetiredCredits :=
              (userRetiredCredits s)(sender := userRetiredCredits s sender @ [creditId]),
            totalRetired := tr \<rparr>"
    from ok have okx: "supply_ok ?sx" by (simp add: supply_ok_def sum_balances_def)
    from RetireCredits assms(3) have "c \<noteq> sender" by auto
    with erc20_update_bal_ge [OF u okx, of c] erc20_update_fields(1) [OF u]
      erc20_update_balance_eq [OF u zero zero] assms(4) s'
    show ?thesis by simp
  next
    case (Transfer sender to val)
    with assms(1) have u: "erc20_update sender to val s = Inr s'"
      by (simp add: transfer_def erc20_transfer_def split: if_splits)
    from Transfer assms(3) have "c \<noteq> sender" by auto
    with erc20_update_bal_ge [OF u ok, of c] erc20_update_fields(1) [OF u]
      erc20_update_balance_eq [OF u zero zero] assms(4)
    show ?thesis by simp
  next
    case (TransferFrom sender frm to val)
    with assms(1) obtain s1 where a: "erc20_spendAllowance frm sender val s = Inr s1"
      and u: "erc20_update frm to val s1 = Inr s'"
      by (auto simp: transferFrom_def erc20_transfer_def bnd_eq_Inr split: if_splits)
    note f = erc20_spendAllowance_fields [OF a]
    from ok f have ok1: "supply_ok s1" by (simp add: supply_ok_def sum_balances_def)
    from erc20_spendAllowance_custody [OF a assms(4)]
    have al: "\<forall>x. allowances s1 c x = 0" and v: "c \<noteq> frm \<or> frm = 0 \<or> val = 0" by auto
    from erc20_update_bal_ge [OF u ok1 v] erc20_update_fields(1) [OF u]
      erc20_update_balance_eq [OF u zero zero] al f(1)
    show ?thesis by simp
  next
    case (Approve sender spender val)
    with assms(1) have a: "erc20_approve sender spender val s = Inr s'" by (simp add: approve_def)
    from Approve assms(3) have "c \<noteq> sender" by auto
    with erc20_approve_allowances [OF a] erc20_approve_fields(1) [OF a] assms(4)
    show ?thesis by simp
  next
    case (Burn sender val)
    with assms(1) have u: "erc20_update sender 0 val s = Inr s'"
      by (simp add: burn_def erc20_burn_def split: if_splits)
    from Burn assms(3) have "c \<noteq> sender" by auto
    with erc20_update_bal_ge [OF u ok, of c] erc20_update_fields(1) [OF u]
      erc20_update_balance_eq [OF u zero zero] assms(4)
    show ?thesis by simp
  next
    case (BurnFrom sender account val)
    with assms(1) obtain s1 where a: "erc20_spendAllowance account sender val s = Inr s1"
      and u: "erc20_update account 0 val s1 = Inr s'"
      by (auto simp: burnFrom_def erc20_burn_def bnd_eq_Inr split: if_splits)
    note f = erc20_spendAllowance_fields [OF a]
    from ok f have ok1: "supply_ok s1" by (simp add: supply_ok_def sum_balances_def)
    from erc20_spendAllowance_custody [OF a assms(4)]
    have al: "\<forall>x. allowances s1 c x = 0" and v: "c \<noteq> account \<or> account = 0 \<or> val = 0" by auto
    from erc20_update_bal_ge [OF u ok1 v] erc20_update_fields(1) [OF u]
      erc20_update_balance_eq [OF u zero zero] al f(1)
    show ?thesis by simp
  next
    case (GrantRole sender r account)
    with assms show ?thesis by (auto simp: bnd_eq_Inr)
  next
    case (RevokeRole sender r account)
    with assms show ?thesis by (auto simp: bnd_eq_Inr)
  next
    case (RenounceRole sender r account)
    with assms show ?thesis by (auto simp: bnd_eq_Inr)
  qed
qed

text \<open>The effects of the three entry points that move escrowed credits.\<close>

lemma buyCredits_summary:
  assumes "buyCredits sender val listingId amount now w = Inr w'"
  obtains totalPrice fee sellerAmount where
    "buy_price amount (l_pricePerCredit (listings (mkt w) listingId)) (platformFee (mkt w))
       = Inr (totalPrice, fee, sellerAmount)"
    "totalPrice \<le> val"
    "\<not> m_entered (mkt w)" "l_isActive (listings (mkt w) listingId)"
    "amount \<le> l_amount (listings (mkt w) listingId)"
    "sender \<noteq> l_seller (listings (mkt w) listingId)"
    "self w' = self w" "acceptsValue w' = acceptsValue w"
    "erc20_transfer (self w) sender amount (tok w) = Inr (tok w')"
    "listings (mkt w') = (listings (mkt w))(listingId :=
        (listings (mkt w) listingId)
          \<lparr> l_amount := l_amount (listings (mkt w) listingId) - amount,
            l_isActive := (if l_amount (listings (mkt w) listingId) - amount = 0 then False
                           else l_isActive (listings (mkt w) listingId)) \<rparr>)"
    "nextListingId (mkt w') = nextListingId (mkt w)"
    "platformFee (mkt w') = platformFee (mkt w)"
    "owner (mkt w') = owner (mkt w)"
    "\<not> m_entered (mkt w')"
    "userTrades (mkt w') sender = userTrades (mkt w) sender @
       [\<lparr> tr_listingId = listingId, tr_buyer = sender,
          tr_seller = l_seller (listings (mkt w) listingId),
          tr_amount = amount, tr_totalPrice = totalPrice, tr_timestamp = now \<rparr>]"
    "userTrades (mkt w') (l_seller (listings (mkt w) listingId))
       = userTrades (mkt w) (l_seller (listings (mkt w) listingId)) @
       [\<lparr> tr_listingId = listingId, tr_buyer = sender,
          tr_seller = l_seller (listings (mkt w) listingId),
          tr_amount = amount, tr_totalPrice = totalPrice, tr_timestamp = now \<rparr>]"
    "unat (totalVolume (mkt w')) = unat (totalVolume (mkt w)) + unat totalPrice"
    "unat (totalTrades (mkt w')) = unat (totalTrades (mkt w)) + 1"
proof -
  let ?seller = "l_seller (listings (mkt w) listingId)"
  from assms obtain w0 w1 w2 w3 w4 w5 w6 totalPrice fee sellerAmount where
    r: "receive_value sender val w = Inr w0"
    and l: "nonReentrantBefore w0 = Inr w1"
    and act: "l_isActive (listings (mkt w) listingId)"
    and am: "amount \<le> l_amount (listings (mkt w) listingId)"
    and ne: "sender \<noteq> ?seller"
    and bp: "buy_price amount (l_pricePerCredit (listings (mkt w) listingId)) (platformFee (mkt w))
       = Inr (totalPrice, fee, sellerAmount)"
    and le: "totalPrice \<le> val"
    and u: "buy_updateListing listingId amount w1 = Inr w2"
    and t: "buy_transferTokens sender amount w2 = Inr w3"
    and p: "buy_paySeller listingId sellerAmount w3 = Inr w4"
    and f: "buy_refund sender val totalPrice w4 = Inr w5"
    and rt: "buy_recordTrade sender listingId amount totalPrice now w5 = Inr w6"
    and w': "w' = nonReentrantAfter w6"
    by (rule buyCredits_Inr)
  note R = receive_value_Inr [OF r] and L = nonReentrantBefore_Inr [OF l]
    and U = buy_updateListing_Inr [OF u] and T = buy_transferTokens_Inr [OF t]
    and P = call_value_True [OF buy_paySeller_Inr [OF p]]
    and RT = buy_recordTrade_Inr [OF rt]
  from buy_refund_Inr [OF f]
  have F: "mkt w5 = mkt w4" "tok w5 = tok w4" "self w5 = self w4" "acceptsValue w5 = acceptsValue w4"
    using call_value_True(5,6,7,8) [of sender "unat (val - totalPrice)" w4 w5] by auto
  have m5: "mkt w5 = (mkt w)\<lparr>m_entered := True, listings := (listings (mkt w))(listingId :=
        (listings (mkt w) listingId)
          \<lparr> l_amount := l_amount (listings (mkt w) listingId) - amount,
            l_isActive := (if l_amount (listings (mkt w) listingId) - amount = 0 then False
                           else l_isActive (listings (mkt w) listingId)) \<rparr>)\<rparr>"
    using F(1) P(6) T(2) U(2) L(2) R(4) by simp
  have 1: "\<not> m_entered (mkt w)" using L(1) R(4) by simp
  have 2: "self w' = self w" "acceptsValue w' = acceptsValue w"
    using w' RT(12,13) F(3,4) P(7,8) T(4,5) U(5,6) L(5,6) R(5,6)
    by (simp_all add: nonReentrantAfter_fields)
  have 3: "erc20_transfer (self w) sender amount (tok w) = Inr (tok w')"
    using w' RT(10) F(2) P(5) T(1) U(3,5) L(3,5) R(3,5) by (simp add: nonReentrantAfter_fields)
  have 4: "listings (mkt w') = (listings (mkt w))(listingId :=
        (listings (mkt w) listingId)
          \<lparr> l_amount := l_amount (listings (mkt w) listingId) - amount,
            l_isActive := (if l_amount (listings (mkt w) listingId) - amount = 0 then False
                           else l_isActive (listings (mkt w) listingId)) \<rparr>)"
    "nextListingId (mkt w') = nextListingId (mkt w)"
    "platformFee (mkt w') = platformFee (mkt w)"
    "owner (mkt w') = owner (mkt w)"
    "\<not> m_entered (mkt w')"
    using w' RT(4,6,7,8) m5 by (simp_all add: nonReentrantAfter_fields)
  have s5: "l_seller (listings (mkt w5) listingId) = ?seller" using m5 by simp
  have 5: "userTrades (mkt w') sender = userTrades (mkt w) sender @
       [\<lparr> tr_listingId = listingId, tr_buyer = sender, tr_seller = ?seller,
          tr_amount = amount, tr_totalPrice = totalPrice, tr_timestamp = now \<rparr>]"
    "userTrades (mkt w') ?seller = userTrades (mkt w) ?seller @
       [\<lparr> tr_listingId = listingId, tr_buyer = sender, tr_seller = ?seller,
          tr_amount = amount, tr_totalPrice = totalPrice, tr_timestamp = now \<rparr>]"
    using w' RT(3) s5 ne m5 by (simp_all add: nonReentrantAfter_fields Let_def)
  have 6: "unat (totalVolume (mkt w')) = unat (totalVolume (mkt w)) + unat totalPrice"
    "unat (totalTrades (mkt w')) = unat (totalTrades (mkt w)) + 1"
    using w' RT(1,2) m5 by (simp_all add: nonReentrantAfter_fields)
  from bp le 1 act am ne 2 3 4 5 6 show thesis by (rule that)
qed

lemma createListing_Inr:
  assumes "createListing sender amount price creditId pn now w = Inr (w', lid)"
  obtains nid s1 where
    "\<not> m_entered (mkt w)" "0 < amount" "0 < price"
    "erc20_spendAllowance sender (self w) amount (tok w) = Inr s1"
    "erc20_transfer sender (self w) amount s1 = Inr (tok w')"
    "lid = nextListingId (mkt w)"
    "add256 (nextListingId (mkt w)) 1 = Inr nid"
    "nextListingId (mkt w') = nid"
    "listings (mkt w') = (listings (mkt w))(nextListingId (mkt w) :=
        \<lparr> l_seller = sender, l_amount = amount, l_pricePerCredit = price,
          l_isActive = True, l_createdAt = now, l_creditId = creditId, l_projectName = pn \<rparr>)"
    "platformFee (mkt w') = platformFee (mkt w)"
    "owner (mkt w') = owner (mkt w)"
    "\<not> m_entered (mkt w')"
    "self w' = self w" "acceptsValue w' = acceptsValue w" "eth w' = eth w" "calls w' = calls w"
proof -
  from assms obtain w1 where l: "nonReentrantBefore w = Inr w1"
    and c: "(if \<not> 0 < amount then Inl (Revert ''Amount must be greater than 0'')
     else if \<not> 0 < price then Inl (Revert ''Price must be greater than 0'')
     else if \<not> amount \<le> balances (tok w1) sender then Inl (Revert ''Insufficient token balance'')
     else
       bnd (transferFrom (self w1) sender (self w1) amount (tok w1)) (\<lambda>t'.
       let listingId = nextListingId (mkt w1) in
       bnd (add256 (nextListingId (mkt w1)) 1) (\<lambda>nid.
       Inr (nonReentrantAfter
              (w1\<lparr> tok := t',
                   mkt := (mkt w1)
                     \<lparr> nextListingId := nid,
                       listings := (listings (mkt w1))(listingId :=
                         \<lparr> l_seller = sender, l_amount = amount, l_pricePerCredit = price,
                           l_isActive = True, l_createdAt = now, l_creditId = creditId,
                           l_projectName = pn \<rparr>),
                       userListings := (userListings (mkt w1))(sender :=
                         userListings (mkt w1) sender @ [listingId]) \<rparr> \<rparr>),
            listingId)))) = Inr (w', lid)"
    unfolding createListing_def bnd_eq_Inr by blast
  note L = nonReentrantBefore_Inr [OF l]
  from c have g: "0 < amount" "0 < price" by (auto split: if_splits)
  with c obtain t' nid where tf: "transferFrom (self w1) sender (self w1) amount (tok w1) = Inr t'"
    and nid: "add256 (nextListingId (mkt w1)) 1 = Inr nid"
    and w': "w' = nonReentrantAfter
              (w1\<lparr> tok := t',
                   mkt := (mkt w1)
                     \<lparr> nextListingId := nid,
                       listings := (listings (mkt w1))(nextListingId (mkt w1) :=
                         \<lparr> l_seller = sender, l_amount = amount, l_pricePerCredit = price,
                           l_isActive = True, l_createdAt = now, l_creditId = creditId,
                           l_projectName = pn \<rparr>),
                       userListings := (userListings (mkt w1))(sender :=
                         userListings (mkt w1) sender @ [nextListingId (mkt w1)]) \<rparr> \<rparr>)"
    and lid: "lid = nextListingId (mkt w1)"
    by (auto simp: bnd_eq_Inr Let_def split: if_splits)
  from tf obtain s1 where sp: "erc20_spendAllowance sender (self w1) amount (tok w1) = Inr s1"
    and tr: "erc20_transfer sender (self w1) amount s1 = Inr t'"
    by (auto simp: transferFrom_def bnd_eq_Inr)
  have 1: "\<not> m_entered (mkt w)" by (rule L(1))
  have 2: "erc20_spendAllowance sender (self w) amount (tok w) = Inr s1" using sp L(3,5) by simp
  have 3: "erc20_transfer sender (self w) amount s1 = Inr (tok w')"
    using tr w' L(5) by (simp add: nonReentrantAfter_def)
  have 4: "lid = nextListingId (mkt w)" using lid L(2) by simp
  have 5: "add256 (nextListingId (mkt w)) 1 = Inr nid" using nid L(2) by simp
  have 6: "nextListingId (mkt w') = nid"
    "listings (mkt w') = (listings (mkt w))(nextListingId (mkt w) :=
        \<lparr> l_seller = sender, l_amount = amount, l_pricePerCredit = price,
          l_isActive = True, l_createdAt = now, l_creditId = creditId, l_projectName = pn \<rparr>)"
    "platformFee (mkt w') = platformFee (mkt w)"
    "owner (mkt w') = owner (mkt w)"
    "\<not> m_entered (mkt w')"
    "self w' = self w" "acceptsValue w' = acceptsValue w" "eth w' = eth w" "calls w' = calls w"
    using w' L(2-7) by (simp_all add: nonReentrantAfter_def)
  from 1 g 2 3 4 5 6 show thesis by (rule that)
qed

lemma cancelListing_Inr:
  assumes "cancelListing sender listingId w = Inr w'"
  shows "\<not> m_entered (mkt w)" "l_seller (listings (mkt w) listingId) = sender"
    "l_isActive (listings (mkt w) listingId)"
    "erc20_transfer (self w) sender (l_amount (listings (mkt w) listingId)) (tok w) = Inr (tok w')"
    "listings (mkt w') = (listings (mkt w))(listingId :=
        (listings (mkt w) listingId)\<lparr>l_isActive := False, l_amount := 0\<rparr>)"
    "nextListingId (mkt w') = nextListingId (mkt w)"
    "platformFee (mkt w') = platformFee (mkt w)"
    "owner (mkt w') = owner (mkt w)"
    "\<not> m_entered (mkt w')"
    "self w' = self w" "acceptsValue w' = acceptsValue w" "eth w' = eth w" "calls w' = calls w"
proof -
  from assms obtain w1 where l: "nonReentrantBefore w = Inr w1"
    and c: "(let listing = listings (mkt w1) listingId in
     if \<not> l_seller listing = sender then Inl (Revert ''Not listing owner'')
     else if \<not> l_isActive listing then Inl (Revert ''Listing not active'')
     else
       let remainingAmount = l_amount listing;
           w2 = w1\<lparr>mkt := (mkt w1)\<lparr>listings := (listings (mkt w1))(listingId :=
                  listing\<lparr>l_isActive := False, l_amount := 0\<rparr>)\<rparr>\<rparr>
       in
       bnd (transfer (self w2) sender remainingAmount (tok w2)) (\<lambda>t'.
       Inr (nonReentrantAfter (w2\<lparr>tok := t'\<rparr>)))) = Inr w'"
    unfolding cancelListing_def bnd_eq_Inr by blast
  note L = nonReentrantBefore_Inr [OF l]
  have m: "listings (mkt w1) = listings (mkt w)" using L(2) by simp
  from c have g: "l_seller (listings (mkt w) listingId) = sender" "l_isActive (listings (mkt w) listingId)"
    unfolding Let_def m by (auto split: if_splits)
  with c obtain t' where tr: "transfer (self w1) sender (l_amount (listings (mkt w) listingId)) (tok w1) = Inr t'"
    and w': "w' = nonReentrantAfter (w1\<lparr>mkt := (mkt w1)\<lparr>listings := (listings (mkt w))(listingId :=
                  (listings (mkt w) listingId)\<lparr>l_isActive := False, l_amount := 0\<rparr>)\<rparr>, tok := t'\<rparr>)"
    unfolding Let_def m by (auto simp: bnd_eq_Inr)
  show "\<not> m_entered (mkt w)" by (rule L(1))
  show "l_seller (listings (mkt w) listingId) = sender" "l_isActive (listings (mkt w) listingId)"
    by (rule g)+
  show "erc20_transfer (self w) sender (l_amount (listings (mkt w) listingId)) (tok w) = Inr (tok w')"
    using tr w' L(3,5) by (simp add: transfer_def nonReentrantAfter_def)
  show "listings (mkt w') = (listings (mkt w))(listingId :=
        (listings (mkt w) listingId)\<lparr>l_isActive := False, l_amount := 0\<rparr>)"
    "nextListingId (mkt w') = nextListingId (mkt w)"
    "platformFee (mkt w') = platformFee (mkt w)"
    "owner (mkt w') = owner (mkt w)"
    "\<not> m_entered (mkt w')"
    "self w' = self w" "acceptsValue w' = acceptsValue w" "eth w' = eth w" "calls w' = calls w"
    using w' L(2-7) by (simp_all add: nonReentrantAfter_def)
qed

text \<open>Every transaction signed by an account preserves \<open>winv\<close>.\<close>

lemma winvD:
  assumes "winv w"
  shows "tinv (tok w)" "supply_ok (tok w)" "\<not> m_entered (mkt w)" "platformFee (mkt w) \<le> 500"
    "\<forall>x. allowances (tok w) (self w) x = 0"
    "escrow (mkt w) \<le> unat (balances (tok w) (self w))"
    "\<And>i. nextListingId (mkt w) \<le> i \<Longrightarrow> \<not> l_isActive (listings (mkt w) i)"
    "\<And>i. l_isActive (listings (mkt w) i) \<Longrightarrow> is_account (self w) (l_seller (listings (mkt w) i))"
    "balances (tok w) 0 = 0"
  using assms by (simp_all add: winv_def tinv_def)

lemma winvI:
  assumes "tinv (tok w)" "\<not> m_entered (mkt w)" "platformFee (mkt w) \<le> 500"
    "\<forall>x. allowances (tok w) (self w) x = 0"
    "escrow (mkt w) \<le> unat (balances (tok w) (self w))"
    "\<And>i. nextListingId (mkt w) \<le> i \<Longrightarrow> \<not> l_isActive (listings (mkt w) i)"
    "\<And>i. l_isActive (listings (mkt w) i) \<Longrightarrow> is_account (self w) (l_seller (listings (mkt w) i))"
    "balances (tok w) 0 = 0"
  shows "winv w"
  using assms by (simp add: winv_def)

lemma winv_market_cong:
  assumes "winv w" "tok w' = tok w" "self w' = self w" "listings (mkt w') = listings (mkt w)"
    "nextListingId (mkt w') = nextListingId (mkt w)" "\<not> m_entered (mkt w')"
    "platformFee (mkt w') \<le> 500"
  shows "winv w'"
  using assms by (simp add: winv_def escrow_def)

lemma winv_token:
  assumes "winv w" "token_exec opn (tok w) = Inr t'" "token_sender opn \<noteq> self w"
  shows "winv (w\<lparr>tok := t'\<rparr>)"
proof -
  note W = winvD [OF assms(1)]
  from token_exec_custody [OF assms(2) W(1) assms(3) W(5)]
  have c: "\<forall>x. allowances t' (self w) x = 0"
    "unat (balances (tok w) (self w)) \<le> unat (balances t' (self w))"
    "balances t' 0 = balances (tok w) 0"
    by simp_all
  have t: "tinv t'" by (rule token_exec_tinv [OF assms(2) W(1)])
  show ?thesis
    using t c W(3,4,6,9) W(7) W(8) by (intro winvI) simp_all
qed

lemma winv_createListing:
  assumes "winv w" "createListing sender amount price creditId pn now w = Inr (w', lid)"
    "is_account (self w) sender"
  shows "winv w'"
proof -
  note W = winvD [OF assms(1)]
  from assms(2) obtain nid s1 where
    sp: "erc20_spendAllowance sender (self w) amount (tok w) = Inr s1"
    and tr: "erc20_transfer sender (self w) amount s1 = Inr (tok w')"
    and nid: "add256 (nextListingId (mkt w)) 1 = Inr nid"
    and n': "nextListingId (mkt w') = nid"
    and l': "listings (mkt w') = (listings (mkt w))(nextListingId (mkt w) :=
        \<lparr> l_seller = sender, l_amount = amount, l_pricePerCredit = price,
          l_isActive = True, l_createdAt = now, l_creditId = creditId, l_projectName = pn \<rparr>)"
    and pf: "platformFee (mkt w') = platformFee (mkt w)"
    and en: "\<not> m_entered (mkt w')"
    and self: "self w' = self w"
    by (rule createListing_Inr)
  let ?new = "\<lparr> l_seller = sender, l_amount = amount, l_pricePerCredit = price,
          l_isActive = True, l_createdAt = now, l_creditId = creditId, l_projectName = pn \<rparr>"
  note F = erc20_spendAllowance_fields [OF sp]
  note T = erc20_transfer_Inr [OF tr]
  from assms(3) have ne: "sender \<noteq> self w" by (simp add: is_account_def)
  have t1: "tinv s1" using erc20_spendAllowance_tinv(1) [OF sp] W(1) by simp
  then have ok1: "supply_ok s1" by (simp add: tinv_def)
  have 1: "tinv (tok w')" by (rule erc20_transfer_tinv(1) [OF tr t1])
  have "\<forall>x. allowances s1 (self w) x = 0" by (rule erc20_spendAllowance_custody(1) [OF sp W(5)])
  with erc20_update_fields(1) [OF T(3)] have 2: "\<forall>x. allowances (tok w') (self w') x = 0"
    using self by simp
  have bal: "unat (balances (tok w') (self w)) = unat (balances (tok w) (self w)) + unat amount"
    using erc20_update_move(3) [OF T(3) T(1) T(2) ne ok1] F(1) by simp
  have old: "held (listings (mkt w) (nextListingId (mkt w))) = 0"
    using W(7) [of "nextListingId (mkt w)"] by (simp add: held_def)
  have "escrow (mkt w') = escrow ((mkt w)\<lparr>listings := (listings (mkt w))(nextListingId (mkt w) := ?new)\<rparr>)"
    using l' by (intro escrow_cong) simp
  with escrow_upd [of "mkt w" "nextListingId (mkt w)" ?new] old
  have "escrow (mkt w') = escrow (mkt w) + unat amount" by (simp add: held_def)
  with bal W(6) self have 3: "escrow (mkt w') \<le> unat (balances (tok w') (self w'))" by simp
  from nid have "unat nid = unat (nextListingId (mkt w)) + unat (1::uint256)" by (rule add256_unat)
  then have lt: "nextListingId (mkt w) < nid" by (simp add: word_less_nat_alt)
  have 4: "\<not> l_isActive (listings (mkt w') i)" if "nextListingId (mkt w') \<le> i" for i
  proof -
    from that n' lt have "nextListingId (mkt w) < i" by simp
    then have "i \<noteq> nextListingId (mkt w)" "nextListingId (mkt w) \<le> i" by simp_all
    with W(7) [of i] l' show ?thesis by simp
  qed
  have 5: "is_account (self w') (l_seller (listings (mkt w') i))" if "l_isActive (listings (mkt w') i)" for i
    using that l' assms(3) self W(8) [of i] by (cases "i = nextListingId (mkt w)") simp_all
  have 6: "balances (tok w') 0 = 0"
    using erc20_update_balance_eq [OF T(3), of 0] F(1) W(9) by simp
  from 1 en pf W(4) 2 3 4 5 6 show ?thesis by (intro winvI) simp_all
qed

lemma active_amount_escrowed:
  assumes "winv w" "l_isActive (listings (mkt w) i)"
  shows "unat (l_amount (listings (mkt w) i)) \<le> unat (balances (tok w) (self w))"
  using held_le_escrow [of "mkt w" i] winvD(6) [OF assms(1)] assms(2) by (simp add: held_def)

lemma winv_buyCredits:
  assumes "winv w" "buyCredits sender val listingId amount now w = Inr w'"
    "is_account (self w) sender"
  shows "winv w'"
proof -
  note W = winvD [OF assms(1)]
  let ?l = "listings (mkt w) listingId"
  let ?l' = "?l\<lparr> l_amount := l_amount ?l - amount,
            l_isActive := (if l_amount ?l - amount = 0 then False else l_isActive ?l) \<rparr>"
  from assms(2) obtain totalPrice fee sellerAmount where
    act: "l_isActive ?l" and am: "amount \<le> l_amount ?l"
    and self: "self w' = self w"
    and tr: "erc20_transfer (self w) sender amount (tok w) = Inr (tok w')"
    and l': "listings (mkt w') = (listings (mkt w))(listingId := ?l')"
    and n': "nextListingId (mkt w') = nextListingId (mkt w)"
    and pf: "platformFee (mkt w') = platformFee (mkt w)"
    and en: "\<not> m_entered (mkt w')"
    by (rule buyCredits_summary)
  note T = erc20_transfer_Inr [OF tr]
  from assms(3) have ne: "self w \<noteq> sender" by (auto simp: is_account_def)
  have 1: "tinv (tok w')" by (rule erc20_transfer_tinv(1) [OF tr W(1)])
  have 2: "\<forall>x. allowances (tok w') (self w') x = 0"
    using erc20_update_fields(1) [OF T(3)] W(5) self by simp
  have bal: "unat (balances (tok w') (self w)) + unat amount = unat (balances (tok w) (self w))"
    by (rule erc20_update_move(2) [OF T(3) T(1) T(2) ne W(2)])
  from am have sub: "unat (l_amount ?l - amount) + unat amount = unat (l_amount ?l)"
    by (simp add: unat_sub word_le_nat_alt)
  have h: "held ?l' + unat amount = held ?l"
    using act sub by (simp add: held_def unat_eq_0)
  have "escrow (mkt w') = escrow ((mkt w)\<lparr>listings := (listings (mkt w))(listingId := ?l')\<rparr>)"
    using l' by (intro escrow_cong) simp
  with escrow_upd [of "mkt w" listingId ?l'] h
  have "escrow (mkt w') + unat amount = escrow (mkt w)" by simp
  with bal W(6) self have 3: "escrow (mkt w') \<le> unat (balances (tok w') (self w'))" by simp
  have 4: "\<not> l_isActive (listings (mkt w') i)" if "nextListingId (mkt w') \<le> i" for i
    using that n' l' W(7) [of i] by (cases "i = listingId") simp_all
  have 5: "is_account (self w') (l_seller (listings (mkt w') i))" if "l_isActive (listings (mkt w') i)" for i
    using that l' self W(8) [of i] by (cases "i = listingId") (simp_all split: if_splits)
  have 6: "balances (tok w') 0 = 0"
    using erc20_update_balance_eq [OF T(3), of 0] W(9) by simp
  from 1 en pf W(4) 2 3 4 5 6 show ?thesis by (intro winvI) simp_all
qed

lemma winv_cancelListing:
  assumes "winv w" "cancelListing sender listingId w = Inr w'"
  shows "winv w'"
proof -
  note W = winvD [OF assms(1)]
  note C = cancelListing_Inr [OF assms(2)]
  let ?l = "listings (mkt w) listingId"
  let ?l' = "?l\<lparr>l_isActive := False, l_amount := 0\<rparr>"
  note T = erc20_transfer_Inr [OF C(4)]
  from W(8) [OF C(3)] C(2) have ne: "self w \<noteq> sender" by (auto simp: is_account_def)
  have 1: "tinv (tok w')" by (rule erc20_transfer_tinv(1) [OF C(4) W(1)])
  have 2: "\<forall>x. allowances (tok w') (self w') x = 0"
    using erc20_update_fields(1) [OF T(3)] W(5) C(10) by simp
  have bal: "unat (balances (tok w') (self w)) + unat (l_amount ?l) = unat (balances (tok w) (self w))"
    by (rule erc20_update_move(2) [OF T(3) T(1) T(2) ne W(2)])
  have h: "held ?l' + unat (l_amount ?l) = held ?l"
    using C(3) by (simp add: held_def)
  have "escrow (mkt w') = escrow ((mkt w)\<lparr>listings := (listings (mkt w))(listingId := ?l')\<rparr>)"
    using C(5) by (intro escrow_cong) simp
  with escrow_upd [of "mkt w" listingId ?l'] h
  have "escrow (mkt w') + unat (l_amount ?l) = escrow (mkt w)" by simp
  with bal W(6) C(10) have 3: "escrow (mkt w') \<le> unat (balances (tok w') (self w'))" by simp
  have 4: "\<not> l_isActive (listings (mkt w') i)" if "nextListingId (mkt w') \<le> i" for i
    using that C(5,6) W(7) [of i] by (cases "i = listingId") simp_all
  have 5: "is_account (self w') (l_seller (listings (mkt w') i))" if "l_isActive (listings (mkt w') i)" for i
    using that C(5,10) W(8) [of i] by (cases "i = listingId") simp_all
  have 6: "balances (tok w') 0 = 0"
    using erc20_update_balance_eq [OF T(3), of 0] W(9) by simp
  from 1 C(9) C(7) W(4) 2 3 4 5 6 show ?thesis by (intro winvI) simp_all
qed

lemma call_value_fields:
  assumes "call_value to n w = (ok, w')"
  shows "tok w' = tok w" "mkt w' = mkt w" "self w' = self w" "acceptsValue w' = acceptsValue w"
  using assms by (auto simp: call_value_def split: if_splits)

lemma withdrawFees_fields:
  assumes "withdrawFees sender w = Inr w'"
  shows "tok w' = tok w" "mkt w' = mkt w" "self w' = self w" "acceptsValue w' = acceptsValue w"
proof -
  from assms obtain ok where "call_value (owner (mkt w)) (eth w (self w)) w = (ok, w')"
    by (auto simp: withdrawFees_def bnd_eq_Inr Let_def split: if_splits prod.splits)
  then show "tok w' = tok w" "mkt w' = mkt w" "self w' = self w" "acceptsValue w' = acceptsValue w"
    by (rule call_value_fields)+
qed

lemma updateListingPrice_Inr:
  assumes "updateListingPrice sender listingId newPrice w = Inr w'"
  shows "l_seller (listings (mkt w) listingId) = sender" "l_isActive (listings (mkt w) listingId)"
    "w' = w\<lparr>mkt := (mkt w)\<lparr>listings := (listings (mkt w))(listingId :=
             (listings (mkt w) listingId)\<lparr>l_pricePerCredit := newPrice\<rparr>)\<rparr>\<rparr>"
  using assms by (auto simp: updateListingPrice_def Let_def split: if_splits)

lemma winv_updateListingPrice:
  assumes "winv w" "updateListingPrice sender listingId newPrice w = Inr w'"
  shows "winv w'"
proof -
  note W = winvD [OF assms(1)]
  note U = updateListingPrice_Inr [OF assms(2)]
  let ?l = "listings (mkt w) listingId"
  let ?l' = "?l\<lparr>l_pricePerCredit := newPrice\<rparr>"
  have l': "listings (mkt w') = (listings (mkt w))(listingId := ?l')"
    and f: "tok w' = tok w" "self w' = self w" "nextListingId (mkt w') = nextListingId (mkt w)"
      "platformFee (mkt w') = platformFee (mkt w)" "m_entered (mkt w') = m_entered (mkt w)"
    using U(3) by simp_all
  have "escrow (mkt w') = escrow ((mkt w)\<lparr>listings := (listings (mkt w))(listingId := ?l')\<rparr>)"
    using l' by (intro escrow_cong) simp
  moreover have "held ?l' = held ?l" by (simp add: held_def)
  ultimately have e: "escrow (mkt w') = escrow (mkt w)"
    using escrow_upd [of "mkt w" listingId ?l'] by simp
  have 4: "\<not> l_isActive (listings (mkt w') i)" if "nextListingId (mkt w') \<le> i" for i
    using that l' f(3) W(7) [of i] by (cases "i = listingId") simp_all
  have 5: "is_account (self w') (l_seller (listings (mkt w') i))" if "l_isActive (listings (mkt w') i)" for i
    using that l' f(2) W(8) [of i] by (cases "i = listingId") simp_all
  from W(1,3,4,5,6,9) e f 4 5 show ?thesis by (intro winvI) simp_all
qed

lemma world_exec_winv:
  assumes "winv w" "world_exec opn w = Inr w'" "is_account (self w) (op_sender opn)"
  shows "winv w'"
proof (cases opn)
  case (Token t)
  with assms(2) obtain t' where t': "token_exec t (tok w) = Inr t'" and w': "w' = w\<lparr>tok := t'\<rparr>"
    by (auto simp: bnd_eq_Inr)
  from Token assms(3) have "token_sender t \<noteq> self w" by (simp add: is_account_def)
  with assms(1) t' w' show ?thesis by (simp add: winv_token)
next
  case (CreateListing sender amount price creditId pn now)
  with assms(2) obtain lid where "createListing sender amount price creditId pn now w = Inr (w', lid)"
    by (auto simp: bnd_eq_Inr)
  with assms(1,3) CreateListing show ?thesis by (auto intro: winv_createListing)
next
  case (BuyCredits sender val listingId amount now)
  with assms show ?thesis by (auto intro: winv_buyCredits)
next
  case (CancelListing sender listingId)
  with assms show ?thesis by (auto intro: winv_cancelListing)
next
  case (UpdateListingPrice sender listingId newPrice)
  with assms show ?thesis by (auto intro: winv_updateListingPrice)
next
  case (UpdatePlatformFee sender newFee)
  with assms(2) have "newFee \<le> 500" "w' = w\<lparr>mkt := (mkt w)\<lparr>platformFee := newFee\<rparr>\<rparr>"
    by (auto simp: updatePlatformFee_def bnd_eq_Inr split: if_splits)
  with assms(1) show ?thesis by (intro winv_market_cong [OF assms(1)]) (simp_all add: winv_def)
next
  case (WithdrawFees sender)
  with assms(2) have "withdrawFees sender w = Inr w'" by simp
  from withdrawFees_fields [OF this] assms(1) show ?thesis
    by (intro winv_market_cong [OF assms(1)]) (simp_all add: winv_def)
next
  case (TransferOwnership sender newOwner)
  with assms(2) have "w' = w\<lparr>mkt := (mkt w)\<lparr>owner := newOwner\<rparr>\<rparr>"
    by (auto simp: transferOwnership_def bnd_eq_Inr split: if_splits)
  with assms(1) show ?thesis by (intro winv_market_cong [OF assms(1)]) (simp_all add: winv_def)
next
  case (RenounceOwnership sender)
  with assms(2) have "w' = w\<lparr>mkt := (mkt w)\<lparr>owner := 0\<rparr>\<rparr>"
    by (auto simp: renounceOwnership_def bnd_eq_Inr split: if_splits)
  with assms(1) show ?thesis by (intro winv_market_cong [OF assms(1)]) (simp_all add: winv_def)
qed

lemma world_exec_self:
  assumes "world_exec opn w = Inr w'"
  shows "self w' = self w \<and> acceptsValue w' = acceptsValue w"
proof (cases opn)
  case (Token t)
  with assms show ?thesis by (auto simp: bnd_eq_Inr)
next
  case (CreateListing sender amount price creditId pn now)
  with assms obtain lid where c: "createListing sender amount price creditId pn now w = Inr (w', lid)"
    by (auto simp: bnd_eq_Inr)
  show ?thesis by (rule createListing_Inr [OF c]) simp
next
  case (BuyCredits sender val listingId amount now)
  with assms have b: "buyCredits sender val listingId amount now w = Inr w'" by simp
  show ?thesis by (rule buyCredits_summary [OF b]) simp
next
  case (CancelListing sender listingId)
  with assms have "cancelListing sender listingId w = Inr w'" by simp
  from cancelListing_Inr(10,11) [OF this] show ?thesis by simp
next
  case (UpdateListingPrice sender listingId newPrice)
  with assms have "updateListingPrice sender listingId newPrice w = Inr w'" by simp
  from updateListingPrice_Inr(3) [OF this] show ?thesis by simp
next
  case (UpdatePlatformFee sender newFee)
  with assms show ?thesis by (auto simp: updatePlatformFee_def bnd_eq_Inr split: if_splits)
next
  case (WithdrawFees sender)
  with assms have "withdrawFees sender w = Inr w'" by simp
  from withdrawFees_fields(3,4) [OF this] show ?thesis by simp
next
  case (TransferOwnership sender newOwner)
  with assms show ?thesis by (auto simp: transferOwnership_def bnd_eq_Inr split: if_splits)
next
  case (RenounceOwnership sender)
  with assms show ?thesis by (auto simp: renounceOwnership_def bnd_eq_Inr split: if_splits)
qed

lemma world_step_self: "self (world_step w opn) = self w"
  using world_exec_self [of opn w] by (auto simp: world_step_def split: sum.splits)

lemma world_run_self: "self (world_run w ops) = self w"
  by (induction ops arbitrary: w) (simp_all add: world_step_self)

lemma world_step_winv:
  "winv w \<Longrightarrow> is_account (self w) (op_sender opn) \<Longrightarrow> winv (world_step w opn)"
  using world_exec_winv [of w opn] by (auto simp: world_step_def split: sum.splits)

lemma world_run_winv:
  "winv w \<Longrightarrow> signed_ops (self w) ops \<Longrightarrow> winv (world_run w ops)"
proof (induction ops arbitrary: w)
  case Nil
  then show ?case by simp
next
  case (Cons opn ops)
  from Cons.prems have a: "is_account (self w) (op_sender opn)" and b: "signed_ops (self w) ops"
    by (simp_all add: signed_ops_def)
  from Cons.prems(1) a have "winv (world_step w opn)" by (rule world_step_winv)
  moreover from b have "signed_ops (self (world_step w opn)) ops" by (simp add: world_step_self)
  ultimately show ?case using Cons.IH by simp
qed

lemma winv_init: "winv (world_init tokenDeployer marketDeployer marketAddress accepts funds)"
proof -
  have "tinv (token_init tokenDeployer)" by (rule tinv_init)
  then show ?thesis
    by (simp add: winv_def world_init_def escrow_def held_def) (simp add: token_init_def)
qed

lemma self_init [simp]: "self (world_init tokenDeployer marketDeployer marketAddress accepts funds) = marketAddress"
  by (simp add: world_init_def)

lemma reachable_winv:
  assumes "signed_ops marketAddress ops"
  shows "winv (world_run (world_init tokenDeployer marketDeployer marketAddress accepts funds) ops)"
  using assms by (intro world_run_winv winv_init) simp

text \<open>A listing that is closed stays closed.\<close>

lemma world_exec_closed:
  assumes "world_exec opn w = Inr w'" "i < nextListingId (mkt w)" "\<not> l_isActive (listings (mkt w) i)"
  shows "i < nextListingId (mkt w') \<and> \<not> l_isActive (listings (mkt w') i)"
proof (cases opn)
  case (Token t)
  with assms show ?thesis by (auto simp: bnd_eq_Inr)
next
  case (CreateListing sender amount price creditId pn now)
  with assms(1) obtain lid where "createListing sender amount price creditId pn now w = Inr (w', lid)"
    by (auto simp: bnd_eq_Inr)
  then obtain nid where nid: "add256 (nextListingId (mkt w)) 1 = Inr nid"
    and n': "nextListingId (mkt w') = nid"
    and l': "listings (mkt w') = (listings (mkt w))(nextListingId (mkt w) :=
        \<lparr> l_seller = sender, l_amount = amount, l_pricePerCredit = price,
          l_isActive = True, l_createdAt = now, l_creditId = creditId, l_projectName = pn \<rparr>)"
    by (rule createListing_Inr)
  from nid have "unat nid = unat (nextListingId (mkt w)) + unat (1::uint256)" by (rule add256_unat)
  then have "nextListingId (mkt w) < nid" by (simp add: word_less_nat_alt)
  with assms(2) have "i < nid" by simp
  moreover from assms(2) have "i \<noteq> nextListingId (mkt w)" by auto
  ultimately show ?thesis using n' l' assms(3) by simp
next
  case (BuyCredits sender val listingId amount now)
  with assms(1) have b: "buyCredits sender val listingId amount now w = Inr w'" by simp
  show ?thesis
  proof (rule buyCredits_summary [OF b])
    fix totalPrice fee sellerAmount
    assume act: "l_isActive (listings (mkt w) listingId)"
      and l': "listings (mkt w') = (listings (mkt w))(listingId :=
        (listings (mkt w) listingId)
          \<lparr> l_amount := l_amount (listings (mkt w) listingId) - amount,
            l_isActive := (if l_amount (listings (mkt w) listingId) - amount = 0 then False
                           else l_isActive (listings (mkt w) listingId)) \<rparr>)"
      and n': "nextListingId (mkt w') = nextListingId (mkt w)"
    from act assms(3) have "i \<noteq> listingId" by auto
    with l' n' assms(2,3) show ?thesis by simp
  qed
next
  case (CancelListing sender listingId)
  with assms(1) have "cancelListing sender listingId w = Inr w'" by simp
  from cancelListing_Inr(5,6) [OF this] assms(2,3) show ?thesis
    by (cases "i = listingId") simp_all
next
  case (UpdateListingPrice sender listingId newPrice)
  with assms(1) have "updateListingPrice sender listingId newPrice w = Inr w'" by simp
  from updateListingPrice_Inr(3) [OF this] assms(2,3) show ?thesis
    by (cases "i = listingId") simp_all
next
  case (UpdatePlatformFee sender newFee)
  with assms show ?thesis by (auto simp: updatePlatformFee_def bnd_eq_Inr split: if_splits)
next
  case (WithdrawFees sender)
  with assms(1) have "withdrawFees sender w = Inr w'" by simp
  from withdrawFees_fields(2) [OF this] assms(2,3) show ?thesis by simp
next
  case (TransferOwnership sender newOwner)
  with assms show ?thesis by (auto simp: transferOwnership_def bnd_eq_Inr split: if_splits)
next
  case (RenounceOwnership sender)
  with assms show ?thesis by (auto simp: renounceOwnership_def bnd_eq_Inr split: if_splits)
qed

lemma world_run_closed:
  "i < nextListingId (mkt w) \<Longrightarrow> \<not> l_isActive (listings (mkt w) i) \<Longrightarrow>
     i < nextListingId (mkt (world_run w ops)) \<and> \<not> l_isActive (listings (mkt (world_run w ops)) i)"
proof (induction ops arbitrary: w)
  case Nil
  then show ?case by simp
next
  case (Cons opn ops)
  have "i < nextListingId (mkt (world_step w opn)) \<and> \<not> l_isActive (listings (mkt (world_step w opn)) i)"
    using world_exec_closed [of opn w _ i] Cons.prems
    by (auto simp: world_step_def split: sum.splits)
  with Cons.IH [of "world_step w opn"] show ?case by simp
qed

text \<open>In a world that satisfies \<open>winv\<close>, the escrow is there when a listing needs it.\<close>

lemma erc20_transfer_succeeds:
  assumes "frm \<noteq> 0" "to \<noteq> 0" "val \<le> balances s frm"
  shows "\<exists>s'. erc20_transfer frm to val s = Inr s'"
  using assms by (simp add: erc20_transfer_def erc20_update_def)

lemma custodian_nonzero:
  assumes "winv w" "l_isActive (listings (mkt w) i)" "0 < l_amount (listings (mkt w) i)"
  shows "self w \<noteq> 0"
proof
  assume "self w = 0"
  with winvD(9) [OF assms(1)] have "unat (balances (tok w) (self w)) = 0" by simp
  with active_amount_escrowed [OF assms(1,2)] have "unat (l_amount (listings (mkt w) i)) = 0" by simp
  with assms(3) show False by (simp add: unat_eq_0)
qed

lemma cancelListing_succeeds:
  assumes "winv w" "l_isActive (listings (mkt w) listingId)"
    "0 < l_amount (listings (mkt w) listingId)"
  shows "\<exists>w'. cancelListing (l_seller (listings (mkt w) listingId)) listingId w = Inr w'"
proof -
  note W = winvD [OF assms(1)]
  let ?l = "listings (mkt w) listingId"
  from W(8) [OF assms(2)] have s: "l_seller ?l \<noteq> 0" by (simp add: is_account_def)
  have z: "self w \<noteq> 0" by (rule custodian_nonzero [OF assms])
  from active_amount_escrowed [OF assms(1,2)] have "l_amount ?l \<le> balances (tok w) (self w)"
    by (simp add: word_le_nat_alt)
  from erc20_transfer_succeeds [OF z s this]
  obtain t' where "erc20_transfer (self w) (l_seller ?l) (l_amount ?l) (tok w) = Inr t'" ..
  with W(3) assms(2) show ?thesis
    by (simp add: cancelListing_def nonReentrantBefore_def Let_def transfer_def)
qed

lemma cancelListing_inactive:
  assumes "\<not> m_entered (mkt w)" "\<not> l_isActive (listings (mkt w) listingId)"
  shows "cancelListing (l_seller (listings (mkt w) listingId)) listingId w = Inl (Revert ''Listing not active'')"
  using assms by (simp add: cancelListing_def nonReentrantBefore_def Let_def)

lemma cancelListing_not_owner:
  assumes "\<not> m_entered (mkt w)" "sender \<noteq> l_seller (listings (mkt w) listingId)"
  shows "cancelListing sender listingId w = Inl (Revert ''Not listing owner'')"
  using assms by (auto simp: cancelListing_def nonReentrantBefore_def Let_def)

lemmas world_scenarios = scenario_eval sale_ops_def market_sold_out_def market_sold_partial_def
  overflow_ops_def dust_ops_def

lemma bnd_eq_Inl: "bnd m f = Inl e \<longleftrightarrow> m = Inl e \<or> (\<exists>x. m = Inr x \<and> f x = Inl e)"
  by (cases m) simp_all

lemma eth_move_zero [simp]: "eth_move frm to 0 e = e"
  by (simp add: eth_move_def Let_def)

lemma buy_price_zero:
  assumes "unat amount * unat price < 10 ^ 18"
  shows "buy_price amount price feeRate = Inr (0, 0, 0)"
proof -
  from assms have lt: "unat amount * unat price < 2 ^ 256" by simp
  then have m: "mul256 amount price = Inr (amount * price)" by (simp add: mul256_def)
  from lt have "unat (amount * price) = unat amount * unat price"
    by (simp add: unat_mult_lem [THEN iffD1])
  with assms have "unat ((amount * price) div 10 ^ 18) = 0"
    by (simp add: unat_div)
  then have z: "(amount * price) div 10 ^ 18 = 0" by (simp add: unat_eq_0)
  have m0: "mul256 0 feeRate = Inr 0" by (simp add: mul256_def)
  have d0: "(0::uint256) div 10000 = 0" by simp
  have s0: "sub256 0 0 = Inr 0" by (simp add: sub256_def)
  show ?thesis by (simp only: buy_price_def m bnd_Inr Let_def z m0 d0 s0)
qed

lemma buy_price_defined:
  assumes "unat amount * unat price < 2 ^ 256" "feeRate \<le> 500"
  shows "\<exists>totalPrice fee sellerAmount. buy_price amount price feeRate = Inr (totalPrice, fee, sellerAmount)"
proof -
  let ?p = "amount * price"
  let ?tp = "?p div 10 ^ 18"
  from assms(1) have m: "mul256 amount price = Inr ?p" by (simp add: mul256_def)
  have "unat (10 ^ 18 :: uint256) = 10 ^ 18" by simp
  then have tp: "unat ?tp = unat ?p div 10 ^ 18" by (simp only: unat_div)
  have f: "unat feeRate \<le> 500" using assms(2) by (simp add: word_le_nat_alt)
  have "unat ?tp * unat feeRate \<le> unat ?tp * 500" using f by simp
  also have "\<dots> \<le> unat ?tp * 10 ^ 18" by simp
  also have "\<dots> \<le> unat ?p" unfolding tp by simp
  also have "\<dots> < 2 ^ LENGTH(256)" by (rule unsigned_less)
  finally have lt: "unat ?tp * unat feeRate < 2 ^ 256" by simp
  then have m2: "mul256 ?tp feeRate = Inr (?tp * feeRate)" by (simp add: mul256_def)
  from lt have q: "unat (?tp * feeRate) = unat ?tp * unat feeRate"
    by (simp add: unat_mult_lem [THEN iffD1])
  have "unat (10000 :: uint256) = 10000" by simp
  then have "unat ((?tp * feeRate) div 10000) = unat (?tp * feeRate) div 10000" by (simp only: unat_div)
  also have "\<dots> \<le> unat ?tp * 10000 div 10000" unfolding q using f by (intro div_le_mono) simp
  finally have "(?tp * feeRate) div 10000 \<le> ?tp" by (simp add: word_le_nat_alt)
  then have s: "sub256 ?tp ((?tp * feeRate) div 10000) = Inr (?tp - (?tp * feeRate) div 10000)"
    by (simp add: sub256_def)
  have "buy_price amount price feeRate
          = Inr (?tp, (?tp * feeRate) div 10000, ?tp - (?tp * feeRate) div 10000)"
    by (simp only: buy_price_def m bnd_Inr Let_def m2 s)
  then show ?thesis by blast
qed

lemma buyCredits_succeeds:
  assumes inv: "winv w" and acc: "is_account (self w) sender"
    and act: "l_isActive (listings (mkt w) listingId)" and pos: "0 < amount"
    and am: "amount \<le> l_amount (listings (mkt w) listingId)"
    and ne: "sender \<noteq> l_seller (listings (mkt w) listingId)"
    and bp: "buy_price amount (l_pricePerCredit (listings (mkt w) listingId)) (platformFee (mkt w))
               = Inr (totalPrice, fee, sellerAmount)"
    and le: "totalPrice \<le> val" and funds: "unat val \<le> eth w sender"
    and as: "acceptsValue w (l_seller (listings (mkt w) listingId))"
    and ab: "totalPrice < val \<longrightarrow> acceptsValue w sender"
    and tv: "unat (totalVolume (mkt w)) + unat totalPrice < 2 ^ 256"
    and tt: "unat (totalTrades (mkt w)) + 1 < 2 ^ 256"
  shows "\<exists>w'. buyCredits sender val listingId amount now w = Inr w'"
proof -
  note W = winvD [OF inv]
  note B = buy_price_Inr [OF bp]
  let ?seller = "l_seller (listings (mkt w) listingId)"
  from acc have sn: "sender \<noteq> 0" "sender \<noteq> self w" by (simp_all add: is_account_def)
  from W(8) [OF act] have sel: "?seller \<noteq> self w" by (simp add: is_account_def)
  from funds obtain w0 where r: "receive_value sender val w = Inr w0"
    by (simp add: receive_value_def)
  note R = receive_value_Inr [OF r]
  from W(3) R(4) obtain w1 where l: "nonReentrantBefore w0 = Inr w1"
    by (simp add: nonReentrantBefore_def)
  note L = nonReentrantBefore_Inr [OF l]
  have m1: "listings (mkt w1) = listings (mkt w)" "platformFee (mkt w1) = platformFee (mkt w)"
    "totalVolume (mkt w1) = totalVolume (mkt w)" "totalTrades (mkt w1) = totalTrades (mkt w)"
    using L(2) R(4) by simp_all
  from am m1(1) obtain w2 where u: "buy_updateListing listingId amount w1 = Inr w2"
    by (simp add: buy_updateListing_def sub256_def Let_def)
  note U = buy_updateListing_Inr [OF u]
  have m2: "l_seller (listings (mkt w2) listingId) = ?seller"
    "totalVolume (mkt w2) = totalVolume (mkt w)" "totalTrades (mkt w2) = totalTrades (mkt w)"
    using U(2) m1 by simp_all
  from pos am have "0 < l_amount (listings (mkt w) listingId)" by (simp add: word_gt_0) (metis word_le_0_iff)
  then have z: "self w \<noteq> 0" by (rule custodian_nonzero [OF inv act])
  from active_amount_escrowed [OF inv act] am have "amount \<le> balances (tok w) (self w)"
    by (simp add: word_le_nat_alt)
  from erc20_transfer_succeeds [OF z sn(1) this]
  obtain t' where "erc20_transfer (self w) sender amount (tok w) = Inr t'" ..
  with U(3,5) L(3,5) R(3,5) obtain w3 where t: "buy_transferTokens sender amount w2 = Inr w3"
    by (simp add: buy_transferTokens_def transfer_def)
  note T = buy_transferTokens_Inr [OF t]
  have f3: "l_seller (listings (mkt w3) listingId) = ?seller" "acceptsValue w3 = acceptsValue w"
    "self w3 = self w" "eth w3 = eth_move sender (self w) (unat val) (eth w)"
    "totalVolume (mkt w3) = totalVolume (mkt w)" "totalTrades (mkt w3) = totalTrades (mkt w)"
    using T(2-5) U(4-6) L(4-6) R(2,5,6) m2 by simp_all
  from le have d: "unat totalPrice \<le> unat val" "unat (val - totalPrice) = unat val - unat totalPrice"
    by (simp_all add: unat_sub word_le_nat_alt)
  have sa: "unat sellerAmount \<le> unat totalPrice" using B(5) by simp
  have e3: "eth w3 (self w) = eth w (self w) + unat val"
    using f3(4) sn(2) by (simp add: eth_move_apply)
  with sa d(1) as f3(1-3) obtain w4 where p: "buy_paySeller listingId sellerAmount w3 = Inr w4"
    by (simp add: buy_paySeller_def call_value_def)
  note P = call_value_True [OF buy_paySeller_Inr [OF p]]
  have f4: "acceptsValue w4 = acceptsValue w" "self w4 = self w"
    "eth w4 (self w) = eth w (self w) + unat val - unat sellerAmount"
    "l_seller (listings (mkt w4) listingId) = ?seller"
    "totalVolume (mkt w4) = totalVolume (mkt w)" "totalTrades (mkt w4) = totalTrades (mkt w)"
    using P(3,6,7,8) f3 e3 sel by (simp_all add: eth_move_apply)
  have "unat val - unat totalPrice \<le> eth w4 (self w)" using f4(3) sa d(1) by simp
  with ab d(2) f4(1,2) obtain w5 where f: "buy_refund sender val totalPrice w4 = Inr w5"
    by (cases "totalPrice < val") (simp_all add: buy_refund_def call_value_def)
  from buy_refund_Inr [OF f]
  have f5: "mkt w5 = mkt w4"
    using call_value_True(6) [of sender "unat (val - totalPrice)" w4 w5] by auto
  have "unat (1::uint256) = 1" by simp
  with tv tt f5 f4(5,6) obtain w6 where
    rt: "buy_recordTrade sender listingId amount totalPrice now w5 = Inr w6"
    by (simp add: buy_recordTrade_def Let_def add256_def)
  have "buyCredits sender val listingId amount now w = Inr (nonReentrantAfter w6)"
    using act pos am ne bp le
    by (simp add: buyCredits_def r l Let_def m1 u t p f rt)
  then show ?thesis ..
qed

lemma buyCredits_eth:
  assumes "buyCredits sender val listingId amount now w = Inr w'"
    and bp: "buy_price amount (l_pricePerCredit (listings (mkt w) listingId)) (platformFee (mkt w))
               = Inr (totalPrice, fee, sellerAmount)"
  shows "eth w' = eth_move (self w) sender (unat val - unat totalPrice)
                    (eth_move (self w) (l_seller (listings (mkt w) listingId)) (unat sellerAmount)
                       (eth_move sender (self w) (unat val) (eth w)))"
    and "\<not> totalPrice < val \<Longrightarrow>
           calls w' = calls w @ [\<lparr> ec_to = l_seller (listings (mkt w) listingId),
                                    ec_value = unat sellerAmount,
                                    ec_market = (mkt w')\<lparr>m_entered := True,
                                                  userTrades := userTrades (mkt w),
                                                  totalVolume := totalVolume (mkt w),
                                                  totalTrades := totalTrades (mkt w)\<rparr>,
                                    ec_token = tok w' \<rparr>]"
proof -
  let ?seller = "l_seller (listings (mkt w) listingId)"
  from assms(1) obtain w0 w1 w2 w3 w4 w5 w6 totalPrice' fee' sellerAmount' where
    r: "receive_value sender val w = Inr w0"
    and l: "nonReentrantBefore w0 = Inr w1"
    and bp': "buy_price amount (l_pricePerCredit (listings (mkt w) listingId)) (platformFee (mkt w))
       = Inr (totalPrice', fee', sellerAmount')"
    and le': "totalPrice' \<le> val"
    and u: "buy_updateListing listingId amount w1 = Inr w2"
    and t: "buy_transferTokens sender amount w2 = Inr w3"
    and p': "buy_paySeller listingId sellerAmount' w3 = Inr w4"
    and f': "buy_refund sender val totalPrice' w4 = Inr w5"
    and rt': "buy_recordTrade sender listingId amount totalPrice' now w5 = Inr w6"
    and w': "w' = nonReentrantAfter w6"
    by (rule buyCredits_Inr)
  from bp bp' have same: "totalPrice' = totalPrice" "sellerAmount' = sellerAmount" by simp_all
  note p = p' [unfolded same] and f = f' [unfolded same] and rt = rt' [unfolded same]
    and le = le' [unfolded same]
  note R = receive_value_Inr [OF r] and L = nonReentrantBefore_Inr [OF l]
    and U = buy_updateListing_Inr [OF u] and T = buy_transferTokens_Inr [OF t]
    and P = call_value_True [OF buy_paySeller_Inr [OF p]]
    and RT = buy_recordTrade_Inr [OF rt]
  have s3: "l_seller (listings (mkt w3) listingId) = ?seller"
    using T(2) U(2) L(2) R(4) by simp
  have self3: "self w3 = self w" using T(4) U(5) L(5) R(5) by simp
  have e3: "eth w3 = eth_move sender (self w) (unat val) (eth w)"
    using T(3) U(4) L(4) R(2) by simp
  have e4: "eth w4 = eth_move (self w) ?seller (unat sellerAmount) (eth w3)"
    using P(3) s3 self3 by simp
  have self4: "self w4 = self w" using P(7) self3 by simp
  from le have d: "unat (val - totalPrice) = unat val - unat totalPrice"
    by (simp add: unat_sub word_le_nat_alt)
  from buy_refund_Inr [OF f]
  have e5: "eth w5 = eth_move (self w) sender (unat val - unat totalPrice) (eth w4)"
  proof
    assume "totalPrice < val \<and> call_value sender (unat (val - totalPrice)) w4 = (True, w5)"
    then show ?thesis using call_value_True(3) [of sender "unat (val - totalPrice)" w4 w5] d self4
      by simp
  next
    assume "\<not> totalPrice < val \<and> w5 = w4"
    with le have "unat val - unat totalPrice = 0" "w5 = w4"
      by (simp_all add: word_le_nat_alt word_less_nat_alt)
    then show ?thesis by simp
  qed
  have e': "eth w' = eth w5" using w' RT(11) by (simp add: nonReentrantAfter_fields)
  show "eth w' = eth_move (self w) sender (unat val - unat totalPrice)
                    (eth_move (self w) ?seller (unat sellerAmount)
                       (eth_move sender (self w) (unat val) (eth w)))"
    using e' e5 e4 e3 by simp
  show "calls w' = calls w @ [\<lparr> ec_to = ?seller, ec_value = unat sellerAmount,
                                 ec_market = (mkt w')\<lparr>m_entered := True,
                                               userTrades := userTrades (mkt w),
                                               totalVolume := totalVolume (mkt w),
                                               totalTrades := totalTrades (mkt w)\<rparr>,
                                 ec_token = tok w' \<rparr>]"
    if "\<not> totalPrice < val"
  proof -
    from that buy_refund_Inr [OF f] have w5: "w5 = w4" by simp
    have m3: "mkt w3 = (mkt w)\<lparr>m_entered := True, listings := listings (mkt w2)\<rparr>"
      using T(2) U(2) L(2) R(4) by simp
    have "mkt w3 = (mkt w')\<lparr>m_entered := True, userTrades := userTrades (mkt w),
                             totalVolume := totalVolume (mkt w), totalTrades := totalTrades (mkt w)\<rparr>"
      using w' RT(4-9) w5 P(6) m3 by (intro market.equality) (simp_all add: nonReentrantAfter_fields)
    moreover have "tok w3 = tok w'" using w' RT(10) w5 P(5) by (simp add: nonReentrantAfter_fields)
    moreover have "calls w' = calls w3 @ [\<lparr> ec_to = ?seller, ec_value = unat sellerAmount,
                                 ec_market = mkt w3, ec_token = tok w3 \<rparr>]"
      using w' RT(14) w5 P(4) s3 by (simp add: nonReentrantAfter_fields)
    moreover have "calls w3 = calls w" using T(6) U(7) L(7) R(7) by simp
    ultimately show ?thesis by simp
  qed
qed

text \<open>The errors that the effects after the payment check can raise.\<close>

lemma erc20_update_Inl: "erc20_update frm to val s = Inl e \<Longrightarrow> e = Panic \<or> e = ERC20InsufficientBalance frm"
  by (auto simp: erc20_update_def bnd_eq_Inl add256_def split: if_splits)

lemma buy_updateListing_Inl: "buy_updateListing listingId amount w = Inl e \<Longrightarrow> e = Panic"
  by (auto simp: buy_updateListing_def bnd_eq_Inl sub256_def Let_def split: if_splits)

lemma buy_transferTokens_Inl: "buy_transferTokens sender amount w = Inl e \<Longrightarrow> e \<noteq> Revert m"
  by (auto simp: buy_transferTokens_def bnd_eq_Inl transfer_def erc20_transfer_def
      dest: erc20_update_Inl split: if_splits)

lemma buy_paySeller_Inl: "buy_paySeller listingId sellerAmount w = Inl e \<Longrightarrow> e = Revert ''Seller payment failed''"
  by (auto simp: buy_paySeller_def split: prod.splits if_splits)

lemma buy_refund_Inl: "buy_refund sender val totalPrice w = Inl e \<Longrightarrow> e = Revert ''Refund failed''"
  by (auto simp: buy_refund_def split: prod.splits if_splits)

lemma buy_recordTrade_Inl: "buy_recordTrade sender listingId amount totalPrice now w = Inl e \<Longrightarrow> e = Panic"
  by (auto simp: buy_recordTrade_def bnd_eq_Inl add256_def Let_def split: if_splits)

lemma settlement_not_insufficient_payment:
  "bnd (buy_updateListing listingId amount w1) (\<lambda>w2.
   bnd (buy_transferTokens sender amount w2) (\<lambda>w3.
   bnd (buy_paySeller listingId sellerAmount w3) (\<lambda>w4.
   bnd (buy_refund sender val totalPrice w4) (\<lambda>w5.
   bnd (buy_recordTrade sender listingId amount totalPrice now w5) (\<lambda>w6.
   Inr (nonReentrantAfter w6)))))) \<noteq> Inl (Revert ''Insufficient payment'')"
proof
  assume "bnd (buy_updateListing listingId amount w1) (\<lambda>w2.
   bnd (buy_transferTokens sender amount w2) (\<lambda>w3.
   bnd (buy_paySeller listingId sellerAmount w3) (\<lambda>w4.
   bnd (buy_refund sender val totalPrice w4) (\<lambda>w5.
   bnd (buy_recordTrade sender listingId amount totalPrice now w5) (\<lambda>w6.
   Inr (nonReentrantAfter w6)))))) = Inl (Revert ''Insufficient payment'')"
  then consider "buy_updateListing listingId amount w1 = Inl (Revert ''Insufficient payment'')"
    | w2 where "buy_transferTokens sender amount w2 = Inl (Revert ''Insufficient payment'')"
    | w3 where "buy_paySeller listingId sellerAmount w3 = Inl (Revert ''Insufficient payment'')"
    | w4 where "buy_refund sender val totalPrice w4 = Inl (Revert ''Insufficient payment'')"
    | w5 where "buy_recordTrade sender listingId amount totalPrice now w5 = Inl (Revert ''Insufficient payment'')"
    unfolding bnd_eq_Inl by blast
  then show False
  proof cases
    case 1
    from buy_updateListing_Inl [OF this] show False by simp
  next
    case 2
    from buy_transferTokens_Inl [OF this, of "''Insufficient payment''"] show False by simp
  next
    case 3
    from buy_paySeller_Inl [OF this] show False by simp
  next
    case 4
    from buy_refund_Inl [OF this] show False by simp
  next
    case 5
    from buy_recordTrade_Inl [OF this] show False by simp
  qed
qed

lemma buyCredits_payment_check:
  assumes "\<not> m_entered (mkt w)" "platformFee (mkt w) \<le> 500"
    and act: "l_isActive (listings (mkt w) listingId)" and pos: "0 < amount"
    and am: "amount \<le> l_amount (listings (mkt w) listingId)"
    and ne: "sender \<noteq> l_seller (listings (mkt w) listingId)"
    and nov: "unat amount * unat (l_pricePerCredit (listings (mkt w) listingId)) < 2 ^ 256"
    and funds: "unat val \<le> eth w sender"
  shows "buyCredits sender val listingId amount now w = Inl (Revert ''Insufficient payment'')
         \<longleftrightarrow> unat val < unat amount * unat (l_pricePerCredit (listings (mkt w) listingId)) div 10 ^ 18"
proof -
  from buy_price_defined [OF nov assms(2)] obtain totalPrice fee sellerAmount where
    bp: "buy_price amount (l_pricePerCredit (listings (mkt w) listingId)) (platformFee (mkt w))
           = Inr (totalPrice, fee, sellerAmount)"
    by blast
  note B = buy_price_Inr [OF bp]
  from funds obtain w0 where r: "receive_value sender val w = Inr w0"
    by (simp add: receive_value_def)
  note R = receive_value_Inr [OF r]
  from assms(1) R(4) obtain w1 where l: "nonReentrantBefore w0 = Inr w1"
    by (simp add: nonReentrantBefore_def)
  note L = nonReentrantBefore_Inr [OF l]
  have m1: "listings (mkt w1) = listings (mkt w)" "platformFee (mkt w1) = platformFee (mkt w)"
    using L(2) R(4) by simp_all
  show ?thesis
  proof (cases "totalPrice \<le> val")
    case True
    then have "buyCredits sender val listingId amount now w =
       bnd (buy_updateListing listingId amount w1) (\<lambda>w2.
       bnd (buy_transferTokens sender amount w2) (\<lambda>w3.
       bnd (buy_paySeller listingId sellerAmount w3) (\<lambda>w4.
       bnd (buy_refund sender val totalPrice w4) (\<lambda>w5.
       bnd (buy_recordTrade sender listingId amount totalPrice now w5) (\<lambda>w6.
       Inr (nonReentrantAfter w6))))))"
      using act pos am ne bp by (simp add: buyCredits_def r l Let_def m1)
    with settlement_not_insufficient_payment
    have "buyCredits sender val listingId amount now w \<noteq> Inl (Revert ''Insufficient payment'')"
      by simp
    moreover from True B(2) have "\<not> unat val < unat amount * unat (l_pricePerCredit (listings (mkt w) listingId)) div 10 ^ 18"
      by (simp add: word_le_nat_alt)
    ultimately show ?thesis by simp
  next
    case False
    then have "buyCredits sender val listingId amount now w = Inl (Revert ''Insufficient payment'')"
      using act pos am ne bp by (simp add: buyCredits_def r l Let_def m1)
    moreover from False B(2) have "unat val < unat amount * unat (l_pricePerCredit (listings (mkt w) listingId)) div 10 ^ 18"
      by (simp add: word_le_nat_alt)
    ultimately show ?thesis by simp
  qed
qed

text \<open>
  What a transaction can change while the lock is held, as a call made by a recipient
  during a payout would find it: no listing's remaining amount, active flag or seller, no
  history of trades, neither counter, and not the lock itself.
\<close>

lemma locked_transaction_frame:
  assumes "m_entered (mkt w)" "world_exec opn w = Inr w'"
  shows "m_entered (mkt w') \<and>
         (\<forall>i. l_amount (listings (mkt w') i) = l_amount (listings (mkt w) i) \<and>
              l_isActive (listings (mkt w') i) = l_isActive (listings (mkt w) i) \<and>
              l_seller (listings (mkt w') i) = l_seller (listings (mkt w) i)) \<and>
         nextListingId (mkt w') = nextListingId (mkt w) \<and>
         userTrades (mkt w') = userTrades (mkt w) \<and>
         totalVolume (mkt w') = totalVolume (mkt w) \<and>
         totalTrades (mkt w') = totalTrades (mkt w)"
proof (cases opn)
  case (Token t)
  with assms show ?thesis by (auto simp: bnd_eq_Inr)
next
  case (CreateListing sender amount price creditId pn now)
  with assms(2) obtain lid where c: "createListing sender amount price creditId pn now w = Inr (w', lid)"
    by (auto simp: bnd_eq_Inr)
  have "\<not> m_entered (mkt w)" by (rule createListing_Inr [OF c])
  with assms(1) show ?thesis by simp
next
  case (BuyCredits sender val listingId amount now)
  with assms(2) have b: "buyCredits sender val listingId amount now w = Inr w'" by simp
  have "\<not> m_entered (mkt w)" by (rule buyCredits_summary [OF b])
  with assms(1) show ?thesis by simp
next
  case (CancelListing sender listingId)
  with assms(2) have "cancelListing sender listingId w = Inr w'" by simp
  from cancelListing_Inr(1) [OF this] assms(1) show ?thesis by simp
next
  case (UpdateListingPrice sender listingId newPrice)
  with assms(2) have "updateListingPrice sender listingId newPrice w = Inr w'" by simp
  from updateListingPrice_Inr(3) [OF this] assms(1) show ?thesis by simp
next
  case (UpdatePlatformFee sender newFee)
  with assms show ?thesis by (auto simp: updatePlatformFee_def bnd_eq_Inr split: if_splits)
next
  case (WithdrawFees sender)
  with assms(2) have "withdrawFees sender w = Inr w'" by simp
  from withdrawFees_fields(2) [OF this] assms(1) show ?thesis by simp
next
  case (TransferOwnership sender newOwner)
  with assms show ?thesis by (auto simp: transferOwnership_def bnd_eq_Inr split: if_splits)
next
  case (RenounceOwnership sender)
  with assms show ?thesis by (auto simp: renounceOwnership_def bnd_eq_Inr split: if_splits)
qed

section \<open>The marketplace: escrow and reachable worlds\<close>

text \<open>
  C6. In every world reached from the constructors' state by transactions that accounts
  sign, for every active listing with a remaining amount above zero: \<open>cancelListing\<close>
  called by its seller succeeds, raises the seller's token balance by exactly the
  remaining amount, closes the listing and sets its amount to zero; the listing stays
  inactive under every later sequence of transactions; a second \<open>cancelListing\<close> by the
  seller fails with "Listing not active"; and \<open>cancelListing\<close> called by anyone else fails
  with "Not listing owner" and leaves the world as it was.
\<close>

theorem cancelListing_releases_escrow:
  assumes "signed_ops marketAddress ops"
    and "w = world_run (world_init tokenDeployer marketDeployer marketAddress accepts funds) ops"
    and "l_isActive (listings (mkt w) listingId)"
    and "0 < l_amount (listings (mkt w) listingId)"
  shows "(\<exists>w'. cancelListing (l_seller (listings (mkt w) listingId)) listingId w = Inr w' \<and>
            unat (balances (tok w') (l_seller (listings (mkt w) listingId)))
              = unat (balances (tok w) (l_seller (listings (mkt w) listingId)))
                + unat (l_amount (listings (mkt w) listingId)) \<and>
            \<not> l_isActive (listings (mkt w') listingId) \<and>
            l_amount (listings (mkt w') listingId) = 0 \<and>
            (\<forall>ops'. \<not> l_isActive (listings (mkt (world_run w' ops')) listingId)) \<and>
            cancelListing (l_seller (listings (mkt w) listingId)) listingId w'
              = Inl (Revert ''Listing not active''))
         \<and> (\<forall>sender. sender \<noteq> l_seller (listings (mkt w) listingId) \<longrightarrow>
               cancelListing sender listingId w = Inl (Revert ''Not listing owner'') \<and>
               world_step w (CancelListing sender listingId) = w)"
proof -
  let ?l = "listings (mkt w) listingId"
  let ?seller = "l_seller ?l"
  have inv: "winv w" unfolding assms(2) by (rule reachable_winv [OF assms(1)])
  note W = winvD [OF inv]
  from cancelListing_succeeds [OF inv assms(3,4)]
  obtain w' where c: "cancelListing ?seller listingId w = Inr w'" ..
  note C = cancelListing_Inr [OF c]
  note T = erc20_transfer_Inr [OF C(4)]
  from W(8) [OF assms(3)] have ne: "self w \<noteq> ?seller" by (auto simp: is_account_def)
  have bal: "unat (balances (tok w') ?seller) = unat (balances (tok w) ?seller) + unat (l_amount ?l)"
    by (rule erc20_update_move(3) [OF T(3) T(1) T(2) ne W(2)])
  have closed: "\<not> l_isActive (listings (mkt w') listingId)" "l_amount (listings (mkt w') listingId) = 0"
    "l_seller (listings (mkt w') listingId) = ?seller"
    using C(5) by simp_all
  from W(7) [of listingId] assms(3) have "\<not> nextListingId (mkt w) \<le> listingId" by auto
  then have lt: "listingId < nextListingId (mkt w')" using C(6) by simp
  have perm: "\<forall>ops'. \<not> l_isActive (listings (mkt (world_run w' ops')) listingId)"
    using world_run_closed [OF lt closed(1)] by simp
  have again: "cancelListing ?seller listingId w' = Inl (Revert ''Listing not active'')"
    using cancelListing_inactive [OF C(9) closed(1)] closed(3) by simp
  have other: "\<forall>sender. sender \<noteq> ?seller \<longrightarrow>
               cancelListing sender listingId w = Inl (Revert ''Not listing owner'') \<and>
               world_step w (CancelListing sender listingId) = w"
    using cancelListing_not_owner [OF W(3)] by (simp add: world_step_def)
  from c bal closed(1,2) perm again other show ?thesis by blast
qed

theorem cancelListing_releases_escrow_witness:
  "signed_ops 9 sale_ops \<and>
   l_isActive (listings (mkt (world_run market_world sale_ops)) 0) \<and>
   l_seller (listings (mkt (world_run market_world sale_ops)) 0) = 2 \<and>
   l_amount (listings (mkt (world_run market_world sale_ops)) 0) = 10 ^ 18 \<and>
   unat (balances (tok (world_run market_world sale_ops)) 2) = 0 \<and>
   \<not> isl (cancelListing 2 0 (world_run market_world sale_ops)) \<and>
   unat (balances (tok (world_step (world_run market_world sale_ops) (CancelListing 2 0))) 2) = 10 ^ 18 \<and>
   \<not> l_isActive (listings (mkt (world_step (world_run market_world sale_ops) (CancelListing 2 0))) 0) \<and>
   cancelListing 2 0 (world_step (world_run market_world sale_ops) (CancelListing 2 0))
     = Inl (Revert ''Listing not active'') \<and>
   cancelListing 3 0 (world_run market_world sale_ops) = Inl (Revert ''Not listing owner'')"
proof -
  let ?w = "world_run market_world sale_ops"
  have a: "signed_ops 9 sale_ops"
    by (simp add: signed_ops_def is_account_def world_scenarios)
  have b: "?w = world_run (world_init 1 1 9 (\<lambda>a. a \<noteq> 1) (\<lambda>a. if a = 3 then 50000 else 0)) sale_ops"
    by (simp add: market_world_def)
  have c: "l_isActive (listings (mkt ?w) 0)" "l_seller (listings (mkt ?w) 0) = 2"
    "l_amount (listings (mkt ?w) 0) = 10 ^ 18" "unat (balances (tok ?w) 2) = 0"
    by (simp_all add: world_scenarios world_eval token_eval)
  have d: "(0::uint256) < l_amount (listings (mkt ?w) 0)" using c(3) by simp
  from cancelListing_releases_escrow [OF a b c(1) d] c
  obtain w' where w': "cancelListing 2 0 ?w = Inr w'"
    "unat (balances (tok w') 2) = 10 ^ 18" "\<not> l_isActive (listings (mkt w') 0)"
    "cancelListing 2 0 w' = Inl (Revert ''Listing not active'')"
    and o: "cancelListing 3 0 ?w = Inl (Revert ''Not listing owner'')"
    by auto
  from w'(1) have "world_step ?w (CancelListing 2 0) = w'" by (simp add: world_step_def)
  with a c w' o show ?thesis by simp
qed

text \<open>
  C5, as the code has it. In every world reached from the constructors' state by
  transactions that accounts sign, for every \<open>buyCredits\<close> call that carries its payment,
  on an active listing, with an amount above zero and at most the remaining amount, by a
  buyer other than the seller, and such that the amount times the price per credit fits
  in 256 bits: the call fails with "Insufficient payment" exactly when the payment is
  below the total price; a failed call leaves the world as it was; and with the payment
  equal to the total price, a seller that accepts the payout and counters that do not
  overflow, the call succeeds, the buyer's value balance goes down by the payment and the
  only external call is the payout, so nothing is refunded.
\<close>

theorem buyCredits_insufficient_payment:
  assumes "signed_ops marketAddress ops"
    and "w = world_run (world_init tokenDeployer marketDeployer marketAddress accepts funds) ops"
    and "l_isActive (listings (mkt w) listingId)"
    and "0 < amount"
    and "amount \<le> l_amount (listings (mkt w) listingId)"
    and "sender \<noteq> l_seller (listings (mkt w) listingId)"
    and "unat amount * unat (l_pricePerCredit (listings (mkt w) listingId)) < 2 ^ 256"
    and "unat val \<le> eth w sender"
  shows "(buyCredits sender val listingId amount now w = Inl (Revert ''Insufficient payment'')
            \<longleftrightarrow> unat val < unat amount * unat (l_pricePerCredit (listings (mkt w) listingId)) div 10 ^ 18)
         \<and> ((\<exists>e. buyCredits sender val listingId amount now w = Inl e) \<longrightarrow>
               world_step w (BuyCredits sender val listingId amount now) = w)
         \<and> (unat val = unat amount * unat (l_pricePerCredit (listings (mkt w) listingId)) div 10 ^ 18
              \<and> is_account marketAddress sender
              \<and> acceptsValue w (l_seller (listings (mkt w) listingId))
              \<and> unat (totalVolume (mkt w)) + unat val < 2 ^ 256
              \<and> unat (totalTrades (mkt w)) + 1 < 2 ^ 256 \<longrightarrow>
             (\<exists>w'. buyCredits sender val listingId amount now w = Inr w' \<and>
                   eth w' sender + unat val = eth w sender \<and>
                   (\<exists>c. calls w' = calls w @ [c] \<and> ec_to c = l_seller (listings (mkt w) listingId))))"
proof -
  let ?l = "listings (mkt w) listingId"
  have inv: "winv w" unfolding assms(2) by (rule reachable_winv [OF assms(1)])
  note W = winvD [OF inv]
  have self: "self w = marketAddress" unfolding assms(2) by (simp add: world_run_self)
  have A: "buyCredits sender val listingId amount now w = Inl (Revert ''Insufficient payment'')
            \<longleftrightarrow> unat val < unat amount * unat (l_pricePerCredit ?l) div 10 ^ 18"
    by (rule buyCredits_payment_check [OF W(3,4) assms(3-8)])
  have B: "(\<exists>e. buyCredits sender val listingId amount now w = Inl e) \<longrightarrow>
               world_step w (BuyCredits sender val listingId amount now) = w"
    by (auto simp: world_step_def)
  have C: "\<exists>w'. buyCredits sender val listingId amount now w = Inr w' \<and>
                   eth w' sender + unat val = eth w sender \<and>
                   (\<exists>c. calls w' = calls w @ [c] \<and> ec_to c = l_seller ?l)"
    if h: "unat val = unat amount * unat (l_pricePerCredit ?l) div 10 ^ 18"
      "is_account marketAddress sender" "acceptsValue w (l_seller ?l)"
      "unat (totalVolume (mkt w)) + unat val < 2 ^ 256"
      "unat (totalTrades (mkt w)) + 1 < 2 ^ 256"
  proof -
    from buy_price_defined [OF assms(7) W(4)] obtain totalPrice fee sellerAmount where
      bp: "buy_price amount (l_pricePerCredit ?l) (platformFee (mkt w))
             = Inr (totalPrice, fee, sellerAmount)"
      by blast
    note P = buy_price_Inr [OF bp]
    from h(1) P(2) have eq: "totalPrice = val" by (simp add: word_unat_eq_iff)
    from h(2) self have acc: "is_account (self w) sender" by simp
    then have sn: "sender \<noteq> self w" by (simp add: is_account_def)
    from eq have le: "totalPrice \<le> val" and nlt: "\<not> totalPrice < val" by simp_all
    from nlt have ab: "totalPrice < val \<longrightarrow> acceptsValue w sender" by simp
    from h(4) eq have tv: "unat (totalVolume (mkt w)) + unat totalPrice < 2 ^ 256" by simp
    from buyCredits_succeeds [OF inv acc assms(3,4,5,6) bp le assms(8) h(3) ab tv h(5)]
    obtain w' where b: "buyCredits sender val listingId amount now w = Inr w'" ..
    from buyCredits_eth(1) [OF b bp] eq assms(6,8) sn
    have "eth w' sender + unat val = eth w sender" by (simp add: eth_move_apply)
    moreover from buyCredits_eth(2) [OF b bp nlt]
    have "\<exists>c. calls w' = calls w @ [c] \<and> ec_to c = l_seller ?l" by simp
    ultimately show ?thesis using b by blast
  qed
  from A B C show ?thesis by blast
qed

text \<open>
  C9. In every world reached from the constructors' state by transactions that accounts
  sign, for a purchase (an amount above zero and at most the remaining amount, of an
  active listing, by an account other than the seller) with amount times price per
  credit below \<open>10 ^ 18\<close>: total price, fee and seller's amount are all 0, and the call
  with payment 0 succeeds, provided the seller accepts the payout call of value 0 and the
  trade counter is not at its maximum. The buyer's token balance goes up by the amount,
  no value balance changes, so the seller receives nothing, and the trade is appended to
  both histories with total price 0.
\<close>

theorem buyCredits_zero_price:
  assumes "signed_ops marketAddress ops"
    and "w = world_run (world_init tokenDeployer marketDeployer marketAddress accepts funds) ops"
    and "l_isActive (listings (mkt w) listingId)"
    and "0 < amount"
    and "amount \<le> l_amount (listings (mkt w) listingId)"
    and "sender \<noteq> l_seller (listings (mkt w) listingId)"
    and "is_account marketAddress sender"
    and "unat amount * unat (l_pricePerCredit (listings (mkt w) listingId)) < 10 ^ 18"
    and "acceptsValue w (l_seller (listings (mkt w) listingId))"
    and "unat (totalTrades (mkt w)) + 1 < 2 ^ 256"
  shows "buy_price amount (l_pricePerCredit (listings (mkt w) listingId)) (platformFee (mkt w))
           = Inr (0, 0, 0)
         \<and> (\<exists>w'. buyCredits sender 0 listingId amount now w = Inr w' \<and>
               unat (balances (tok w') sender) = unat (balances (tok w) sender) + unat amount \<and>
               eth w' = eth w \<and>
               userTrades (mkt w') sender = userTrades (mkt w) sender @
                 [\<lparr> tr_listingId = listingId, tr_buyer = sender,
                    tr_seller = l_seller (listings (mkt w) listingId),
                    tr_amount = amount, tr_totalPrice = 0, tr_timestamp = now \<rparr>] \<and>
               userTrades (mkt w') (l_seller (listings (mkt w) listingId))
                 = userTrades (mkt w) (l_seller (listings (mkt w) listingId)) @
                 [\<lparr> tr_listingId = listingId, tr_buyer = sender,
                    tr_seller = l_seller (listings (mkt w) listingId),
                    tr_amount = amount, tr_totalPrice = 0, tr_timestamp = now \<rparr>] \<and>
               unat (totalVolume (mkt w')) = unat (totalVolume (mkt w)) \<and>
               unat (totalTrades (mkt w')) = unat (totalTrades (mkt w)) + 1)"
proof -
  let ?l = "listings (mkt w) listingId"
  have inv: "winv w" unfolding assms(2) by (rule reachable_winv [OF assms(1)])
  note W = winvD [OF inv]
  have self: "self w = marketAddress" unfolding assms(2) by (simp add: world_run_self)
  with assms(7) have acc: "is_account (self w) sender" by simp
  have bp: "buy_price amount (l_pricePerCredit ?l) (platformFee (mkt w)) = Inr (0, 0, 0)"
    by (rule buy_price_zero [OF assms(8)])
  have le: "(0::uint256) \<le> 0" and funds: "unat (0::uint256) \<le> eth w sender"
    and ab: "(0::uint256) < 0 \<longrightarrow> acceptsValue w sender"
    and tv: "unat (totalVolume (mkt w)) + unat (0::uint256) < 2 ^ 256"
    using unsigned_less [of "totalVolume (mkt w)"] by simp_all
  from buyCredits_succeeds [OF inv acc assms(3,4,5,6) bp le funds assms(9) ab tv assms(10)]
  obtain w' where b: "buyCredits sender 0 listingId amount now w = Inr w'" ..
  from buyCredits_eth(1) [OF b bp] have e: "eth w' = eth w" by simp
  from b obtain totalPrice fee sellerAmount where
    bp': "buy_price amount (l_pricePerCredit ?l) (platformFee (mkt w)) = Inr (totalPrice, fee, sellerAmount)"
    and tr: "erc20_transfer (self w) sender amount (tok w) = Inr (tok w')"
    and ut: "userTrades (mkt w') sender = userTrades (mkt w) sender @
       [\<lparr> tr_listingId = listingId, tr_buyer = sender, tr_seller = l_seller ?l,
          tr_amount = amount, tr_totalPrice = totalPrice, tr_timestamp = now \<rparr>]"
      "userTrades (mkt w') (l_seller ?l) = userTrades (mkt w) (l_seller ?l) @
       [\<lparr> tr_listingId = listingId, tr_buyer = sender, tr_seller = l_seller ?l,
          tr_amount = amount, tr_totalPrice = totalPrice, tr_timestamp = now \<rparr>]"
    and vol: "unat (totalVolume (mkt w')) = unat (totalVolume (mkt w)) + unat totalPrice"
      "unat (totalTrades (mkt w')) = unat (totalTrades (mkt w)) + 1"
    by (rule buyCredits_summary)
  from bp bp' have z: "totalPrice = 0" by simp
  note T = erc20_transfer_Inr [OF tr]
  from acc have "self w \<noteq> sender" by (auto simp: is_account_def)
  from erc20_update_move(3) [OF T(3) T(1) T(2) this W(2)]
  have bal: "unat (balances (tok w') sender) = unat (balances (tok w) sender) + unat amount" .
  from b bal e ut vol z bp show ?thesis by simp
qed

theorem buyCredits_insufficient_payment_witness:
  "signed_ops 9 listing_ops \<and>
   l_isActive (listings (mkt market_listed) 0) \<and>
   l_pricePerCredit (listings (mkt market_listed) 0) = 10000 \<and>
   buyCredits 3 9999 0 (10 ^ 18) 8 market_listed = Inl (Revert ''Insufficient payment'') \<and>
   world_step market_listed (BuyCredits 3 9999 0 (10 ^ 18) 8) = market_listed \<and>
   \<not> isl (buyCredits 3 10000 0 (10 ^ 18) 8 market_listed) \<and>
   eth market_sold 3 + 10000 = eth market_listed 3 \<and>
   length (calls market_sold) = length (calls market_listed) + 1"
proof -
  have a: "signed_ops 9 listing_ops"
    by (simp add: signed_ops_def is_account_def world_scenarios)
  have b: "market_listed = world_run (world_init 1 1 9 (\<lambda>a. a \<noteq> 1) (\<lambda>a. if a = 3 then 50000 else 0)) listing_ops"
    by (simp add: market_listed_def market_world_def)
  have c: "l_isActive (listings (mkt market_listed) 0)"
    "l_pricePerCredit (listings (mkt market_listed) 0) = 10000"
    "l_amount (listings (mkt market_listed) 0) = 2 * 10 ^ 18"
    "l_seller (listings (mkt market_listed) 0) = 2"
    "eth market_listed 3 = 50000" "acceptsValue market_listed 2"
    "totalVolume (mkt market_listed) = 0" "totalTrades (mkt market_listed) = 0"
    by (simp_all add: world_scenarios world_eval token_eval)
  have d: "(0::uint256) < 10 ^ 18" "(10 ^ 18 :: uint256) \<le> l_amount (listings (mkt market_listed) 0)"
    "(3::address) \<noteq> l_seller (listings (mkt market_listed) 0)"
    "unat (10 ^ 18 :: uint256) * unat (l_pricePerCredit (listings (mkt market_listed) 0)) < 2 ^ 256"
    "unat (9999 :: uint256) \<le> eth market_listed 3" "unat (10000 :: uint256) \<le> eth market_listed 3"
    using c by simp_all
  have e: "unat (10 ^ 18 :: uint256) * unat (l_pricePerCredit (listings (mkt market_listed) 0)) div 10 ^ 18 = 10000"
    using c(2) by simp
  have s: "buyCredits 3 10000 0 (10 ^ 18) 8 market_listed = Inr market_sold"
    by (simp add: world_scenarios world_eval token_eval)
  from buyCredits_insufficient_payment [OF a b c(1) d(1,2,3,4,5), of 8] e
  have 1: "buyCredits 3 9999 0 (10 ^ 18) 8 market_listed = Inl (Revert ''Insufficient payment'')"
    "world_step market_listed (BuyCredits 3 9999 0 (10 ^ 18) 8) = market_listed"
    by auto
  from buyCredits_insufficient_payment [OF a b c(1) d(1,2,3,4,6), of 8] e c(4,6,7,8) s
  have 2: "eth market_sold 3 + 10000 = eth market_listed 3"
    "length (calls market_sold) = length (calls market_listed) + 1"
    by (auto simp: is_account_def)
  from a c(1,2) 1 2 s show ?thesis by simp
qed

text \<open>
  C5 as stated fails where the product overflows: the listing holds \<open>2 ^ 200\<close> units at
  \<open>2 ^ 100\<close> per credit, account 3 asks for all of them and pays nothing, which is less
  than the total price, and the call fails with the arithmetic panic of the checked
  multiplication, not with "Insufficient payment".
\<close>

theorem buyCredits_overflow_counterexample:
  "l_isActive (listings (mkt (world_run market_world overflow_ops)) 0) \<and>
   (0::uint256) < 2 ^ 200 \<and>
   (2 ^ 200 :: uint256) \<le> l_amount (listings (mkt (world_run market_world overflow_ops)) 0) \<and>
   (3::address) \<noteq> l_seller (listings (mkt (world_run market_world overflow_ops)) 0) \<and>
   unat (0::uint256)
     < unat (2 ^ 200 :: uint256)
         * unat (l_pricePerCredit (listings (mkt (world_run market_world overflow_ops)) 0)) div 10 ^ 18 \<and>
   buyCredits 3 0 0 (2 ^ 200) 8 (world_run market_world overflow_ops) = Inl Panic \<and>
   buyCredits 3 0 0 (2 ^ 200) 8 (world_run market_world overflow_ops)
     \<noteq> Inl (Revert ''Insufficient payment'')"
  by (simp add: world_scenarios world_eval token_eval)

theorem buyCredits_zero_price_witness:
  "signed_ops 9 dust_ops \<and>
   l_isActive (listings (mkt (world_run market_world dust_ops)) 0) \<and>
   unat (1000 :: uint256) * unat (l_pricePerCredit (listings (mkt (world_run market_world dust_ops)) 0))
     < 10 ^ 18 \<and>
   \<not> isl (buyCredits 3 0 0 1000 8 (world_run market_world dust_ops)) \<and>
   unat (balances (tok (world_step (world_run market_world dust_ops) (BuyCredits 3 0 0 1000 8))) 3) = 1000 \<and>
   eth (world_step (world_run market_world dust_ops) (BuyCredits 3 0 0 1000 8)) 2 = 0 \<and>
   tr_totalPrice (hd (userTrades (mkt (world_step (world_run market_world dust_ops) (BuyCredits 3 0 0 1000 8))) 3)) = 0"
proof -
  let ?w = "world_run market_world dust_ops"
  have a: "signed_ops 9 dust_ops"
    by (simp add: signed_ops_def is_account_def world_scenarios)
  have b: "?w = world_run (world_init 1 1 9 (\<lambda>a. a \<noteq> 1) (\<lambda>a. if a = 3 then 50000 else 0)) dust_ops"
    by (simp add: market_world_def)
  have c: "l_isActive (listings (mkt ?w) 0)"
    "l_pricePerCredit (listings (mkt ?w) 0) = 10000"
    "l_amount (listings (mkt ?w) 0) = 1000"
    "l_seller (listings (mkt ?w) 0) = 2"
    "acceptsValue ?w 2" "totalTrades (mkt ?w) = 0" "eth ?w 2 = 0"
    "unat (balances (tok ?w) 3) = 0" "userTrades (mkt ?w) 3 = []"
    by (simp_all add: world_scenarios world_eval token_eval)
  have d: "(0::uint256) < 1000" "(1000 :: uint256) \<le> l_amount (listings (mkt ?w) 0)"
    "(3::address) \<noteq> l_seller (listings (mkt ?w) 0)" "is_account 9 3"
    "unat (1000 :: uint256) * unat (l_pricePerCredit (listings (mkt ?w) 0)) < 10 ^ 18"
    "acceptsValue ?w (l_seller (listings (mkt ?w) 0))"
    "unat (totalTrades (mkt ?w)) + 1 < 2 ^ 256"
    using c by (simp_all add: is_account_def)
  from buyCredits_zero_price [OF a b c(1) d, of 8] c
  obtain w' where w': "buyCredits 3 0 0 1000 8 ?w = Inr w'"
    "unat (balances (tok w') 3) = 1000" "eth w' = eth ?w"
    "userTrades (mkt w') 3 = [\<lparr> tr_listingId = 0, tr_buyer = 3, tr_seller = 2,
                                 tr_amount = 1000, tr_totalPrice = 0, tr_timestamp = 8 \<rparr>]"
    by auto
  from w'(1) have "world_step ?w (BuyCredits 3 0 0 1000 8) = w'" by (simp add: world_step_def)
  with a c(1,7) d(5) w' show ?thesis by simp
qed

end
